theory Spec2Isabelle
  imports Complex_Main
begin

section \<open>CIE TC1-82 computations: a model of tc.py\<close>

text \<open>
  The program computes colorimetric tables with numpy arrays of floating-point numbers.
  In this development a floating-point number is a real number, a two-dimensional array
  is a list of rows, and a row is a tuple whose first component is the wavelength. The
  arithmetic is that of the real numbers, except in the reference chromaticities, where
  the rounding of every operation is written out.
  Functions that the program takes from numpy and scipy (splines, the simplex minimiser,
  the Delaunay triangulation) are parameters of the definitions that call them.
  A quotient whose divisor is zero is \<open>nan\<close> or \<open>inf\<close> in numpy and \<open>0\<close> in HOL, so
  a theorem about the value of a quotient states that its divisor is not zero.
\<close>

type_synonym row2 = "real \<times> real"
type_synonym row4 = "real \<times> real \<times> real \<times> real"
type_synonym vec3 = "real \<times> real \<times> real"
type_synonym mat3 = "vec3 \<times> vec3 \<times> vec3"

text \<open>The columns 1, 2 and 3 of a row of four; column 0 is \<open>fst\<close>.\<close>

abbreviation col1 :: "row4 \<Rightarrow> real" where "col1 r \<equiv> fst (snd r)"
abbreviation col2 :: "row4 \<Rightarrow> real" where "col2 r \<equiv> fst (snd (snd r))"
abbreviation col3 :: "row4 \<Rightarrow> real" where "col3 r \<equiv> snd (snd (snd r))"

subsection \<open>Rounding\<close>

text \<open>
  \<^verbatim>\<open>s = np.sign(x); return s*np.floor(np.absolute(x)*10**n + 0.5)/10**n\<close>
\<close>

definition my_round :: "real \<Rightarrow> nat \<Rightarrow> real" where
  "my_round x n = sgn x * of_int \<lfloor>\<bar>x\<bar> * 10 ^ n + 0.5\<rfloor> / 10 ^ n"

text \<open>
  \<open>np.log10\<close> has a real value for positive arguments only: for a negative number it
  returns \<open>nan\<close> (with a warning, not an exception) and for zero \<open>-inf\<close>. \<open>None\<close>
  stands for a result that is not a real number; \<open>nan\<close> propagates through
  \<open>np.ceil\<close>, \<open>**\<close>, \<open>/\<close> and \<open>my_round\<close>.
\<close>

definition np_log10 :: "real \<Rightarrow> real option" where
  "np_log10 x = (if 0 < x then Some (log 10 x) else None)"

text \<open>
  \<open>significant_figures\<close> has two paths. For a Python \<open>float\<close> or \<open>int\<close>:
  \<^verbatim>\<open>
    if x == 0.: return 0
    else: b = np.ceil(np.log10(x)); return 10**b*my_round(x/10**b, n)
  \<close>
  For an array, element by element:
  \<^verbatim>\<open>
    b = x.copy(); b[x == 0] = 0
    b[x != 0] = np.ceil(np.log10(abs(x[x != 0])))
    return 10**b*my_round(x/10**b, n)
  \<close>
  The exponent \<open>b\<close> is a float with an integral value; it is an \<open>int\<close> here.
\<close>

definition significant_figures_scalar :: "real \<Rightarrow> nat \<Rightarrow> real option" where
  "significant_figures_scalar x n =
     (if x = 0 then Some 0
      else case np_log10 x of
             None \<Rightarrow> None
           | Some lg \<Rightarrow> (let b = \<lceil>lg\<rceil> in Some (10 powi b * my_round (x / 10 powi b) n)))"

definition significant_figures :: "real \<Rightarrow> nat \<Rightarrow> real" where
  "significant_figures x n =
     (let b = (if x = 0 then 0 else \<lceil>log 10 \<bar>x\<bar>\<rceil>)
      in 10 powi b * my_round (x / 10 powi b) n)"

definition significant_figures3 :: "vec3 \<Rightarrow> nat \<Rightarrow> vec3" where
  "significant_figures3 u n =
     (case u of (a, b, c) \<Rightarrow>
        (significant_figures a n, significant_figures b n, significant_figures c n))"

subsection \<open>Array primitives of numpy\<close>

text \<open>The exceptions of Python that the modelled code can run into.\<close>

datatype error = ZeroDivisionError | ValueError | IndexError

text \<open>
  \<open>np.arange(start, stop, step)\<close> has \<open>ceil((stop - start)/step)\<close> entries
  \<open>start + i*step\<close>, none if that number is negative, and raises for a zero step.
\<close>

definition arange :: "real \<Rightarrow> real \<Rightarrow> real \<Rightarrow> error + real list" where
  "arange start stop step =
     (if step = 0 then Inl ZeroDivisionError
      else Inr (map (\<lambda>i. start + real i * step) [0..<nat \<lceil>(stop - start) / step\<rceil>]))"

text \<open>
  \<open>argmin\<close> and \<open>argmax\<close> return the first index of the least (greatest) entry.
  Both raise on an empty array; the callers below have arrays that are not empty, or test
  for emptiness first.
\<close>

fun argmin :: "'a::linorder list \<Rightarrow> nat" where
  "argmin [] = 0"
| "argmin (x # xs) = (if xs = [] \<or> x \<le> xs ! argmin xs then 0 else Suc (argmin xs))"

fun argmax :: "'a::linorder list \<Rightarrow> nat" where
  "argmax [] = 0"
| "argmax (x # xs) = (if xs = [] \<or> xs ! argmax xs \<le> x then 0 else Suc (argmax xs))"

text \<open>\<open>np.dot\<close> of a 3x3 matrix with one column of a 3xN array.\<close>

definition mat_vec :: "mat3 \<Rightarrow> vec3 \<Rightarrow> vec3" where
  "mat_vec A u =
     (case A of ((a11, a12, a13), (a21, a22, a23), (a31, a32, a33)) \<Rightarrow>
      case u of (l, m, s) \<Rightarrow>
        (a11 * l + a12 * m + a13 * s, a21 * l + a22 * m + a23 * s, a31 * l + a32 * m + a33 * s))"

text \<open>
  The division of three values by their sum, as in
  \<^verbatim>\<open>xyz[0,:]/(xyz[0,:] + xyz[1,:] + xyz[2,:])\<close> and its kin.
\<close>

definition chromaticity :: "vec3 \<Rightarrow> vec3" where
  "chromaticity u = (case u of (X, Y, Z) \<Rightarrow> (X / (X + Y + Z), Y / (X + Y + Z), Z / (X + Y + Z)))"

definition tristimulus_sum :: "vec3 \<Rightarrow> real" where
  "tristimulus_sum u = (case u of (X, Y, Z) \<Rightarrow> X + Y + Z)"

subsection \<open>The tabulated data\<close>

text \<open>
  The class \<open>VisualData\<close> holds the tables read from the data files; the fields are
  the ones that the functions below use. \<open>docul1_fine\<close> and \<open>docul2_fine\<close> are
  computed once from two of the files and \<open>cc31\<close>, \<open>cc64\<close> and the knots from
  \<open>xyz31\<close> and \<open>xyz64\<close>. The tables of one computation have the same wavelengths
  row by row. The reader pads a missing cell with \<open>-inf\<close>, which is no real number:
  a table here has all its cells.
\<close>

record VisualData =
  absorbance :: "row4 list"
  macula :: "row2 list"
  docul1_fine :: "row2 list"
  docul2_fine :: "row2 list"
  lms2_lin_energ :: "row4 list"
  lms10_lin_energ :: "row4 list"
  xyz31 :: "row4 list"
  xyz64 :: "row4 list"

subsection \<open>Functions of age and field size\<close>

text \<open>
  \<^verbatim>\<open>
    ocul = VisualData.docul2_fine.copy()
    if age < 60:
        ocul[:,1] = (1 + 0.02*(age - 32)) * VisualData.docul1_fine[:,1] + VisualData.docul2_fine[:,1]
    else:
        ocul[:,1] = (1.56 + 0.0667*(age - 60)) * VisualData.docul1_fine[:,1] + VisualData.docul2_fine[:,1]
  \<close>
\<close>

definition ocular :: "VisualData \<Rightarrow> real \<Rightarrow> row2 list" where
  "ocular vd age =
     map2 (\<lambda>d1 d2.
            (fst d2,
             if age < 60 then (1 + 0.02 * (age - 32)) * snd d1 + snd d2
             else (1.56 + 0.0667 * (age - 60)) * snd d1 + snd d2))
       (docul1_fine vd) (docul2_fine vd)"

text \<open>\<^verbatim>\<open>return my_round(0.485*np.exp(-field_size/6.132), 3)\<close> and its two kin.\<close>

definition d_mac_max :: "real \<Rightarrow> real" where
  "d_mac_max field_size = my_round (0.485 * exp (- field_size / 6.132)) 3"

definition d_LM_max :: "real \<Rightarrow> real" where
  "d_LM_max field_size = my_round (0.38 + 0.54 * exp (- field_size / 1.333)) 3"

definition d_S_max :: "real \<Rightarrow> real" where
  "d_S_max field_size = my_round (0.30 + 0.45 * exp (- field_size / 1.333)) 3"

text \<open>
  \<^verbatim>\<open>abt[:,1] = 1 - 10**(-d_LM_max(field_size)*10**(VisualData.absorbance[:,1]))\<close>,
  the same for the second column, and with \<open>d_S_max\<close> for the third.
\<close>

definition absorpt :: "VisualData \<Rightarrow> real \<Rightarrow> row4 list" where
  "absorpt vd field_size =
     map (\<lambda>r. case r of (w, a1, a2, a3) \<Rightarrow>
            (w,
             1 - 10 powr (- d_LM_max field_size * 10 powr a1),
             1 - 10 powr (- d_LM_max field_size * 10 powr a2),
             1 - 10 powr (- d_S_max field_size * 10 powr a3)))
       (absorbance vd)"

text \<open>The greatest entry of each of the three columns, and the division by them.\<close>

definition column_maxima :: "row4 list \<Rightarrow> vec3" where
  "column_maxima rows =
     (Max (set (map col1 rows)), Max (set (map col2 rows)), Max (set (map col3 rows)))"

definition divide_columns :: "row4 list \<Rightarrow> vec3 \<Rightarrow> row4 list" where
  "divide_columns rows maxima =
     (case maxima of (m1, m2, m3) \<Rightarrow>
        map (\<lambda>r. case r of (w, a, b, c) \<Rightarrow> (w, a / m1, b / m2, c / m3)) rows)"

text \<open>
  \<^verbatim>\<open>
    abt = absorpt(field_size); lmsq = abt.copy(); ocul = ocular(age)
    for i in range(1,4):
        lmsq[:,i] = abt[:,i] * 10**(-d_mac_max(field_size)*VisualData.macula[:,1]/.35 - ocul[:,1])
        lmsq[:,i] = lmsq[:,i]/(lmsq[:,i].max())
  \<close>
\<close>

definition lms_quantal :: "VisualData \<Rightarrow> real \<Rightarrow> real \<Rightarrow> row4 list" where
  "lms_quantal vd field_size age =
     (let transmittance =
            map2 (\<lambda>mac oc. 10 powr (- d_mac_max field_size * snd mac / 0.35 - snd oc))
              (macula vd) (ocular vd age);
          lmsq = map2 (\<lambda>r t. case r of (w, a, b, c) \<Rightarrow> (w, a * t, b * t, c * t))
                   (absorpt vd field_size) transmittance
      in divide_columns lmsq (column_maxima lmsq))"

text \<open>
  \<^verbatim>\<open>
    if age == 32:
        if field_size == 2:    return VisualData.lms2_lin_energ.copy(), 0
        elif field_size == 10: return VisualData.lms10_lin_energ.copy(), 0
    lms = lms_quantal(field_size, age)
    lms_max = []
    for i in range(1,4):
        lms[:,i] = lms[:,i]*lms[:,0]
        lms_max.append(lms[:,i].max())
        lms[:,i] = lms[:,i]/lms[:,i].max()
    return significant_figures(lms, 9), np.array(lms_max)
  \<close>
  The dummy \<open>0\<close> of the two early returns is \<open>None\<close>. \<open>significant_figures\<close>
  is applied to the whole array, the column of wavelengths included. This call is the
  first statement of \<open>compute_tabulated\<close> after \<open>plots = dict()\<close>.
\<close>

definition significant_figures4 :: "row4 \<Rightarrow> nat \<Rightarrow> row4" where
  "significant_figures4 r n =
     (case r of (w, a, b, c) \<Rightarrow>
        (significant_figures w n, significant_figures a n,
         significant_figures b n, significant_figures c n))"

definition lms_energy_base :: "VisualData \<Rightarrow> real \<Rightarrow> real \<Rightarrow> row4 list \<times> vec3 option" where
  "lms_energy_base vd field_size age =
     (if age = 32 \<and> field_size = 2 then (lms2_lin_energ vd, None)
      else if age = 32 \<and> field_size = 10 then (lms10_lin_energ vd, None)
      else
        let lms = map (\<lambda>r. case r of (w, a, b, c) \<Rightarrow> (w, a * w, b * w, c * w))
                    (lms_quantal vd field_size age);
            lms_max = column_maxima lms
        in (map (\<lambda>r. significant_figures4 r 9) (divide_columns lms lms_max), Some lms_max))"

text \<open>\<^verbatim>\<open>lambdas = np.arange(390, 830 + resolution, resolution)\<close>\<close>

definition lambdas_of :: "real \<Rightarrow> error + real list" where
  "lambdas_of resolution = arange 390 (830 + resolution) resolution"

subsection \<open>Floating-point arithmetic\<close>

text \<open>
  A Python \<open>float\<close> and a numpy \<open>float64\<close> are IEEE 754 binary64 numbers: an
  arithmetic operation returns the exact result rounded to the nearest number with a
  significand of 53 bits, and of two nearest numbers the one whose significand is even.
  \<open>binary64\<close> is that rounding for results of normal size (it leaves out overflow and
  the numbers below \<open>2 powi - 1022\<close>, which the reference chromaticities do not reach).
  The computation of the reference chromaticities takes the rounding as a parameter and
  applies it to the result of every operation, in the order in which Python evaluates
  them; with \<open>exact\<close> for it the arithmetic is that of the real numbers.
\<close>

type_synonym rounding = "real \<Rightarrow> real"

definition exact :: rounding where
  "exact x = x"

definition round_half_even :: "real \<Rightarrow> int" where
  "round_half_even x =
     (let n = \<lfloor>x\<rfloor>
      in if x - of_int n < 1 / 2 then n
         else if 1 / 2 < x - of_int n then n + 1
         else if even n then n else n + 1)"

definition binary64 :: rounding where
  "binary64 x =
     (if x = 0 then 0
      else
        let e = \<lfloor>log 2 \<bar>x\<bar>\<rfloor>;
            ulp = 2 powi (e - 52)
        in of_int (round_half_even (x / ulp)) * ulp)"

subsection \<open>The reference chromaticities\<close>

text \<open>
  \<open>chromaticities_from_XYZ\<close> divides every row of the two colour matching functions by
  the sum of its three values and picks five knots:
  \<^verbatim>\<open>
    cc31sum = np.sum(cc31[:,1:], axis=1)
    for i in range(1,4):
        cc31[:,i] = cc31[:,i]/cc31sum
    cc31knots = np.array([cc31[0,0], cc31[np.argmin(cc31[:,1]),0],
                          cc31[np.argmax(cc31[:,2]),0], 700, cc31[-1,0]])
  \<close>
  The sum of a row is taken from left to right.
\<close>

definition chromaticity_fl :: "rounding \<Rightarrow> vec3 \<Rightarrow> vec3" where
  "chromaticity_fl fl u =
     (case u of (X, Y, Z) \<Rightarrow>
        let s = fl (fl (X + Y) + Z) in (fl (X / s), fl (Y / s), fl (Z / s)))"

definition cc_of_xyz :: "rounding \<Rightarrow> row4 list \<Rightarrow> row4 list" where
  "cc_of_xyz fl xyz = map (\<lambda>r. (fst r, chromaticity_fl fl (snd r))) xyz"

definition knots_of :: "row4 list \<Rightarrow> real list" where
  "knots_of cc =
     [fst (cc ! 0), fst (cc ! argmin (map col1 cc)), fst (cc ! argmax (map col2 cc)), 700,
      fst (last cc)]"

definition chromaticities_from_XYZ ::
  "rounding \<Rightarrow> row4 list \<Rightarrow> row4 list \<Rightarrow> row4 list \<times> row4 list \<times> real list \<times> real list" where
  "chromaticities_from_XYZ fl xyz31' xyz64' =
     (let cc31 = cc_of_xyz fl xyz31'; cc64 = cc_of_xyz fl xyz64'
      in (cc31, cc64, knots_of cc31, knots_of cc64))"

text \<open>
  \<open>scipy.interpolate.interp1d(x, y, kind)\<close> gives a function of one argument that raises
  \<open>ValueError\<close> outside the range of \<open>x\<close>. For \<open>kind='linear'\<close> it sorts the
  points by \<open>x\<close>, finds by \<open>searchsorted\<close> the number of abscissae below the
  argument, clips it to \<open>1 .. len(x) - 1\<close>, and follows the straight line through the
  two neighbouring points:
  \<^verbatim>\<open>
    slope = (y_hi - y_lo) / (x_hi - x_lo)[:, None]
    y_new = slope*(x_new - x_lo)[:, None] + y_lo
  \<close>
  The cubic interpolant is a parameter.
\<close>

type_synonym interpolator = "real list \<Rightarrow> real list \<Rightarrow> real \<Rightarrow> error + real"

definition interp1d_linear :: "rounding \<Rightarrow> interpolator" where
  "interp1d_linear fl x y x_new =
     (let points = sort_key fst (zip x y);
          xs = map fst points;
          ys = map snd points
      in if xs = [] \<or> x_new < hd xs \<or> last xs < x_new then Inl ValueError
         else
           let hi = min (max 1 (length (filter (\<lambda>k. k < x_new) xs))) (length xs - 1);
               lo = hi - 1;
               slope = fl (fl (ys ! hi - ys ! lo) / fl (xs ! hi - xs ! lo))
           in Inr (fl (fl (slope * fl (x_new - xs ! lo)) + ys ! lo)))"

text \<open>
  An exception ends the computation: \<open>then_err r f\<close> goes on with \<open>f\<close> if \<open>r\<close> is
  a value. An interpolant applied to an array gives the first error, or all the values.
\<close>

definition then_err :: "error + 'a \<Rightarrow> ('a \<Rightarrow> error + 'b) \<Rightarrow> error + 'b" where
  "then_err r f = (case r of Inl e \<Rightarrow> Inl e | Inr v \<Rightarrow> f v)"

fun map_err :: "('a \<Rightarrow> error + 'b) \<Rightarrow> 'a list \<Rightarrow> error + 'b list" where
  "map_err f [] = Inr []"
| "map_err f (x # xs) =
     (case f x of
        Inl e \<Rightarrow> Inl e
      | Inr y \<Rightarrow> (case map_err f xs of Inl e \<Rightarrow> Inl e | Inr ys \<Rightarrow> Inr (y # ys)))"

text \<open>\<open>np.arange(360., 831.)\<close>\<close>

definition arange_360_831 :: "real list" where
  "arange_360_831 = map (\<lambda>i. 360 + real i) [0..<471]"

text \<open>
  \<^verbatim>\<open>
    xvalues = (1-alpha)*cc31x + alpha*cc64x
    yvalues = (1-alpha)*cc31y + alpha*cc64y
    zvalues = 1 - xvalues - yvalues
    return np.concatenate((np.reshape(lambd, (471,1)), np.reshape(xvalues, (471,1)), ...), 1)
  \<close>
  The third coordinate is not interpolated: it comes from two subtractions.
\<close>

definition blended_rows ::
  "rounding \<Rightarrow> real \<Rightarrow> real list \<Rightarrow> real list \<Rightarrow> real list \<Rightarrow> real list \<Rightarrow> real list \<Rightarrow>
   row4 list" where
  "blended_rows fl alpha lambd cc31x cc64x cc31y cc64y =
     map (\<lambda>i. let xvalue = fl (fl (fl (1 - alpha) * cc31x ! i) + fl (alpha * cc64x ! i));
                  yvalue = fl (fl (fl (1 - alpha) * cc31y ! i) + fl (alpha * cc64y ! i))
              in (lambd ! i, xvalue, yvalue, fl (fl (1 - xvalue) - yvalue)))
       [0..<471]"

text \<open>
  \<^verbatim>\<open>
    alpha = (field_size - 2)/8.
    knots = (1 - alpha)*VisualData.cc31knots + alpha*VisualData.cc64knots
    knots[0] = 360.
    knots[-1] = 830.
    lambd = np.arange(360., 831.)
    lambda31_func = scipy.interpolate.interp1d(knots, VisualData.cc31knots, kind='linear')
    lambda64_func = scipy.interpolate.interp1d(knots, VisualData.cc64knots, kind='linear')
    lambda31 = lambda31_func(lambd)
    lambda64 = lambda64_func(lambd)
    cc31x_func = scipy.interpolate.interp1d(VisualData.cc31[:,0], VisualData.cc31[:,1], kind='cubic')
    cc64x_func = ...
    cc31x = cc31x_func(lambda31)
    cc64x = cc64x_func(lambda64)
  \<close>
  and the same for \<open>y\<close>. With an empty table the class body of \<open>VisualData\<close>
  already fails with \<open>IndexError\<close>.
\<close>

definition chromaticity_interpolated ::
  "rounding \<Rightarrow> interpolator \<Rightarrow> VisualData \<Rightarrow> real \<Rightarrow> error + row4 list" where
  "chromaticity_interpolated fl cubic vd field_size =
     (if xyz31 vd = [] \<or> xyz64 vd = [] then Inl IndexError
      else
        let cc31 = fst (chromaticities_from_XYZ fl (xyz31 vd) (xyz64 vd));
            cc64 = fst (snd (chromaticities_from_XYZ fl (xyz31 vd) (xyz64 vd)));
            cc31knots = fst (snd (snd (chromaticities_from_XYZ fl (xyz31 vd) (xyz64 vd))));
            cc64knots = snd (snd (snd (chromaticities_from_XYZ fl (xyz31 vd) (xyz64 vd))));
            alpha = fl (fl (field_size - 2) / 8);
            blend = map2 (\<lambda>k31 k64. fl (fl (fl (1 - alpha) * k31) + fl (alpha * k64)))
                      cc31knots cc64knots;
            knots = blend[0 := 360, length blend - 1 := 830];
            lambd = arange_360_831
        in
          then_err (map_err (interp1d_linear fl knots cc31knots) lambd) (\<lambda>lambda31.
          then_err (map_err (interp1d_linear fl knots cc64knots) lambd) (\<lambda>lambda64.
          then_err (map_err (cubic (map fst cc31) (map col1 cc31)) lambda31) (\<lambda>cc31x.
          then_err (map_err (cubic (map fst cc64) (map col1 cc64)) lambda64) (\<lambda>cc64x.
          then_err (map_err (cubic (map fst cc31) (map col2 cc31)) lambda31) (\<lambda>cc31y.
          then_err (map_err (cubic (map fst cc64) (map col2 cc64)) lambda64) (\<lambda>cc64y.
            Inr (blended_rows fl alpha lambd cc31x cc64x cc31y cc64y))))))))"

text \<open>
  What the data files of the two standard observers are like: a value at every nanometre
  from 360 to 830, no row with sum zero, and knots that increase (the least \<open>x\<close>
  lies before the greatest \<open>y\<close>, both between 360 and 700 nm).
\<close>

definition standard_table :: "rounding \<Rightarrow> row4 list \<Rightarrow> bool" where
  "standard_table fl xyz \<longleftrightarrow>
     map fst xyz = arange_360_831 \<and>
     list_all (\<lambda>r. tristimulus_sum (snd r) \<noteq> 0) xyz \<and>
     sorted_wrt (<) (knots_of (cc_of_xyz fl xyz))"

subsection \<open>The transformation from LMS to XYZ\<close>

text \<open>
  The splines \<open>l_spline\<close>, \<open>m_spline\<close>, \<open>s_spline\<close> and \<open>v_spline\<close> are scipy
  objects that are called with a wavelength or with an array of wavelengths; here they
  are functions on the reals, mapped over a list. \<open>cc_ref\<close> is the table that
  \<open>chromaticity_interpolated\<close> returns, with rows \<open>(wavelength, x, y, z)\<close>.
\<close>

type_synonym spline = "real \<Rightarrow> real"

definition spline_sum :: "spline \<Rightarrow> real list \<Rightarrow> real" where
  "spline_sum f lambdas = sum_list (map f lambdas)"

text \<open>\<^verbatim>\<open>cc_ref_trunk = cc_ref[30:,1:].T.copy(); x_ref_min = cc_ref_trunk[0,:].min()\<close>\<close>

definition cc_ref_trunk :: "row4 list \<Rightarrow> vec3 list" where
  "cc_ref_trunk cc_ref = map snd (drop 30 cc_ref)"

definition x_ref_min :: "row4 list \<Rightarrow> real" where
  "x_ref_min cc_ref = Min (set (map fst (cc_ref_trunk cc_ref)))"

text \<open>The two closed forms of \<open>square_sum\<close> (``computed by Mathematica''), term by term.\<close>

definition a_denominator ::
  "spline \<Rightarrow> spline \<Rightarrow> real list \<Rightarrow> real \<Rightarrow> real \<Rightarrow> real" where
  "a_denominator l_spline m_spline lambdas lambda_ref_min xmin =
     (m_spline lambda_ref_min * spline_sum l_spline lambdas
        - l_spline lambda_ref_min * spline_sum m_spline lambdas) * (- 1 + xmin)"

definition a11_closed_form ::
  "real \<Rightarrow> real \<Rightarrow> real \<Rightarrow> real \<Rightarrow> spline \<Rightarrow> spline \<Rightarrow> spline \<Rightarrow> spline \<Rightarrow>
   real list \<Rightarrow> real \<Rightarrow> real \<Rightarrow> real" where
  "a11_closed_form a13 a21 a22 a33 l_spline m_spline s_spline v_spline
       lambdas lambda_ref_min xmin =
     (- m_spline lambda_ref_min * spline_sum v_spline lambdas
      + a13 * (s_spline lambda_ref_min * spline_sum m_spline lambdas
               - m_spline lambda_ref_min * spline_sum s_spline lambdas) * (- 1 + xmin)
      + (a21 * l_spline lambda_ref_min + a33 * s_spline lambda_ref_min)
          * spline_sum m_spline lambdas * xmin
      + m_spline lambda_ref_min
          * (a22 * spline_sum m_spline lambdas + spline_sum v_spline lambdas) * xmin)
     / a_denominator l_spline m_spline lambdas lambda_ref_min xmin"

definition a12_closed_form ::
  "real \<Rightarrow> real \<Rightarrow> real \<Rightarrow> real \<Rightarrow> spline \<Rightarrow> spline \<Rightarrow> spline \<Rightarrow> spline \<Rightarrow>
   real list \<Rightarrow> real \<Rightarrow> real \<Rightarrow> real" where
  "a12_closed_form a13 a21 a22 a33 l_spline m_spline s_spline v_spline
       lambdas lambda_ref_min xmin =
     (l_spline lambda_ref_min * spline_sum v_spline lambdas
      - a13 * (s_spline lambda_ref_min * spline_sum l_spline lambdas
               - l_spline lambda_ref_min * spline_sum s_spline lambdas) * (- 1 + xmin)
      - ((a21 * l_spline lambda_ref_min + a22 * m_spline lambda_ref_min
            + a33 * s_spline lambda_ref_min) * spline_sum l_spline lambdas
         + l_spline lambda_ref_min * spline_sum v_spline lambdas) * xmin)
     / a_denominator l_spline m_spline lambdas lambda_ref_min xmin"

text \<open>
  \<^verbatim>\<open>
    a11 = my_round(a11[0], mat_dp); a12 = my_round(a12[0], mat_dp)
    a13 = my_round(a13[0], mat_dp)
    trans_mat = np.array([[a11, a12, a13], [a21, a22, 0], [0, 0, a33]])
  \<close>
\<close>

definition trans_mat_of ::
  "real \<Rightarrow> real \<Rightarrow> real \<Rightarrow> real \<Rightarrow> spline \<Rightarrow> spline \<Rightarrow> spline \<Rightarrow> spline \<Rightarrow>
   real list \<Rightarrow> real \<Rightarrow> row4 list \<Rightarrow> nat \<Rightarrow> mat3" where
  "trans_mat_of a13 a21 a22 a33 l_spline m_spline s_spline v_spline
       lambdas lambda_ref_min cc_ref mat_dp =
     (let xmin = x_ref_min cc_ref;
          a11 = a11_closed_form a13 a21 a22 a33 l_spline m_spline s_spline v_spline
                  lambdas lambda_ref_min xmin;
          a12 = a12_closed_form a13 a21 a22 a33 l_spline m_spline s_spline v_spline
                  lambdas lambda_ref_min xmin
      in ((my_round a11 mat_dp, my_round a12 mat_dp, my_round a13 mat_dp),
          (a21, a22, 0),
          (0, 0, a33)))"

text \<open>\<open>np.arange(390, 831)\<close>, the grid on which \<open>square_sum\<close> samples the splines.\<close>

definition arange_390_831 :: "real list" where
  "arange_390_831 = map (\<lambda>i. 390 + real i) [0..<441]"

text \<open>
  \<^verbatim>\<open>
    lms = np.array([l_spline(np.arange(390, 831)), ...])
    xyz = np.dot(trans_mat, lms); xyz = significant_figures(xyz, xyz_signfig)
    cc = np.array([xyz[0,:]/(xyz[0,:] + xyz[1,:] + xyz[2,:]), ...])
  \<close>
\<close>

definition xyz_at :: "mat3 \<Rightarrow> spline \<Rightarrow> spline \<Rightarrow> spline \<Rightarrow> nat \<Rightarrow> real \<Rightarrow> vec3" where
  "xyz_at trans_mat l_spline m_spline s_spline xyz_signfig w =
     significant_figures3 (mat_vec trans_mat (l_spline w, m_spline w, s_spline w)) xyz_signfig"

definition xyz_sampled :: "mat3 \<Rightarrow> spline \<Rightarrow> spline \<Rightarrow> spline \<Rightarrow> nat \<Rightarrow> vec3 list" where
  "xyz_sampled trans_mat l_spline m_spline s_spline xyz_signfig =
     map (xyz_at trans_mat l_spline m_spline s_spline xyz_signfig) arange_390_831"

definition cc_sampled :: "mat3 \<Rightarrow> spline \<Rightarrow> spline \<Rightarrow> spline \<Rightarrow> nat \<Rightarrow> vec3 list" where
  "cc_sampled trans_mat l_spline m_spline s_spline xyz_signfig =
     map chromaticity (xyz_sampled trans_mat l_spline m_spline s_spline xyz_signfig)"

text \<open>The modelled \<open>x\<close> at one wavelength, \<open>cc[0,:]\<close> at its index.\<close>

definition modelled_x :: "mat3 \<Rightarrow> spline \<Rightarrow> spline \<Rightarrow> spline \<Rightarrow> nat \<Rightarrow> real \<Rightarrow> real" where
  "modelled_x trans_mat l_spline m_spline s_spline xyz_signfig w =
     fst (chromaticity (xyz_at trans_mat l_spline m_spline s_spline xyz_signfig w))"

text \<open>
  \<^verbatim>\<open>err = ((cc - cc_ref_trunk)**2).sum()\<close>: \<open>cc\<close> has 441 columns, so numpy
  accepts a \<open>cc_ref_trunk\<close> of 441 columns, or of one column, which it repeats.
\<close>

definition sq_dist :: "vec3 \<Rightarrow> vec3 \<Rightarrow> real" where
  "sq_dist u w =
     (case u of (a, b, c) \<Rightarrow> case w of (a', b', c') \<Rightarrow> (a - a')\<^sup>2 + (b - b')\<^sup>2 + (c - c')\<^sup>2)"

definition broadcast_441 :: "vec3 list \<Rightarrow> vec3 list" where
  "broadcast_441 trunk = (if length trunk = 1 then replicate 441 (trunk ! 0) else trunk)"

definition cc_error :: "vec3 list \<Rightarrow> row4 list \<Rightarrow> real" where
  "cc_error cc cc_ref =
     sum_list (map2 sq_dist cc (broadcast_441 (cc_ref_trunk cc_ref)))"

text \<open>
  \<open>square_sum\<close> with \<open>full_results=True\<close>: the error, the matrix, the wavelength of the
  least modelled \<open>x\<close>, and whether that is the wavelength asked for. It raises
  \<open>ValueError\<close> if \<open>cc_ref\<close> has no row from the 31st on (the \<open>min\<close> of an empty
  array) or a number of such rows that does not fit the 441 samples.
\<close>

type_synonym square_sum_result = "real \<times> mat3 \<times> real \<times> bool"

definition square_sum ::
  "real \<Rightarrow> real \<Rightarrow> real \<Rightarrow> real \<Rightarrow> spline \<Rightarrow> spline \<Rightarrow> spline \<Rightarrow> spline \<Rightarrow>
   real list \<Rightarrow> real \<Rightarrow> row4 list \<Rightarrow> nat \<Rightarrow> nat \<Rightarrow> error + square_sum_result" where
  "square_sum a13 a21 a22 a33 l_spline m_spline s_spline v_spline
       lambdas lambda_ref_min cc_ref xyz_signfig mat_dp =
     (if length (cc_ref_trunk cc_ref) \<noteq> 1 \<and> length (cc_ref_trunk cc_ref) \<noteq> 441
      then Inl ValueError
      else
        let trans_mat = trans_mat_of a13 a21 a22 a33 l_spline m_spline s_spline v_spline
                          lambdas lambda_ref_min cc_ref mat_dp;
            cc = cc_sampled trans_mat l_spline m_spline s_spline xyz_signfig;
            err = cc_error cc cc_ref;
            lambda_test_min = arange_390_831 ! argmin (map fst cc);
            ok = (lambda_test_min = lambda_ref_min)
        in Inr (err, trans_mat, lambda_test_min, ok))"

text \<open>\<open>square_sum\<close> with \<open>full_results=False\<close>, the objective handed to \<open>fmin\<close>.\<close>

definition square_sum_err ::
  "real \<Rightarrow> real \<Rightarrow> real \<Rightarrow> spline \<Rightarrow> spline \<Rightarrow> spline \<Rightarrow> spline \<Rightarrow>
   real list \<Rightarrow> real \<Rightarrow> row4 list \<Rightarrow> nat \<Rightarrow> nat \<Rightarrow> real \<Rightarrow> real" where
  "square_sum_err a21 a22 a33 l_spline m_spline s_spline v_spline
       lambdas lambda_ref_min cc_ref xyz_signfig mat_dp a13 =
     cc_error
       (cc_sampled
          (trans_mat_of a13 a21 a22 a33 l_spline m_spline s_spline v_spline
             lambdas lambda_ref_min cc_ref mat_dp)
          l_spline m_spline s_spline xyz_signfig)
       cc_ref"

text \<open>
  The loop of \<open>compute_tabulated\<close>:
  \<^verbatim>\<open>
    lambda_ref_min = 500
    ok = False
    while not ok:
        a13 = scipy.optimize.fmin(square_sum, 0.39, (...), xtol=10**(-(mat_dp + 2)), disp=False)
        err, trans_mat, lambda_ref_min, ok = square_sum(a13, ..., lambda_ref_min, cc_ref, True, ...)
  \<close>
  \<open>solver_step\<close> is one pass through its body and \<open>solver_loop\<close> the loop over any
  body. The loop has no counter: where it does not return, the value is \<open>None\<close>.
  \<open>fmin\<close> is scipy's minimiser, given the objective, the start value and \<open>xtol\<close>.
\<close>

type_synonym minimiser = "(real \<Rightarrow> real) \<Rightarrow> real \<Rightarrow> real \<Rightarrow> real"

definition solver_step ::
  "minimiser \<Rightarrow> real \<Rightarrow> real \<Rightarrow> real \<Rightarrow> spline \<Rightarrow> spline \<Rightarrow> spline \<Rightarrow> spline \<Rightarrow>
   real list \<Rightarrow> row4 list \<Rightarrow> nat \<Rightarrow> nat \<Rightarrow> real \<Rightarrow> error + square_sum_result" where
  "solver_step fmin a21 a22 a33 l_spline m_spline s_spline v_spline
       lambdas cc_ref xyz_signfig mat_dp lambda_ref_min =
     (if length (cc_ref_trunk cc_ref) \<noteq> 1 \<and> length (cc_ref_trunk cc_ref) \<noteq> 441
      then Inl ValueError
      else
        let a13 = fmin (square_sum_err a21 a22 a33 l_spline m_spline s_spline v_spline
                          lambdas lambda_ref_min cc_ref xyz_signfig mat_dp)
                    0.39 (10 powi (- int (mat_dp + 2)))
        in square_sum a13 a21 a22 a33 l_spline m_spline s_spline v_spline
             lambdas lambda_ref_min cc_ref xyz_signfig mat_dp)"

partial_function (option) solver_loop ::
  "(real \<Rightarrow> error + square_sum_result) \<Rightarrow> real \<Rightarrow> (error + real \<times> mat3 \<times> real) option" where
  "solver_loop step lambda_ref_min =
     (case step lambda_ref_min of
        Inl e \<Rightarrow> Some (Inl e)
      | Inr (err, trans_mat, lambda_test_min, ok) \<Rightarrow>
          if ok then Some (Inr (err, trans_mat, lambda_test_min))
          else solver_loop step lambda_test_min)"

text \<open>
  The part of \<open>compute_tabulated\<close> that produces the matrix: the wavelength grid, the
  entry \<open>a33\<close>, and the loop started at 500 nm.
  \<^verbatim>\<open>
    lambdas = np.arange(390, 830 + resolution, resolution)
    s_values = s_spline(lambdas); v_values = v_spline(lambdas)
    a21 = weights[0]; a22 = weights[1]
    a33 = my_round(v_values.sum() / s_values.sum(), mat_dp)
  \<close>
\<close>

definition a33_of :: "spline \<Rightarrow> spline \<Rightarrow> real list \<Rightarrow> nat \<Rightarrow> real" where
  "a33_of s_spline v_spline lambdas mat_dp =
     my_round (spline_sum v_spline lambdas / spline_sum s_spline lambdas) mat_dp"

definition transform_solver ::
  "minimiser \<Rightarrow> real \<Rightarrow> real \<Rightarrow> spline \<Rightarrow> spline \<Rightarrow> spline \<Rightarrow> spline \<Rightarrow>
   real \<Rightarrow> row4 list \<Rightarrow> nat \<Rightarrow> nat \<Rightarrow> (error + real \<times> mat3 \<times> real) option" where
  "transform_solver fmin a21 a22 l_spline m_spline s_spline v_spline
       resolution cc_ref xyz_signfig mat_dp =
     (case lambdas_of resolution of
        Inl e \<Rightarrow> Some (Inl e)
      | Inr lambdas \<Rightarrow>
          solver_loop
            (solver_step fmin a21 a22 (a33_of s_spline v_spline lambdas mat_dp)
               l_spline m_spline s_spline v_spline lambdas cc_ref xyz_signfig mat_dp)
            500)"

subsection \<open>The chromaticity diagrams\<close>

text \<open>
  The three tables \<open>cc\<close>, \<open>bm\<close> and \<open>lm\<close> of \<open>compute_tabulated\<close>, on the
  requested grid \<open>lambdas\<close>. Each row is the wavelength and three coordinates.
  \<^verbatim>\<open>
    xyz = np.dot(trans_mat, lms); xyz = significant_figures(xyz, xyz_signfig)
    cc = np.array([xyz[0,:] / (xyz[0,:] + xyz[1,:] + xyz[2,:]), ...])
    cc = my_round(cc, cc_dp)
  \<close>
\<close>

definition my_round3 :: "vec3 \<Rightarrow> nat \<Rightarrow> vec3" where
  "my_round3 u dp = (case u of (a, b, c) \<Rightarrow> (my_round a dp, my_round b dp, my_round c dp))"

definition cc_table ::
  "mat3 \<Rightarrow> spline \<Rightarrow> spline \<Rightarrow> spline \<Rightarrow> real list \<Rightarrow> nat \<Rightarrow> nat \<Rightarrow> row4 list" where
  "cc_table trans_mat l_spline m_spline s_spline lambdas xyz_signfig cc_dp =
     map (\<lambda>w. (w, my_round3
                   (chromaticity (xyz_at trans_mat l_spline m_spline s_spline xyz_signfig w))
                   cc_dp))
       lambdas"

text \<open>
  \<^verbatim>\<open>
    bm_s_max = np.max(lms[:,3] / v_lambda[:,1])       # on the tables, before resampling
    bm[:,1] = trans_mat[1,0] * lms[:,1] / Vl[:,1]
    bm[:,2] = trans_mat[1,1] * lms[:,2] / Vl[:,1]
    bm[:,3] = lms[:,3] / Vl[:,1]
    bm[:,3] = bm[:,3] / bm_s_max
    bm[:,1:] = my_round(bm[:,1:], bm_dp)
  \<close>
\<close>

definition bm_s_max_of :: "row4 list \<Rightarrow> row2 list \<Rightarrow> real" where
  "bm_s_max_of lms v_lambda =
     Max (set (map2 (\<lambda>r v. col3 r / snd v) lms v_lambda))"

definition bm_row :: "mat3 \<Rightarrow> vec3 \<Rightarrow> real \<Rightarrow> real \<Rightarrow> nat \<Rightarrow> vec3" where
  "bm_row trans_mat lms V bm_s_max bm_dp =
     (case trans_mat of (row1, (a21, a22, a23), row3) \<Rightarrow>
      case lms of (L, M, S) \<Rightarrow>
        my_round3 (a21 * L / V, a22 * M / V, S / V / bm_s_max) bm_dp)"

definition bm_table ::
  "mat3 \<Rightarrow> spline \<Rightarrow> spline \<Rightarrow> spline \<Rightarrow> spline \<Rightarrow> real list \<Rightarrow> real \<Rightarrow> nat \<Rightarrow>
   row4 list" where
  "bm_table trans_mat l_spline m_spline s_spline v_spline lambdas bm_s_max bm_dp =
     map (\<lambda>w. (w, bm_row trans_mat (l_spline w, m_spline w, s_spline w) (v_spline w)
                   bm_s_max bm_dp))
       lambdas"

text \<open>
  \<^verbatim>\<open>
    if lm_dp > 5: lms_N = lms.copy()
    else:         lms_N = lms_standard.copy()
    lms_N[:,1:] = lms_N[:,1:] / np.sum(lms_N[:,1:], 0)
    lm[:,1] = lms_N[:,1] / (lms_N[:,1] + lms_N[:,2] + lms_N[:,3])     # and so on
    lm[:,1:] = my_round(lm[:,1:], lm_dp)
  \<close>
  \<open>ls_spline\<close>, \<open>ms_spline\<close> and \<open>ss_spline\<close> are the splines through
  \<open>lms_standard\<close>.
\<close>

definition lms_N_at ::
  "spline \<Rightarrow> spline \<Rightarrow> spline \<Rightarrow> spline \<Rightarrow> spline \<Rightarrow> spline \<Rightarrow> real list \<Rightarrow> nat \<Rightarrow>
   real \<Rightarrow> vec3" where
  "lms_N_at l_spline m_spline s_spline ls_spline ms_spline ss_spline lambdas lm_dp w =
     (if lm_dp > 5
      then (l_spline w / spline_sum l_spline lambdas,
            m_spline w / spline_sum m_spline lambdas,
            s_spline w / spline_sum s_spline lambdas)
      else (ls_spline w / spline_sum ls_spline lambdas,
            ms_spline w / spline_sum ms_spline lambdas,
            ss_spline w / spline_sum ss_spline lambdas))"

definition lm_table ::
  "spline \<Rightarrow> spline \<Rightarrow> spline \<Rightarrow> spline \<Rightarrow> spline \<Rightarrow> spline \<Rightarrow> real list \<Rightarrow> nat \<Rightarrow>
   row4 list" where
  "lm_table l_spline m_spline s_spline ls_spline ms_spline ss_spline lambdas lm_dp =
     map (\<lambda>w. (w, my_round3
                   (chromaticity
                      (lms_N_at l_spline m_spline s_spline ls_spline ms_spline ss_spline
                         lambdas lm_dp w))
                   lm_dp))
       lambdas"

text \<open>The sum of the three coordinates of a row.\<close>

definition coordinate_sum :: "row4 \<Rightarrow> real" where
  "coordinate_sum r = (case r of (w, a, b, c) \<Rightarrow> a + b + c)"

subsection \<open>The purple line\<close>

text \<open>
  \<open>Delaunay(points).convex_hull\<close> is scipy's: for points in the plane it lists the
  edges of the convex hull, each as a pair of indices into \<open>points\<close>. The routine is
  a parameter. \<open>hull_edges\<close> is one such routine, by exhaustive search: the pair
  \<open>(i, j)\<close> with \<open>i < j\<close> is an edge if no point lies strictly on both sides of the
  line through the two points (for points in general position these are the edges of the
  hull). It lists the pairs in lexicographic order; scipy promises no order.
\<close>

type_synonym point = "real \<times> real"
type_synonym hull_routine = "point list \<Rightarrow> (nat \<times> nat) list"
type_synonym purple_line = "vec3 \<times> vec3"

definition side_of_line :: "point \<Rightarrow> point \<Rightarrow> point \<Rightarrow> real" where
  "side_of_line p q r =
     (case p of (px, py) \<Rightarrow> case q of (qx, qy) \<Rightarrow> case r of (rx, ry) \<Rightarrow>
        (qx - px) * (ry - py) - (rx - px) * (qy - py))"

definition is_hull_edge :: "point list \<Rightarrow> nat \<Rightarrow> nat \<Rightarrow> bool" where
  "is_hull_edge pts i j =
     (list_all (\<lambda>r. 0 \<le> side_of_line (pts ! i) (pts ! j) r) pts \<or>
      list_all (\<lambda>r. side_of_line (pts ! i) (pts ! j) r \<le> 0) pts)"

definition hull_edges :: hull_routine where
  "hull_edges pts =
     concat (map (\<lambda>i. map (\<lambda>j. (i, j)) (filter (is_hull_edge pts i) [Suc i..<length pts]))
               [0..<length pts])"

text \<open>
  The selection, written four times in \<open>compute_tabulated\<close> with different columns:
  \<^verbatim>\<open>
    ind = np.argmax(np.abs(delaunay.convex_hull[:,0] - delaunay.convex_hull[:,1]))
    purple_line_cc[0,0] = plots['cc'][delaunay.convex_hull[ind,0], 0]   # and so on
  \<close>
  \<open>pick\<close> takes the three columns that are copied out of a row. \<open>np.argmax\<close> raises
  \<open>ValueError\<close> on an empty array, and a row index beyond the table \<open>IndexError\<close>.
\<close>

definition index_distance :: "nat \<times> nat \<Rightarrow> int" where
  "index_distance e = \<bar>int (fst e) - int (snd e)\<bar>"

definition select_purple_line ::
  "(nat \<times> nat) list \<Rightarrow> row4 list \<Rightarrow> (row4 \<Rightarrow> vec3) \<Rightarrow> error + purple_line" where
  "select_purple_line convex_hull table pick =
     (if convex_hull = [] then Inl ValueError
      else
        let ind = argmax (map index_distance convex_hull);
            e = convex_hull ! ind
        in if length table \<le> fst e \<or> length table \<le> snd e then Inl IndexError
           else Inr (pick (table ! fst e), pick (table ! snd e)))"

text \<open>\<^verbatim>\<open>purple_line_cc[:,1:] = my_round(purple_line_cc[:,1:], cc_dp)\<close>\<close>

definition round_purple_line :: "purple_line \<Rightarrow> nat \<Rightarrow> purple_line" where
  "round_purple_line pl dp =
     (case pl of ((w0, a0, b0), (w1, a1, b1)) \<Rightarrow>
        ((w0, my_round a0 dp, my_round b0 dp), (w1, my_round a1 dp, my_round b1 dp)))"

text \<open>The columns of the three diagrams: points for the hull, and what is copied out.\<close>

definition cols_12 :: "row4 \<Rightarrow> point" where
  "cols_12 r = (case r of (w, a, b, c) \<Rightarrow> (a, b))"

definition cols_13 :: "row4 \<Rightarrow> point" where
  "cols_13 r = (case r of (w, a, b, c) \<Rightarrow> (a, c))"

definition cols_012 :: "row4 \<Rightarrow> vec3" where
  "cols_012 r = (case r of (w, a, b, c) \<Rightarrow> (w, a, b))"

definition cols_013 :: "row4 \<Rightarrow> vec3" where
  "cols_013 r = (case r of (w, a, b, c) \<Rightarrow> (w, a, c))"

definition purple_line_of ::
  "hull_routine \<Rightarrow> row4 list \<Rightarrow> error + purple_line" where
  "purple_line_of delaunay table =
     select_purple_line (delaunay (map cols_12 table)) table cols_012"

definition purple_line_bm_of ::
  "hull_routine \<Rightarrow> row4 list \<Rightarrow> error + purple_line" where
  "purple_line_bm_of delaunay table =
     select_purple_line (delaunay (map cols_13 table)) table cols_013"

text \<open>
  \<^verbatim>\<open>
    if ( purple_line_cc[1,0] != purple_line_bm[1,0] ):
        print "Wavelengths differ!"
        purple_line_cc[1,0] = purple_line_bm[1,0]
  \<close>
\<close>

definition report_bm_wavelength :: "purple_line \<Rightarrow> purple_line \<Rightarrow> purple_line" where
  "report_bm_wavelength purple_line_cc purple_line_bm =
     (case purple_line_cc of (p0, (w1, a1, b1)) \<Rightarrow>
        if w1 \<noteq> fst (snd purple_line_bm) then (p0, (fst (snd purple_line_bm), a1, b1))
        else purple_line_cc)"

text \<open>
  The purple lines of \<open>compute_tabulated\<close>, in the order of the source: the line of
  \<open>plots['cc']\<close>, the line of \<open>plots['bm']\<close>, the overwriting of the wavelength, the
  line of \<open>plots['lm']\<close>. The result is the triple \<open>purple_line_cc\<close>,
  \<open>purple_line_bm\<close>, \<open>purple_line_lm\<close> of the values returned.
\<close>

definition purple_lines ::
  "hull_routine \<Rightarrow> row4 list \<Rightarrow> row4 list \<Rightarrow> row4 list \<Rightarrow> nat \<Rightarrow> nat \<Rightarrow> nat \<Rightarrow>
   error + purple_line \<times> purple_line \<times> purple_line" where
  "purple_lines delaunay plots_cc plots_bm plots_lm cc_dp bm_dp lm_dp =
     (case purple_line_of delaunay plots_cc of
        Inl e \<Rightarrow> Inl e
      | Inr cc0 \<Rightarrow>
     (case purple_line_bm_of delaunay plots_bm of
        Inl e \<Rightarrow> Inl e
      | Inr bm0 \<Rightarrow>
     (let purple_line_bm = round_purple_line bm0 bm_dp;
          purple_line_cc = report_bm_wavelength (round_purple_line cc0 cc_dp) purple_line_bm
      in case purple_line_of delaunay plots_lm of
           Inl e \<Rightarrow> Inl e
         | Inr lm0 \<Rightarrow> Inr (purple_line_cc, purple_line_bm, round_purple_line lm0 lm_dp))))"

subsection \<open>The course of the loop\<close>

text \<open>
  What one pass of the loop decides: whether the loop is left after it (the body raised,
  or \<open>ok\<close> is true), the landmark wavelength it hands to the next pass, and the
  value the loop returns if it is left. \<open>landmark step lam n\<close> is the landmark
  after \<open>n\<close> passes that started from \<open>lam\<close>.
\<close>

definition loop_stops :: "(real \<Rightarrow> error + square_sum_result) \<Rightarrow> real \<Rightarrow> bool" where
  "loop_stops step lam =
     (case step lam of Inl e \<Rightarrow> True | Inr (err, trans_mat, lam', ok) \<Rightarrow> ok)"

definition loop_next :: "(real \<Rightarrow> error + square_sum_result) \<Rightarrow> real \<Rightarrow> real" where
  "loop_next step lam =
     (case step lam of Inl e \<Rightarrow> lam | Inr (err, trans_mat, lam', ok) \<Rightarrow> lam')"

definition loop_exit ::
  "(real \<Rightarrow> error + square_sum_result) \<Rightarrow> real \<Rightarrow> error + real \<times> mat3 \<times> real" where
  "loop_exit step lam =
     (case step lam of
        Inl e \<Rightarrow> Inl e
      | Inr (err, trans_mat, lam', ok) \<Rightarrow> Inr (err, trans_mat, lam'))"

fun landmark :: "(real \<Rightarrow> error + square_sum_result) \<Rightarrow> real \<Rightarrow> nat \<Rightarrow> real" where
  "landmark step lam 0 = lam"
| "landmark step lam (Suc n) = landmark step (loop_next step lam) n"

subsection \<open>An example input\<close>

text \<open>
  Cone fundamentals that single out 500 nm, a reference locus with \<open>x = 0\<close>
  throughout, a grid of two wavelengths (resolution 440) and a minimiser that answers 0.
  On this input the first pass of the loop already finds the least \<open>x\<close> at 500 nm.
  \<open>example_data\<close> is a data set of one wavelength.
\<close>

definition example_data :: VisualData where
  "example_data =
     \<lparr>absorbance = [(390, 0, 0, 0)], macula = [(390, 0)],
      docul1_fine = [(390, 1)], docul2_fine = [(390, 0.5)],
      lms2_lin_energ = [(390, 1, 1, 1)], lms10_lin_energ = [(390, 1, 1, 1)],
      xyz31 = [(360, 1, 1, 1)], xyz64 = [(360, 1, 1, 1)]\<rparr>"

definition example_l_spline :: spline where
  "example_l_spline w = (if w = 500 then 1 else 2)"

definition example_unit_spline :: spline where
  "example_unit_spline w = 1"

definition example_fmin :: minimiser where
  "example_fmin f x0 xtol = 0"

definition example_cc_ref :: "row4 list" where
  "example_cc_ref = map (\<lambda>i. (360 + real i, 0, 0, 1)) [0..<471]"

definition example_trans_mat :: mat3 where
  "example_trans_mat = ((1, - 1, 0), (1, 1, 0), (0, 0, 1))"

text \<open>
  Two more inputs, with cone fundamentals that single out 500 nm and 600 nm. On the first
  the loop makes two passes: the pass for 500 nm finds the least \<open>x\<close> at 600 nm, and
  the pass for 600 nm finds it there again. \<open>settling_mat_500\<close> is the matrix of its
  first pass; the matrix of its second pass is \<open>example_trans_mat\<close>.
\<close>

definition settling_l_spline :: spline where
  "settling_l_spline w = (if w = 500 then 3 / 2 else if w = 600 then 1 else 2)"

definition settling_mat_500 :: mat3 where
  "settling_mat_500 = ((2, - 3, 0), (1, 1, 0), (0, 0, 1))"

definition settling_step :: "real \<Rightarrow> error + square_sum_result" where
  "settling_step =
     solver_step example_fmin 1 1 1 settling_l_spline example_unit_spline
       example_unit_spline example_unit_spline [390, 830] example_cc_ref 7 8"

text \<open>
  On the second input all values are positive, \<open>V\<close> is \<open>M\<close> (\<open>a21 = 0\<close>,
  \<open>a22 = 1\<close>), the reference locus has \<open>x = 1/2\<close> throughout, and the minimiser
  answers its start value 0.39. As \<open>M\<close> and \<open>S\<close> are equal, the modelled \<open>X\<close>
  depends on \<open>a13\<close> only through the rounding of the matrix. The pass for 500 nm gives
  the matrix
  \<open>wandering_mat_500\<close> and finds the least \<open>x\<close> at 600 nm; the pass for 600 nm
  gives \<open>wandering_mat_600\<close> and finds it at 500 nm.
\<close>

definition wandering_l_spline :: spline where
  "wandering_l_spline w = (if w = 500 then 1 else if w = 600 then 3 else 2)"

definition start_value_fmin :: minimiser where
  "start_value_fmin f x0 xtol = x0"

definition half_cc_ref :: "row4 list" where
  "half_cc_ref = map (\<lambda>i. (360 + real i, 1 / 2, 1 / 4, 1 / 4)) [0..<471]"

definition wandering_mat_500 :: mat3 where
  "wandering_mat_500 = ((- 1, 261 / 100, 39 / 100), (0, 1, 0), (0, 0, 1))"

definition wandering_mat_600 :: mat3 where
  "wandering_mat_600 = ((1, - (139 / 100), 39 / 100), (0, 1, 0), (0, 0, 1))"

definition wandering_step :: "real \<Rightarrow> error + square_sum_result" where
  "wandering_step =
     solver_step start_value_fmin 0 1 1 wandering_l_spline example_unit_spline
       example_unit_spline example_unit_spline [390, 830] half_cc_ref 7 8"

text \<open>
  Two colour matching functions on the grid of 360 to 830 nm, with the least \<open>x\<close> in
  row \<open>p\<close> and the greatest \<open>y\<close> in row \<open>q\<close>, and an interpolant that goes
  through the nodes of that grid (constant from one node to the next).
\<close>

definition example_cubic :: interpolator where
  "example_cubic xs ys v =
     (if v < 360 \<or> 830 < v then Inl ValueError else Inr (ys ! nat \<lfloor>v - 360\<rfloor>))"

definition example_xyz :: "nat \<Rightarrow> nat \<Rightarrow> row4 list" where
  "example_xyz p q =
     map (\<lambda>i. (360 + real i,
               if i = p then (1, 2, 3) else if i = q then (2, 3, 1) else (2, 2, 2)))
       [0..<471]"

definition example_cie :: VisualData where
  "example_cie = example_data\<lparr>xyz31 := example_xyz 144 160, xyz64 := example_xyz 140 170\<rparr>"

text \<open>The same, with the first of the two tables for both observers.\<close>

definition example_cie_alike :: VisualData where
  "example_cie_alike =
     example_data\<lparr>xyz31 := example_xyz 144 160, xyz64 := example_xyz 144 160\<rparr>"

section \<open>Properties\<close>

subsection \<open>Rounding to significant figures\<close>

text \<open>
  On the array path the sign survives as soon as one digit is asked for, and zero stays
  zero. On the scalar path the same holds for positive numbers.
\<close>

lemma my_round_sgn:
  assumes "1 \<le> \<bar>y\<bar> * 10 ^ n"
  shows "sgn (my_round y n) = sgn y"
proof -
  have "(1::real) \<le> \<bar>y\<bar> * 10 ^ n + 0.5" using assms by simp
  then have "1 \<le> \<lfloor>\<bar>y\<bar> * 10 ^ n + 0.5\<rfloor>" by (simp add: le_floor_iff)
  then have pos: "0 < (of_int \<lfloor>\<bar>y\<bar> * 10 ^ n + 0.5\<rfloor> :: real) / 10 ^ n" by simp
  have "my_round y n = sgn y * (of_int \<lfloor>\<bar>y\<bar> * 10 ^ n + 0.5\<rfloor> / 10 ^ n)"
    by (simp add: my_round_def)
  then have "sgn (my_round y n) = sgn (sgn y) * sgn (of_int \<lfloor>\<bar>y\<bar> * 10 ^ n + 0.5\<rfloor> / 10 ^ n :: real)"
    by (simp only: sgn_mult)
  also have "\<dots> = sgn y" using pos by (simp only: sgn_pos sgn_sgn mult_1_right)
  finally show ?thesis .
qed

lemma ten_powr: "(10::real) powr of_int k = 10 powi k"
  by (rule powr_real_of_int') simp_all

lemma decimal_exponent_bounds:
  fixes x :: real
  assumes "x \<noteq> 0"
  shows "10 powi (\<lceil>log 10 \<bar>x\<bar>\<rceil> - 1) < \<bar>x\<bar>" and "\<bar>x\<bar> \<le> 10 powi \<lceil>log 10 \<bar>x\<bar>\<rceil>"
proof -
  let ?b = "\<lceil>log 10 \<bar>x\<bar>\<rceil>"
  have pos: "0 < \<bar>x\<bar>" using assms by simp
  have ten: "(1::real) < 10" by simp
  have "of_int ?b - 1 < log 10 \<bar>x\<bar>" by linarith
  then have "of_int (?b - 1) < log 10 \<bar>x\<bar>" by simp
  then have "10 powr of_int (?b - 1) < \<bar>x\<bar>"
    by (rule less_log_iff [OF ten pos, THEN iffD1])
  then show "10 powi (?b - 1) < \<bar>x\<bar>" by (simp only: ten_powr)
  have "log 10 \<bar>x\<bar> \<le> of_int ?b" by linarith
  then have "\<bar>x\<bar> \<le> 10 powr of_int ?b"
    by (rule log_le_iff [OF ten pos, THEN iffD1])
  then show "\<bar>x\<bar> \<le> 10 powi ?b" by (simp only: ten_powr)
qed

lemma significant_figures_sgn:
  assumes "0 < n"
  shows "sgn (significant_figures x n) = sgn x"
proof (cases "x = 0")
  case True
  then show ?thesis by (simp add: significant_figures_def my_round_def)
next
  case False
  let ?b = "\<lceil>log 10 \<bar>x\<bar>\<rceil>"
  let ?y = "x / 10 powi ?b"
  have p: "(0::real) < 10 powi ?b" by simp
  from decimal_exponent_bounds(1) [OF False]
  have "10 powi (?b - 1) / 10 powi ?b < \<bar>x\<bar> / 10 powi ?b"
    using p by (simp add: divide_strict_right_mono)
  moreover have "(10::real) powi (?b - 1) / 10 powi ?b = 1 / 10"
    by (simp add: power_int_diff)
  ultimately have "1 / 10 < \<bar>?y\<bar>" by simp
  then have "1 / 10 * 10 ^ n < \<bar>?y\<bar> * 10 ^ n"
    by (rule mult_strict_right_mono) simp
  moreover from assms obtain k where "n = Suc k" by (cases n) auto
  then have "(1::real) \<le> 1 / 10 * 10 ^ n" by simp
  ultimately have "1 \<le> \<bar>?y\<bar> * 10 ^ n" by linarith
  then have "sgn (my_round ?y n) = sgn ?y" by (rule my_round_sgn)
  moreover have "sgn ?y = sgn x" using p by simp
  moreover have "significant_figures x n = 10 powi ?b * my_round ?y n"
    using False by (simp add: significant_figures_def Let_def)
  ultimately show ?thesis using p by (simp add: sgn_mult)
qed

lemma significant_figures_zero: "significant_figures 0 n = 0"
  by (simp add: significant_figures_def my_round_def)

lemma significant_figures_scalar_positive:
  assumes "0 < x"
  shows "significant_figures_scalar x n = Some (significant_figures x n)"
  using assms
  by (simp add: significant_figures_scalar_def significant_figures_def np_log10_def Let_def)

text \<open>
  C4. The scalar path takes the logarithm of \<open>x\<close> itself, not of its absolute value as
  the array path does, so for a negative Python float the result is \<open>nan\<close>, with no
  sign: \<open>significant_figures(-2.5, 3)\<close>.
\<close>

theorem significant_figures_scalar_negative_nan:
  "significant_figures_scalar (- 2.5) 3 = None"
  by (simp add: significant_figures_scalar_def np_log10_def)

subsection \<open>Rounding to decimal places\<close>

text \<open>
  \<open>my_round\<close> moves a number by at most half a unit of the last place kept, onto a
  multiple of that unit.
\<close>

lemma my_round_error: "\<bar>my_round x n - x\<bar> \<le> 1 / (2 * 10 ^ n)"
proof -
  let ?k = "\<lfloor>\<bar>x\<bar> * 10 ^ n + 0.5\<rfloor>"
  have p: "(0::real) < 10 ^ n" by simp
  have "of_int ?k \<le> \<bar>x\<bar> * 10 ^ n + 0.5" by (rule of_int_floor_le)
  moreover have "\<bar>x\<bar> * 10 ^ n + 0.5 < of_int ?k + 1" by linarith
  ultimately have "\<bar>of_int ?k - \<bar>x\<bar> * 10 ^ n\<bar> \<le> 1 / 2" by linarith
  then have "\<bar>of_int ?k - \<bar>x\<bar> * 10 ^ n\<bar> / 10 ^ n \<le> (1 / 2) / 10 ^ n"
    using p by (simp only: divide_right_mono less_imp_le)
  moreover have "of_int ?k / 10 ^ n - \<bar>x\<bar> = (of_int ?k - \<bar>x\<bar> * 10 ^ n) / 10 ^ n"
    by (simp add: diff_divide_distrib)
  then have "\<bar>of_int ?k / 10 ^ n - \<bar>x\<bar>\<bar> = \<bar>of_int ?k - \<bar>x\<bar> * 10 ^ n\<bar> / 10 ^ n"
    by (simp only: abs_divide) simp
  ultimately have d: "\<bar>of_int ?k / 10 ^ n - \<bar>x\<bar>\<bar> \<le> 1 / (2 * 10 ^ n)" by simp
  have "my_round x n - x = sgn x * (of_int ?k / 10 ^ n - \<bar>x\<bar>)"
    by (simp add: my_round_def algebra_simps sgn_if)
  then have "\<bar>my_round x n - x\<bar> = \<bar>sgn x\<bar> * \<bar>of_int ?k / 10 ^ n - \<bar>x\<bar>\<bar>"
    by (simp only: abs_mult)
  also have "\<dots> \<le> \<bar>of_int ?k / 10 ^ n - \<bar>x\<bar>\<bar>"
    by (simp add: sgn_if)
  finally show ?thesis using d by linarith
qed

lemma my_round_on_grid: "\<exists>z::int. my_round x n = of_int z / 10 ^ n"
proof (cases "x < 0")
  case True
  then have "my_round x n = of_int (- \<lfloor>\<bar>x\<bar> * 10 ^ n + 0.5\<rfloor>) / 10 ^ n"
    by (simp add: my_round_def)
  then show ?thesis by blast
next
  case False
  show ?thesis
  proof (cases "x = 0")
    case True
    then have "my_round x n = of_int 0 / 10 ^ n" by (simp add: my_round_def)
    then show ?thesis by blast
  next
    case nz: False
    with False have "my_round x n = of_int \<lfloor>\<bar>x\<bar> * 10 ^ n + 0.5\<rfloor> / 10 ^ n"
      by (simp add: my_round_def)
    then show ?thesis by blast
  qed
qed

subsection \<open>The loop of the solver\<close>

lemma solver_loop_unfold:
  "solver_loop step lam =
     (if loop_stops step lam then Some (loop_exit step lam)
      else solver_loop step (loop_next step lam))"
  by (subst solver_loop.simps)
     (simp add: loop_stops_def loop_exit_def loop_next_def split: sum.split prod.split)

lemma solver_loop_returns_at:
  "loop_stops step (landmark step lam n) \<Longrightarrow> \<forall>k<n. \<not> loop_stops step (landmark step lam k) \<Longrightarrow>
   solver_loop step lam = Some (loop_exit step (landmark step lam n))"
proof (induction n arbitrary: lam)
  case 0
  then show ?case by (subst solver_loop_unfold) simp
next
  case (Suc n)
  from Suc.prems(2) have ns: "\<not> loop_stops step lam" by force
  from Suc.prems(2) have "\<forall>k<n. \<not> loop_stops step (landmark step (loop_next step lam) k)"
    by force
  with Suc.IH [of "loop_next step lam"] Suc.prems(1)
  have "solver_loop step (loop_next step lam) =
          Some (loop_exit step (landmark step (loop_next step lam) n))"
    by simp
  with ns show ?case by (subst solver_loop_unfold) simp
qed

lemma solver_loop_Some_stops:
  assumes ret: "solver_loop step lam = Some r"
  shows "\<exists>n. loop_stops step (landmark step lam n) \<and> r = loop_exit step (landmark step lam n)"
proof (rule solver_loop.raw_induct [where P = "\<lambda>st lam r. st = step \<longrightarrow> (\<exists>n. loop_stops step (landmark step lam n) \<and> r = loop_exit step (landmark step lam n))", OF _ ret, THEN mp])
  show "step = step" by simp
next
  fix f st lam r
  assume IH: "\<And>st lam r. f st lam = Some r \<Longrightarrow>
      st = step \<longrightarrow> (\<exists>n. loop_stops step (landmark step lam n) \<and> r = loop_exit step (landmark step lam n))"
    and eq: "(case st lam of Inl e \<Rightarrow> Some (Inl e)
        | Inr (err, trans_mat, lambda_test_min, ok) \<Rightarrow>
            if ok then Some (Inr (err, trans_mat, lambda_test_min)) else f st lambda_test_min) = Some r"
  show "st = step \<longrightarrow> (\<exists>n. loop_stops step (landmark step lam n) \<and> r = loop_exit step (landmark step lam n))"
  proof
    assume st: "st = step"
    show "\<exists>n. loop_stops step (landmark step lam n) \<and> r = loop_exit step (landmark step lam n)"
    proof (cases "loop_stops step lam")
      case True
      with eq st have "r = loop_exit step lam"
        by (auto simp: loop_stops_def loop_exit_def split: sum.splits prod.splits if_splits)
      with True have "loop_stops step (landmark step lam 0) \<and> r = loop_exit step (landmark step lam 0)"
        by simp
      then show ?thesis by blast
    next
      case False
      with eq st have "f step (loop_next step lam) = Some r"
        by (auto simp: loop_stops_def loop_next_def split: sum.splits prod.splits if_splits)
      from IH [OF this] obtain n where
        "loop_stops step (landmark step (loop_next step lam) n) \<and>
         r = loop_exit step (landmark step (loop_next step lam) n)"
        by blast
      then have "loop_stops step (landmark step lam (Suc n)) \<and>
         r = loop_exit step (landmark step lam (Suc n))"
        by simp
      then show ?thesis by blast
    qed
  qed
qed

lemma solver_loop_None_iff:
  "solver_loop step lam = None \<longleftrightarrow> (\<forall>n. \<not> loop_stops step (landmark step lam n))"
proof
  assume none: "solver_loop step lam = None"
  show "\<forall>n. \<not> loop_stops step (landmark step lam n)"
  proof (rule ccontr)
    assume "\<not> (\<forall>n. \<not> loop_stops step (landmark step lam n))"
    then have ex: "\<exists>n. loop_stops step (landmark step lam n)" by simp
    define n where "n = (LEAST n. loop_stops step (landmark step lam n))"
    have "loop_stops step (landmark step lam n)"
      unfolding n_def using ex by (rule LeastI_ex)
    moreover have "\<forall>k<n. \<not> loop_stops step (landmark step lam k)"
      unfolding n_def using not_less_Least by blast
    ultimately have "solver_loop step lam = Some (loop_exit step (landmark step lam n))"
      by (rule solver_loop_returns_at)
    with none show False by simp
  qed
next
  assume never: "\<forall>n. \<not> loop_stops step (landmark step lam n)"
  show "solver_loop step lam = None"
  proof (cases "solver_loop step lam")
    case None
    then show ?thesis .
  next
    case (Some r)
    from solver_loop_Some_stops [OF this] never show ?thesis by blast
  qed
qed

subsection \<open>The matrix and the landmark that the solver returns\<close>

lemma argmin_less_length: "xs \<noteq> [] \<Longrightarrow> argmin xs < length xs"
  by (induction xs) auto

lemma argmin_le: "i < length xs \<Longrightarrow> xs ! argmin xs \<le> xs ! i"
proof (induction xs arbitrary: i)
  case Nil
  then show ?case by simp
next
  case (Cons x xs)
  show ?case
  proof (cases "xs = []")
    case True
    with Cons.prems show ?thesis by simp
  next
    case False
    show ?thesis
    proof (cases i)
      case 0
      then show ?thesis by auto
    next
      case (Suc j)
      with Cons.prems have "j < length xs" by simp
      then have "xs ! argmin xs \<le> xs ! j" by (rule Cons.IH)
      with Suc False show ?thesis by auto
    qed
  qed
qed

lemma argmin_first: "i < argmin xs \<Longrightarrow> xs ! argmin xs < xs ! i"
proof (induction xs arbitrary: i)
  case Nil
  then show ?case by simp
next
  case (Cons x xs)
  from Cons.prems have ne: "xs \<noteq> []" and gt: "\<not> x \<le> xs ! argmin xs"
    and am: "argmin (x # xs) = Suc (argmin xs)"
    by (auto split: if_splits)
  show ?case
  proof (cases i)
    case 0
    with gt am show ?thesis by simp
  next
    case (Suc j)
    with Cons.prems am have "j < argmin xs" by simp
    then have "xs ! argmin xs < xs ! j" by (rule Cons.IH)
    with Suc am show ?thesis by simp
  qed
qed

lemma argmin_unique:
  assumes "k < length xs" and "\<forall>i<length xs. i \<noteq> k \<longrightarrow> xs ! k < xs ! i"
  shows "argmin xs = k"
proof (rule ccontr)
  assume ne: "argmin xs \<noteq> k"
  from assms(1) have "xs \<noteq> []" by auto
  then have "argmin xs < length xs" by (rule argmin_less_length)
  with assms(2) ne have "xs ! k < xs ! argmin xs" by simp
  moreover from assms(1) have "xs ! argmin xs \<le> xs ! k" by (rule argmin_le)
  ultimately show False by simp
qed

lemma transform_solver_last_step:
  assumes "transform_solver fmin a21 a22 l_spline m_spline s_spline v_spline
             resolution cc_ref xyz_signfig mat_dp = Some (Inr (err, trans_mat, lam))"
  shows "\<exists>lambdas a13.
           lambdas_of resolution = Inr lambdas \<and>
           square_sum a13 a21 a22 (a33_of s_spline v_spline lambdas mat_dp)
             l_spline m_spline s_spline v_spline lambdas lam cc_ref xyz_signfig mat_dp
           = Inr (err, trans_mat, lam, True)"
proof -
  from assms obtain lambdas where
    grid: "lambdas_of resolution = Inr lambdas"
    and loop: "solver_loop
            (solver_step fmin a21 a22 (a33_of s_spline v_spline lambdas mat_dp)
               l_spline m_spline s_spline v_spline lambdas cc_ref xyz_signfig mat_dp)
            500 = Some (Inr (err, trans_mat, lam))"
    by (auto simp: transform_solver_def split: sum.splits)
  define step where "step = solver_step fmin a21 a22 (a33_of s_spline v_spline lambdas mat_dp)
               l_spline m_spline s_spline v_spline lambdas cc_ref xyz_signfig mat_dp"
  from loop obtain n where
    st: "loop_stops step (landmark step 500 n)"
    and ex: "Inr (err, trans_mat, lam) = loop_exit step (landmark step 500 n)"
    unfolding step_def [symmetric] using solver_loop_Some_stops by blast
  define r where "r = landmark step 500 n"
  from st ex have full: "step r = Inr (err, trans_mat, lam, True)"
    unfolding r_def [symmetric]
    by (auto simp: loop_stops_def loop_exit_def split: sum.splits prod.splits)
  then obtain a13 where
    sq: "square_sum a13 a21 a22 (a33_of s_spline v_spline lambdas mat_dp)
             l_spline m_spline s_spline v_spline lambdas r cc_ref xyz_signfig mat_dp
           = Inr (err, trans_mat, lam, True)"
    unfolding step_def solver_step_def by (auto simp: Let_def split: if_splits)
  then have "lam = r"
    by (auto simp: square_sum_def Let_def split: if_splits)
  with grid sq show ?thesis by blast
qed


lemma arange_390_831_nth: "i < 441 \<Longrightarrow> arange_390_831 ! i = 390 + real i"
  by (simp add: arange_390_831_def)

lemma length_arange_390_831: "length arange_390_831 = 441"
  by (simp add: arange_390_831_def)

lemma x_list_eq:
  "map fst (cc_sampled trans_mat l_spline m_spline s_spline xyz_signfig) =
   map (modelled_x trans_mat l_spline m_spline s_spline xyz_signfig) arange_390_831"
  by (simp add: cc_sampled_def xyz_sampled_def modelled_x_def)

lemma square_sum_landmark:
  assumes "square_sum a13 a21 a22 a33 l_spline m_spline s_spline v_spline
             lambdas lambda_ref_min cc_ref xyz_signfig mat_dp = Inr (err, trans_mat, lam, ok)"
  shows "lam = arange_390_831 !
           argmin (map (modelled_x trans_mat l_spline m_spline s_spline xyz_signfig)
                     arange_390_831)"
  using assms by (auto simp: square_sum_def Let_def x_list_eq split: if_splits)

lemma square_sum_matrix:
  assumes "square_sum a13 a21 a22 a33 l_spline m_spline s_spline v_spline
             lambdas lambda_ref_min cc_ref xyz_signfig mat_dp = Inr (err, trans_mat, lam, ok)"
  shows "\<exists>a11 a12 a13'. trans_mat = ((a11, a12, a13'), (a21, a22, 0), (0, 0, a33))"
  using assms by (auto simp: square_sum_def trans_mat_of_def Let_def split: if_splits)

lemma landmark_minimises:
  fixes f :: "real \<Rightarrow> real"
  assumes lam: "lam = arange_390_831 ! argmin (map f arange_390_831)"
  shows "lam \<in> set arange_390_831 \<and>
         (\<forall>w \<in> set arange_390_831. f lam \<le> f w) \<and>
         (\<forall>w \<in> set arange_390_831. w < lam \<longrightarrow> f lam < f w)"
proof -
  let ?xs = "map f arange_390_831"
  let ?j = "argmin ?xs"
  have len: "length ?xs = 441" by (simp add: length_arange_390_831)
  then have "?xs \<noteq> []" by auto
  then have j: "?j < 441" using argmin_less_length [of ?xs] len by simp
  then have lamj: "lam = 390 + real ?j" using lam by (simp add: arange_390_831_nth)
  have xj: "?xs ! ?j = f lam" using j lam by (simp add: length_arange_390_831)
  have mem: "lam \<in> set arange_390_831"
    using j lam by (simp add: length_arange_390_831)
  have le: "f lam \<le> f w" if "w \<in> set arange_390_831" for w
  proof -
    from that obtain i where i: "i < 441" and w: "w = arange_390_831 ! i"
      by (auto simp: in_set_conv_nth length_arange_390_831)
    then have "?xs ! ?j \<le> ?xs ! i" using argmin_le [of i ?xs] len by simp
    with i w xj show ?thesis by (simp add: length_arange_390_831)
  qed
  have less: "f lam < f w" if "w \<in> set arange_390_831" and "w < lam" for w
  proof -
    from that(1) obtain i where i: "i < 441" and w: "w = arange_390_831 ! i"
      by (auto simp: in_set_conv_nth length_arange_390_831)
    with that(2) lamj have "i < ?j" by (simp add: arange_390_831_nth)
    then have "?xs ! ?j < ?xs ! i" by (rule argmin_first)
    with i w xj show ?thesis by (simp add: length_arange_390_831)
  qed
  from mem le less show ?thesis by blast
qed

subsection \<open>The example input, evaluated\<close>

lemma example_grid: "lambdas_of 440 = Inr [390, 830]"
  by (simp add: lambdas_of_def arange_def upt_rec)

lemma example_trunk_length: "length (cc_ref_trunk example_cc_ref) = 441"
  by (simp add: cc_ref_trunk_def example_cc_ref_def)

lemma example_x_ref_min: "x_ref_min example_cc_ref = 0"
proof -
  have "map fst (cc_ref_trunk example_cc_ref) = map (\<lambda>i. 0) [30..<471]"
    by (simp add: cc_ref_trunk_def example_cc_ref_def drop_map)
  then have "set (map fst (cc_ref_trunk example_cc_ref)) = {0}"
    by auto
  then show ?thesis by (simp add: x_ref_min_def)
qed

lemma example_sums:
  "spline_sum example_l_spline [390, 830] = 4"
  "spline_sum example_unit_spline [390, 830] = 2"
  by (simp_all add: spline_sum_def example_l_spline_def example_unit_spline_def)

lemma my_round_integer: "my_round (of_int k) n = of_int k"
proof -
  have "\<bar>of_int k :: real\<bar> * 10 ^ n + 0.5 = of_int (\<bar>k\<bar> * 10 ^ n) + 1 / 2"
    by simp
  moreover have "\<lfloor>(of_int (\<bar>k\<bar> * 10 ^ n) :: real) + 1 / 2\<rfloor> = \<bar>k\<bar> * 10 ^ n"
    by (rule floor_unique) simp_all
  ultimately have "\<lfloor>\<bar>of_int k :: real\<bar> * 10 ^ n + 0.5\<rfloor> = \<bar>k\<bar> * 10 ^ n"
    by (simp only:)
  then show ?thesis
    by (simp add: my_round_def sgn_if abs_if)
qed

lemma example_a33: "a33_of example_unit_spline example_unit_spline [390, 830] 8 = 1"
  using my_round_integer [of 1 8] by (simp add: a33_of_def example_sums)

lemma example_trans_mat_of:
  "trans_mat_of 0 1 1 1 example_l_spline example_unit_spline example_unit_spline
     example_unit_spline [390, 830] 500 example_cc_ref 8 = example_trans_mat"
  using my_round_integer [of 1 8] my_round_integer [of "-1" 8] my_round_integer [of 0 8]
  by (simp add: trans_mat_of_def a11_closed_form_def a12_closed_form_def a_denominator_def
      example_x_ref_min example_sums example_l_spline_def example_unit_spline_def
      example_trans_mat_def)


lemma ceiling_log10_2: "\<lceil>log 10 (2::real)\<rceil> = 1"
  by (rule ceiling_unique) simp_all

lemma ceiling_log10_3: "\<lceil>log 10 (3::real)\<rceil> = 1"
  by (rule ceiling_unique) simp_all

lemma example_significant_figures:
  "significant_figures 0 7 = 0"
  "significant_figures 1 7 = 1"
  "significant_figures 2 7 = 2"
  "significant_figures 3 7 = 3"
  by (simp_all add: significant_figures_def my_round_def ceiling_log10_2 ceiling_log10_3)

lemma example_xyz_at:
  "xyz_at example_trans_mat example_l_spline example_unit_spline example_unit_spline 7 w =
     (if w = 500 then (0, 2, 1) else (1, 3, 1))"
  by (simp add: xyz_at_def example_trans_mat_def mat_vec_def significant_figures3_def
      example_l_spline_def example_unit_spline_def example_significant_figures)

lemma example_modelled_x:
  "modelled_x example_trans_mat example_l_spline example_unit_spline example_unit_spline 7 w =
     (if w = 500 then 0 else 1 / 5)"
  by (simp add: modelled_x_def example_xyz_at chromaticity_def)

lemma example_argmin:
  "argmin (map (modelled_x example_trans_mat example_l_spline example_unit_spline
                  example_unit_spline 7) arange_390_831) = 110"
proof (rule argmin_unique)
  show "110 < length (map (modelled_x example_trans_mat example_l_spline example_unit_spline
                  example_unit_spline 7) arange_390_831)"
    by (simp add: length_arange_390_831)
next
  show "\<forall>i<length (map (modelled_x example_trans_mat example_l_spline example_unit_spline
                  example_unit_spline 7) arange_390_831). i \<noteq> 110 \<longrightarrow>
          map (modelled_x example_trans_mat example_l_spline example_unit_spline
                  example_unit_spline 7) arange_390_831 ! 110
          < map (modelled_x example_trans_mat example_l_spline example_unit_spline
                  example_unit_spline 7) arange_390_831 ! i"
    by (simp add: length_arange_390_831 arange_390_831_nth example_modelled_x)
qed

lemma example_square_sum:
  "\<exists>err. square_sum 0 1 1 1 example_l_spline example_unit_spline example_unit_spline
     example_unit_spline [390, 830] 500 example_cc_ref 7 8
   = Inr (err, example_trans_mat, 500, True)"
  by (simp add: square_sum_def example_trunk_length example_trans_mat_of Let_def
      x_list_eq example_argmin arange_390_831_nth)

lemma example_transform_solver:
  "\<exists>err. transform_solver example_fmin 1 1 example_l_spline example_unit_spline
     example_unit_spline example_unit_spline 440 example_cc_ref 7 8
   = Some (Inr (err, example_trans_mat, 500))"
proof -
  from example_square_sum obtain err where
    sq: "square_sum 0 1 1 1 example_l_spline example_unit_spline example_unit_spline
     example_unit_spline [390, 830] 500 example_cc_ref 7 8
     = Inr (err, example_trans_mat, 500, True)"
    by blast
  have "solver_step example_fmin 1 1 1 example_l_spline example_unit_spline
     example_unit_spline example_unit_spline [390, 830] example_cc_ref 7 8 500
     = Inr (err, example_trans_mat, 500, True)"
    using sq by (simp add: solver_step_def example_trunk_length example_fmin_def)
  then have "solver_loop (solver_step example_fmin 1 1 1 example_l_spline example_unit_spline
     example_unit_spline example_unit_spline [390, 830] example_cc_ref 7 8) 500
     = Some (Inr (err, example_trans_mat, 500))"
    by (subst solver_loop.simps) simp
  then have "transform_solver example_fmin 1 1 example_l_spline example_unit_spline
     example_unit_spline example_unit_spline 440 example_cc_ref 7 8
   = Some (Inr (err, example_trans_mat, 500))"
    using example_grid by (simp add: transform_solver_def example_a33)
  then show ?thesis by blast
qed

lemma example_denominator:
  "a_denominator example_l_spline example_unit_spline [390, 830] 500 (x_ref_min example_cc_ref) = - 2"
  by (simp add: a_denominator_def example_x_ref_min example_sums example_l_spline_def
      example_unit_spline_def)

lemma example_tristimulus_sums:
  "\<forall>w \<in> set arange_390_831.
     tristimulus_sum (xyz_at example_trans_mat example_l_spline example_unit_spline
        example_unit_spline 7 w) \<noteq> 0"
  by (simp add: example_xyz_at tristimulus_sum_def)

subsection \<open>When the loop returns\<close>

lemma settling_sum: "spline_sum settling_l_spline [390, 830] = 4"
  by (simp add: spline_sum_def settling_l_spline_def)

lemma settling_trans_mat_500:
  "trans_mat_of 0 1 1 1 settling_l_spline example_unit_spline example_unit_spline
     example_unit_spline [390, 830] 500 example_cc_ref 8 = settling_mat_500"
  using my_round_integer [of 2 8] my_round_integer [of "- 3" 8] my_round_integer [of 0 8]
  by (simp add: trans_mat_of_def a11_closed_form_def a12_closed_form_def a_denominator_def
      example_x_ref_min example_sums settling_sum settling_l_spline_def example_unit_spline_def
      settling_mat_500_def)

lemma settling_trans_mat_600:
  "trans_mat_of 0 1 1 1 settling_l_spline example_unit_spline example_unit_spline
     example_unit_spline [390, 830] 600 example_cc_ref 8 = example_trans_mat"
  using my_round_integer [of 1 8] my_round_integer [of "- 1" 8] my_round_integer [of 0 8]
  by (simp add: trans_mat_of_def a11_closed_form_def a12_closed_form_def a_denominator_def
      example_x_ref_min example_sums settling_sum settling_l_spline_def example_unit_spline_def
      example_trans_mat_def)

lemma ceiling_log10_half: "\<lceil>log 10 (1 / 2 :: real)\<rceil> = 0"
proof (rule ceiling_unique)
  have "10 powr (- 1) < (1 / 2 :: real)" by (simp add: powr_minus)
  then have "- 1 < log 10 (1 / 2 :: real)"
    by (rule less_log_iff [of 10 "1 / 2" "- 1", THEN iffD2, rotated 2]) simp_all
  then show "of_int 0 - 1 < log 10 (1 / 2 :: real)" by simp
  show "log 10 (1 / 2 :: real) \<le> of_int 0" by simp
qed

lemma ceiling_log10_5_2: "\<lceil>log 10 (5 / 2 :: real)\<rceil> = 1"
  by (rule ceiling_unique) simp_all

lemma settling_significant_figures:
  "significant_figures (- 1) 7 = - 1"
  "significant_figures (1 / 2) 7 = 1 / 2"
  "significant_figures (5 / 2) 7 = 5 / 2"
  by (simp_all add: significant_figures_def my_round_def ceiling_log10_half ceiling_log10_5_2)

lemma settling_xyz_at_500:
  "xyz_at settling_mat_500 settling_l_spline example_unit_spline example_unit_spline 7 w =
     (if w = 500 then (0, 5 / 2, 1) else if w = 600 then (- 1, 2, 1) else (1, 3, 1))"
  by (simp add: xyz_at_def settling_mat_500_def mat_vec_def significant_figures3_def
      settling_l_spline_def example_unit_spline_def example_significant_figures
      settling_significant_figures)

lemma settling_xyz_at_600:
  "xyz_at example_trans_mat settling_l_spline example_unit_spline example_unit_spline 7 w =
     (if w = 500 then (1 / 2, 5 / 2, 1) else if w = 600 then (0, 2, 1) else (1, 3, 1))"
  by (simp add: xyz_at_def example_trans_mat_def mat_vec_def significant_figures3_def
      settling_l_spline_def example_unit_spline_def example_significant_figures
      settling_significant_figures)

lemma settling_modelled_x_500:
  "modelled_x settling_mat_500 settling_l_spline example_unit_spline example_unit_spline 7 w =
     (if w = 500 then 0 else if w = 600 then - (1 / 2) else 1 / 5)"
  by (simp add: modelled_x_def settling_xyz_at_500 chromaticity_def)

lemma settling_modelled_x_600:
  "modelled_x example_trans_mat settling_l_spline example_unit_spline example_unit_spline 7 w =
     (if w = 500 then 1 / 8 else if w = 600 then 0 else 1 / 5)"
  by (simp add: modelled_x_def settling_xyz_at_600 chromaticity_def)

lemma settling_argmin_500:
  "argmin (map (modelled_x settling_mat_500 settling_l_spline example_unit_spline
                  example_unit_spline 7) arange_390_831) = 210"
  by (rule argmin_unique)
     (simp_all add: length_arange_390_831 arange_390_831_nth settling_modelled_x_500)

lemma settling_argmin_600:
  "argmin (map (modelled_x example_trans_mat settling_l_spline example_unit_spline
                  example_unit_spline 7) arange_390_831) = 210"
  by (rule argmin_unique)
     (simp_all add: length_arange_390_831 arange_390_831_nth settling_modelled_x_600)

lemma settling_step_500:
  "\<exists>err. settling_step 500 = Inr (err, settling_mat_500, 600, False)"
  by (simp add: settling_step_def solver_step_def example_fmin_def square_sum_def
      example_trunk_length settling_trans_mat_500 Let_def x_list_eq settling_argmin_500
      arange_390_831_nth)

lemma settling_step_600:
  "\<exists>err. settling_step 600 = Inr (err, example_trans_mat, 600, True)"
  by (simp add: settling_step_def solver_step_def example_fmin_def square_sum_def
      example_trunk_length settling_trans_mat_600 Let_def x_list_eq settling_argmin_600
      arange_390_831_nth)

lemma settling_passes:
  "\<not> loop_stops settling_step 500" "loop_next settling_step 500 = 600"
  "loop_stops settling_step 600"
  using settling_step_500 settling_step_600
  by (auto simp: loop_stops_def loop_next_def)

lemma half_trunk_length: "length (cc_ref_trunk half_cc_ref) = 441"
  by (simp add: cc_ref_trunk_def half_cc_ref_def)

lemma half_x_ref_min: "x_ref_min half_cc_ref = 1 / 2"
proof -
  have "map fst (cc_ref_trunk half_cc_ref) = map (\<lambda>i. 1 / 2) [30..<471]"
    by (simp add: cc_ref_trunk_def half_cc_ref_def drop_map)
  then have "set (map fst (cc_ref_trunk half_cc_ref)) = {1 / 2}"
    by auto
  then show ?thesis by (simp add: x_ref_min_def)
qed

lemma wandering_sum: "spline_sum wandering_l_spline [390, 830] = 4"
  by (simp add: spline_sum_def wandering_l_spline_def)

lemma my_round_hundredths:
  "my_round (39 / 100) 8 = 39 / 100"
  "my_round (261 / 100) 8 = 261 / 100"
  "my_round (- (139 / 100)) 8 = - (139 / 100)"
  by (simp_all add: my_round_def)

lemma wandering_trans_mat_500:
  "trans_mat_of (39 / 100) 0 1 1 wandering_l_spline example_unit_spline example_unit_spline
     example_unit_spline [390, 830] 500 half_cc_ref 8 = wandering_mat_500"
  using my_round_integer [of "- 1" 8]
  by (simp add: trans_mat_of_def a11_closed_form_def a12_closed_form_def a_denominator_def
      half_x_ref_min example_sums wandering_sum wandering_l_spline_def example_unit_spline_def
      wandering_mat_500_def my_round_hundredths)

lemma wandering_trans_mat_600:
  "trans_mat_of (39 / 100) 0 1 1 wandering_l_spline example_unit_spline example_unit_spline
     example_unit_spline [390, 830] 600 half_cc_ref 8 = wandering_mat_600"
  using my_round_integer [of 1 8]
  by (simp add: trans_mat_of_def a11_closed_form_def a12_closed_form_def a_denominator_def
      half_x_ref_min example_sums wandering_sum wandering_l_spline_def example_unit_spline_def
      wandering_mat_600_def my_round_hundredths)

lemma wandering_xyz_at_500:
  "xyz_at wandering_mat_500 wandering_l_spline example_unit_spline example_unit_spline 7 w =
     (if w = 500 then (2, 1, 1) else if w = 600 then (0, 1, 1) else (1, 1, 1))"
  by (simp add: xyz_at_def wandering_mat_500_def mat_vec_def significant_figures3_def
      wandering_l_spline_def example_unit_spline_def example_significant_figures)

lemma wandering_xyz_at_600:
  "xyz_at wandering_mat_600 wandering_l_spline example_unit_spline example_unit_spline 7 w =
     (if w = 500 then (0, 1, 1) else if w = 600 then (2, 1, 1) else (1, 1, 1))"
  by (simp add: xyz_at_def wandering_mat_600_def mat_vec_def significant_figures3_def
      wandering_l_spline_def example_unit_spline_def example_significant_figures)

lemma wandering_modelled_x_500:
  "modelled_x wandering_mat_500 wandering_l_spline example_unit_spline example_unit_spline 7 w =
     (if w = 500 then 1 / 2 else if w = 600 then 0 else 1 / 3)"
  by (simp add: modelled_x_def wandering_xyz_at_500 chromaticity_def)

lemma wandering_modelled_x_600:
  "modelled_x wandering_mat_600 wandering_l_spline example_unit_spline example_unit_spline 7 w =
     (if w = 500 then 0 else if w = 600 then 1 / 2 else 1 / 3)"
  by (simp add: modelled_x_def wandering_xyz_at_600 chromaticity_def)

lemma wandering_argmin_500:
  "argmin (map (modelled_x wandering_mat_500 wandering_l_spline example_unit_spline
                  example_unit_spline 7) arange_390_831) = 210"
  by (rule argmin_unique)
     (simp_all add: length_arange_390_831 arange_390_831_nth wandering_modelled_x_500)

lemma wandering_argmin_600:
  "argmin (map (modelled_x wandering_mat_600 wandering_l_spline example_unit_spline
                  example_unit_spline 7) arange_390_831) = 110"
  by (rule argmin_unique)
     (simp_all add: length_arange_390_831 arange_390_831_nth wandering_modelled_x_600)

lemma wandering_step_500:
  "\<exists>err. wandering_step 500 = Inr (err, wandering_mat_500, 600, False)"
  by (simp add: wandering_step_def solver_step_def start_value_fmin_def square_sum_def
      half_trunk_length wandering_trans_mat_500 Let_def x_list_eq wandering_argmin_500
      arange_390_831_nth)

lemma wandering_step_600:
  "\<exists>err. wandering_step 600 = Inr (err, wandering_mat_600, 500, False)"
  by (simp add: wandering_step_def solver_step_def start_value_fmin_def square_sum_def
      half_trunk_length wandering_trans_mat_600 Let_def x_list_eq wandering_argmin_600
      arange_390_831_nth)

lemma wandering_passes:
  "\<not> loop_stops wandering_step 500" "loop_next wandering_step 500 = 600"
  "\<not> loop_stops wandering_step 600" "loop_next wandering_step 600 = 500"
  using wandering_step_500 wandering_step_600
  by (auto simp: loop_stops_def loop_next_def)

lemma wandering_landmark:
  "landmark wandering_step 500 n = 500 \<or> landmark wandering_step 500 n = 600"
  "landmark wandering_step 600 n = 500 \<or> landmark wandering_step 600 n = 600"
proof (induction n)
  case 0
  show "landmark wandering_step 500 0 = 500 \<or> landmark wandering_step 500 0 = 600"
    by simp
  show "landmark wandering_step 600 0 = 500 \<or> landmark wandering_step 600 0 = 600"
    by simp
next
  case (Suc n)
  from Suc.IH(2)
  show "landmark wandering_step 500 (Suc n) = 500 \<or> landmark wandering_step 500 (Suc n) = 600"
    by (simp only: landmark.simps wandering_passes)
  from Suc.IH(1)
  show "landmark wandering_step 600 (Suc n) = 500 \<or> landmark wandering_step 600 (Suc n) = 600"
    by (simp only: landmark.simps wandering_passes)
qed

text \<open>
  C1 (as the code has it). The loop carries no iteration count and raises no convergence
  error. It returns exactly if some pass is left (its body raised, or reported \<open>ok\<close>),
  and then with the result of the first such pass: no earlier pass was left. If no pass
  is left, it runs for ever.
\<close>

theorem solver_loop_returns_first_settled:
  "(solver_loop step lam = None \<longleftrightarrow> (\<forall>n. \<not> loop_stops step (landmark step lam n))) \<and>
   (\<forall>r. solver_loop step lam = Some r \<longleftrightarrow>
      (\<exists>n. loop_stops step (landmark step lam n) \<and>
           (\<forall>k<n. \<not> loop_stops step (landmark step lam k)) \<and>
           r = loop_exit step (landmark step lam n)))"
proof (intro conjI allI)
  show "solver_loop step lam = None \<longleftrightarrow> (\<forall>n. \<not> loop_stops step (landmark step lam n))"
    by (rule solver_loop_None_iff)
next
  fix r
  show "solver_loop step lam = Some r \<longleftrightarrow>
      (\<exists>n. loop_stops step (landmark step lam n) \<and>
           (\<forall>k<n. \<not> loop_stops step (landmark step lam k)) \<and>
           r = loop_exit step (landmark step lam n))"
  proof
  assume ret: "solver_loop step lam = Some r"
  then have "\<not> (\<forall>n. \<not> loop_stops step (landmark step lam n))"
    by (simp add: solver_loop_None_iff [symmetric])
  then have ex: "\<exists>n. loop_stops step (landmark step lam n)" by simp
  define n where "n = (LEAST n. loop_stops step (landmark step lam n))"
  have stops: "loop_stops step (landmark step lam n)"
    unfolding n_def using ex by (rule LeastI_ex)
  have first: "\<forall>k<n. \<not> loop_stops step (landmark step lam k)"
    unfolding n_def using not_less_Least by blast
  from stops first have "solver_loop step lam = Some (loop_exit step (landmark step lam n))"
    by (rule solver_loop_returns_at)
  with ret have "r = loop_exit step (landmark step lam n)" by simp
  with stops first
  show "\<exists>n. loop_stops step (landmark step lam n) \<and>
           (\<forall>k<n. \<not> loop_stops step (landmark step lam k)) \<and>
           r = loop_exit step (landmark step lam n)"
    by blast
next
  assume "\<exists>n. loop_stops step (landmark step lam n) \<and>
           (\<forall>k<n. \<not> loop_stops step (landmark step lam k)) \<and>
           r = loop_exit step (landmark step lam n)"
  then obtain n where "loop_stops step (landmark step lam n)"
    and "\<forall>k<n. \<not> loop_stops step (landmark step lam k)"
    and r: "r = loop_exit step (landmark step lam n)"
    by blast
  then have "solver_loop step lam = Some (loop_exit step (landmark step lam n))"
    by (simp only: solver_loop_returns_at)
  with r show "solver_loop step lam = Some r" by simp
  qed
qed

theorem solver_loop_returns_first_settled_witness:
  "\<exists>err. solver_loop settling_step 500 = Some (Inr (err, example_trans_mat, 600)) \<and>
         \<not> loop_stops settling_step (landmark settling_step 500 0) \<and>
         loop_stops settling_step (landmark settling_step 500 1) \<and>
         Inr (err, example_trans_mat, 600) = loop_exit settling_step (landmark settling_step 500 1)"
proof -
  from settling_step_600 obtain err where
    last: "settling_step 600 = Inr (err, example_trans_mat, 600, True)"
    by blast
  have l0: "landmark settling_step 500 0 = 500" and l1: "landmark settling_step 500 1 = 600"
    by (simp_all add: settling_passes)
  have s0: "\<not> loop_stops settling_step (landmark settling_step 500 0)"
    and s1: "loop_stops settling_step (landmark settling_step 500 1)"
    by (simp_all only: l0 l1 settling_passes not_False_eq_True)
  have ex: "loop_exit settling_step (landmark settling_step 500 1)
              = Inr (err, example_trans_mat, 600)"
    by (simp only: l1 loop_exit_def last sum.case prod.case)
  from s0 s1 ex
  have "solver_loop settling_step 500 = Some (Inr (err, example_trans_mat, 600))"
    using solver_loop_returns_first_settled [of settling_step 500] by (metis less_one)
  with s0 s1 ex show ?thesis by simp
qed

text \<open>
  C1 (as the spec has it) fails. On the second input the solver sends the landmark from
  500 nm to 600 nm and back, never with \<open>ok\<close>: the loop runs for ever, no bound stops
  it and no convergence error is raised.
\<close>

theorem transform_solver_wandering_counterexample:
  "transform_solver start_value_fmin 0 1 wandering_l_spline example_unit_spline
     example_unit_spline example_unit_spline 440 half_cc_ref 7 8 = None"
proof -
  have "\<not> loop_stops wandering_step (landmark wandering_step 500 n)" for n
    using wandering_landmark(1) [of n] wandering_passes(1,3) by metis
  then have "solver_loop wandering_step 500 = None"
    by (simp only: solver_loop_None_iff not_False_eq_True simp_thms)
  then show ?thesis
    by (simp only: transform_solver_def example_grid sum.case example_a33 wandering_step_def)
qed

text \<open>
  The answer of the minimiser does not matter on this input. \<open>M\<close> and \<open>S\<close> are
  equal, so \<open>a13\<close> enters the modelled \<open>X\<close> only through the rounding of \<open>a12\<close>
  and \<open>a13\<close> to eight places: whatever the minimiser returns, \<open>X\<close> changes by at
  most \<open>1 / 10 ^ 8\<close>, the least \<open>x\<close> stays at the other of the two wavelengths, and
  the loop runs for ever.
\<close>

lemma ceiling_log10:
  fixes x :: real
  assumes "10 powi (b - 1) < x" and "x \<le> 10 powi b"
  shows "\<lceil>log 10 x\<rceil> = b"
proof (rule ceiling_unique)
  have "(0::real) < 10 powi (b - 1)" by simp
  with assms(1) have pos: "0 < x" by linarith
  have ten: "(1::real) < 10" by simp
  from assms(1) have "10 powr of_int (b - 1) < x" by (simp only: ten_powr)
  then have "of_int (b - 1) < log 10 x"
    by (rule less_log_iff [OF ten pos, THEN iffD2])
  then show "of_int b - 1 < log 10 x" by simp
  from assms(2) have "x \<le> 10 powr of_int b" by (simp only: ten_powr)
  then show "log 10 x \<le> of_int b"
    by (rule log_le_iff [OF ten pos, THEN iffD2])
qed

lemma sum_of_rounds:
  "\<exists>j::int. \<bar>j\<bar> \<le> 1 \<and> my_round (of_int c - a) 8 + my_round a 8 = of_int c + of_int j / 10 ^ 8"
proof -
  obtain p q :: int where
    p: "my_round (of_int c - a) 8 = of_int p / 10 ^ 8" and q: "my_round a 8 = of_int q / 10 ^ 8"
    using my_round_on_grid by metis
  define j where "j = p + q - c * 10 ^ 8"
  have "(1::real) / (2 * 10 ^ 8) + 1 / (2 * 10 ^ 8) = 1 / 10 ^ 8" by simp
  then have "\<bar>my_round (of_int c - a) 8 + my_round a 8 - of_int c\<bar> \<le> 1 / 10 ^ 8"
    using my_round_error [of "of_int c - a" 8] my_round_error [of a 8] by linarith
  moreover have sum: "my_round (of_int c - a) 8 + my_round a 8 - of_int c = of_int j / 10 ^ 8"
    by (simp add: p q j_def field_simps)
  ultimately have "\<bar>(of_int j :: real) / 10 ^ 8\<bar> \<le> 1 / 10 ^ 8" by (simp only:)
  then have "\<bar>of_int j :: real\<bar> \<le> 1" by simp
  then have "\<bar>j\<bar> \<le> 1" by linarith
  moreover from sum have "my_round (of_int c - a) 8 + my_round a 8 = of_int c + of_int j / 10 ^ 8"
    by simp
  ultimately show ?thesis by blast
qed

lemma perturbed_significant_figures:
  assumes "\<bar>j\<bar> \<le> 1"
  shows "significant_figures (of_int j / 10 ^ 8) 7 = of_int j / 10 ^ 8"
    and "significant_figures (1 + of_int j / 10 ^ 8) 7 = 1"
    and "significant_figures (2 + of_int j / 10 ^ 8) 7 = 2"
proof -
  from assms consider "j = - 1" | "j = 0" | "j = 1" by linarith
  note cases = this
  have e8: "\<lceil>log 10 (1 / 10 ^ 8 :: real)\<rceil> = - 8" by (rule ceiling_log10) simp_all
  have e1m: "\<lceil>log 10 (1 - 1 / 10 ^ 8 :: real)\<rceil> = 0" by (rule ceiling_log10) simp_all
  have e1p: "\<lceil>log 10 (1 + 1 / 10 ^ 8 :: real)\<rceil> = 1" by (rule ceiling_log10) simp_all
  have e2m: "\<lceil>log 10 (2 - 1 / 10 ^ 8 :: real)\<rceil> = 1" by (rule ceiling_log10) simp_all
  have e2p: "\<lceil>log 10 (2 + 1 / 10 ^ 8 :: real)\<rceil> = 1" by (rule ceiling_log10) simp_all
  show "significant_figures (of_int j / 10 ^ 8) 7 = of_int j / 10 ^ 8"
    using cases e8 by cases (simp_all add: significant_figures_def my_round_def)
  show "significant_figures (1 + of_int j / 10 ^ 8) 7 = 1"
    using cases e1m e1p by cases (simp_all add: significant_figures_def my_round_def)
  show "significant_figures (2 + of_int j / 10 ^ 8) 7 = 2"
    using cases e2m e2p ceiling_log10_2 by cases (simp_all add: significant_figures_def my_round_def)
qed


lemma wandering_closed_forms:
  "a11_closed_form a 0 1 1 wandering_l_spline example_unit_spline example_unit_spline
     example_unit_spline [390, 830] 500 (1 / 2) = - 1"
  "a12_closed_form a 0 1 1 wandering_l_spline example_unit_spline example_unit_spline
     example_unit_spline [390, 830] 500 (1 / 2) = 3 - a"
  "a11_closed_form a 0 1 1 wandering_l_spline example_unit_spline example_unit_spline
     example_unit_spline [390, 830] 600 (1 / 2) = 1"
  "a12_closed_form a 0 1 1 wandering_l_spline example_unit_spline example_unit_spline
     example_unit_spline [390, 830] 600 (1 / 2) = - 1 - a"
  by (simp_all add: a11_closed_form_def a12_closed_form_def a_denominator_def
      example_sums wandering_sum wandering_l_spline_def example_unit_spline_def field_simps)

lemma perturbed_x:
  assumes "\<bar>j\<bar> \<le> 1"
  shows "fst (chromaticity (significant_figures3 (2 + of_int j / 10 ^ 8, 1, 1) 7)) = 1 / 2"
    and "fst (chromaticity (significant_figures3 (1 + of_int j / 10 ^ 8, 1, 1) 7)) = 1 / 3"
    and "fst (chromaticity (significant_figures3 (of_int j / 10 ^ 8, 1, 1) 7)) < 1 / 3"
proof -
  note sf = perturbed_significant_figures [OF assms] example_significant_figures
  show "fst (chromaticity (significant_figures3 (2 + of_int j / 10 ^ 8, 1, 1) 7)) = 1 / 2"
    by (simp only: significant_figures3_def chromaticity_def prod.case fst_conv sf) simp
  show "fst (chromaticity (significant_figures3 (1 + of_int j / 10 ^ 8, 1, 1) 7)) = 1 / 3"
    by (simp only: significant_figures3_def chromaticity_def prod.case fst_conv sf) simp
  have "fst (chromaticity (significant_figures3 (of_int j / 10 ^ 8, 1, 1) 7))
      = of_int j / 10 ^ 8 / (of_int j / 10 ^ 8 + 1 + 1)"
    by (simp only: significant_figures3_def chromaticity_def prod.case fst_conv sf)
  moreover from assms consider "j = - 1" | "j = 0" | "j = 1" by linarith
  then have "(of_int j :: real) / 10 ^ 8 / (of_int j / 10 ^ 8 + 1 + 1) < 1 / 3"
    by cases simp_all
  ultimately show "fst (chromaticity (significant_figures3 (of_int j / 10 ^ 8, 1, 1) 7)) < 1 / 3"
    by (simp only:)
qed

lemma wandering_any_modelled_x:
  fixes a :: real
  defines "M5 \<equiv> ((- 1, my_round (3 - a) 8, my_round a 8), (0, 1, 0), (0, 0, 1))"
    and "M6 \<equiv> ((1, my_round (- 1 - a) 8, my_round a 8), (0, 1, 0), (0, 0, 1))"
  shows "\<exists>t < 1 / 3. \<forall>w.
           modelled_x M5 wandering_l_spline example_unit_spline example_unit_spline 7 w =
             (if w = 500 then 1 / 2 else if w = 600 then t else 1 / 3)"
    and "\<exists>t < 1 / 3. \<forall>w.
           modelled_x M6 wandering_l_spline example_unit_spline example_unit_spline 7 w =
             (if w = 500 then t else if w = 600 then 1 / 2 else 1 / 3)"
proof -
  from sum_of_rounds [of 3 a] obtain j :: int where
    j: "\<bar>j\<bar> \<le> 1" and sum5: "my_round (3 - a) 8 + my_round a 8 = 3 + of_int j / 10 ^ 8"
    by auto
  have x5: "mat_vec M5 (wandering_l_spline w, example_unit_spline w, example_unit_spline w) =
      (if w = 500 then (2 + of_int j / 10 ^ 8, 1, 1)
       else if w = 600 then (of_int j / 10 ^ 8, 1, 1) else (1 + of_int j / 10 ^ 8, 1, 1))" for w
    using sum5 by (simp add: M5_def mat_vec_def wandering_l_spline_def example_unit_spline_def)
  show "\<exists>t < 1 / 3. \<forall>w.
           modelled_x M5 wandering_l_spline example_unit_spline example_unit_spline 7 w =
             (if w = 500 then 1 / 2 else if w = 600 then t else 1 / 3)"
    using perturbed_x [OF j]
    by (intro exI [of _ "fst (chromaticity (significant_figures3 (of_int j / 10 ^ 8, 1, 1) 7))"])
       (simp add: modelled_x_def xyz_at_def x5)
  from sum_of_rounds [of "- 1" a] obtain k :: int where
    k: "\<bar>k\<bar> \<le> 1" and sum6: "my_round (- 1 - a) 8 + my_round a 8 = - 1 + of_int k / 10 ^ 8"
    by auto
  have x6: "mat_vec M6 (wandering_l_spline w, example_unit_spline w, example_unit_spline w) =
      (if w = 500 then (of_int k / 10 ^ 8, 1, 1)
       else if w = 600 then (2 + of_int k / 10 ^ 8, 1, 1) else (1 + of_int k / 10 ^ 8, 1, 1))" for w
    using sum6 by (simp add: M6_def mat_vec_def wandering_l_spline_def example_unit_spline_def)
  show "\<exists>t < 1 / 3. \<forall>w.
           modelled_x M6 wandering_l_spline example_unit_spline example_unit_spline 7 w =
             (if w = 500 then t else if w = 600 then 1 / 2 else 1 / 3)"
    using perturbed_x [OF k]
    by (intro exI [of _ "fst (chromaticity (significant_figures3 (of_int k / 10 ^ 8, 1, 1) 7))"])
       (simp add: modelled_x_def xyz_at_def x6)
qed

lemma wandering_any_square_sum:
  "\<exists>err M. square_sum a 0 1 1 wandering_l_spline example_unit_spline example_unit_spline
     example_unit_spline [390, 830] 500 half_cc_ref 7 8 = Inr (err, M, 600, False)"
  "\<exists>err M. square_sum a 0 1 1 wandering_l_spline example_unit_spline example_unit_spline
     example_unit_spline [390, 830] 600 half_cc_ref 7 8 = Inr (err, M, 500, False)"
proof -
  let ?M5 = "((- 1, my_round (3 - a) 8, my_round a 8), (0, 1, 0), (0, 0, 1)) :: mat3"
  let ?M6 = "((1, my_round (- 1 - a) 8, my_round a 8), (0, 1, 0), (0, 0, 1)) :: mat3"
  have m5: "trans_mat_of a 0 1 1 wandering_l_spline example_unit_spline example_unit_spline
     example_unit_spline [390, 830] 500 half_cc_ref 8 = ?M5"
    using my_round_integer [of "- 1" 8]
    by (simp add: trans_mat_of_def half_x_ref_min wandering_closed_forms)
  have m6: "trans_mat_of a 0 1 1 wandering_l_spline example_unit_spline example_unit_spline
     example_unit_spline [390, 830] 600 half_cc_ref 8 = ?M6"
    using my_round_integer [of 1 8]
    by (simp add: trans_mat_of_def half_x_ref_min wandering_closed_forms)
  from wandering_any_modelled_x(1) [of a] obtain t where
    t: "t < 1 / 3" and x5: "\<And>w. modelled_x ?M5 wandering_l_spline example_unit_spline
         example_unit_spline 7 w = (if w = 500 then 1 / 2 else if w = 600 then t else 1 / 3)"
    by blast
  have "argmin (map (modelled_x ?M5 wandering_l_spline example_unit_spline
                  example_unit_spline 7) arange_390_831) = 210"
    using t by (intro argmin_unique)
      (simp_all add: length_arange_390_831 arange_390_831_nth x5)
  then show "\<exists>err M. square_sum a 0 1 1 wandering_l_spline example_unit_spline
     example_unit_spline example_unit_spline [390, 830] 500 half_cc_ref 7 8
     = Inr (err, M, 600, False)"
    by (simp add: square_sum_def half_trunk_length m5 Let_def x_list_eq arange_390_831_nth)
  from wandering_any_modelled_x(2) [of a] obtain u where
    u: "u < 1 / 3" and x6: "\<And>w. modelled_x ?M6 wandering_l_spline example_unit_spline
         example_unit_spline 7 w = (if w = 500 then u else if w = 600 then 1 / 2 else 1 / 3)"
    by blast
  have "argmin (map (modelled_x ?M6 wandering_l_spline example_unit_spline
                  example_unit_spline 7) arange_390_831) = 110"
    using u by (intro argmin_unique)
      (simp_all add: length_arange_390_831 arange_390_831_nth x6)
  then show "\<exists>err M. square_sum a 0 1 1 wandering_l_spline example_unit_spline
     example_unit_spline example_unit_spline [390, 830] 600 half_cc_ref 7 8
     = Inr (err, M, 500, False)"
    by (simp add: square_sum_def half_trunk_length m6 Let_def x_list_eq arange_390_831_nth)
qed

lemma wandering_any_minimiser:
  "transform_solver fmin 0 1 wandering_l_spline example_unit_spline
     example_unit_spline example_unit_spline 440 half_cc_ref 7 8 = None"
proof -
  define step where "step = solver_step fmin 0 1 1 wandering_l_spline example_unit_spline
       example_unit_spline example_unit_spline [390, 830] half_cc_ref 7 8"
  have s5: "\<exists>err M. step 500 = Inr (err, M, 600, False)"
    and s6: "\<exists>err M. step 600 = Inr (err, M, 500, False)"
    unfolding step_def solver_step_def Let_def
    by (simp_all only: half_trunk_length wandering_any_square_sum simp_thms if_False)
  then have passes: "\<not> loop_stops step 500" "loop_next step 500 = 600"
    "\<not> loop_stops step 600" "loop_next step 600 = 500"
    by (auto simp: loop_stops_def loop_next_def)
  have lm: "landmark step 500 n = 500 \<or> landmark step 500 n = 600"
    and "landmark step 600 n = 500 \<or> landmark step 600 n = 600" for n
  proof (induction n)
    case 0
    show "landmark step 500 0 = 500 \<or> landmark step 500 0 = 600" by simp
    show "landmark step 600 0 = 500 \<or> landmark step 600 0 = 600" by simp
  next
    case (Suc n)
    from Suc.IH(2)
    show "landmark step 500 (Suc n) = 500 \<or> landmark step 500 (Suc n) = 600"
      by (simp only: landmark.simps passes)
    from Suc.IH(1)
    show "landmark step 600 (Suc n) = 500 \<or> landmark step 600 (Suc n) = 600"
      by (simp only: landmark.simps passes)
  qed
  have "\<not> loop_stops step (landmark step 500 n)" for n
    using lm [of n] passes(1,3) by metis
  then have "solver_loop step 500 = None"
    by (simp only: solver_loop_None_iff not_False_eq_True simp_thms)
  then show ?thesis
    by (simp only: transform_solver_def example_grid sum.case example_a33 step_def)
qed

subsection \<open>What the solver returns\<close>

text \<open>
  C9. A matrix that the solver returns has the second row \<open>(a21, a22, 0)\<close> and the
  third row \<open>(0, 0, a33)\<close>, where \<open>a33\<close> is the quotient of the sums of \<open>V\<close> and
  \<open>S\<close> over the requested grid, rounded to \<open>mat_dp\<close> places. The sum of \<open>S\<close> is
  taken to be non-zero.
\<close>

theorem transform_solver_matrix_pattern:
  assumes ret: "transform_solver fmin a21 a22 l_spline m_spline s_spline v_spline
             resolution cc_ref xyz_signfig mat_dp = Some (Inr (err, trans_mat, lam))"
    and grid: "lambdas_of resolution = Inr lambdas"
    and sum: "spline_sum s_spline lambdas \<noteq> 0"
  shows "\<exists>a11 a12 a13.
           trans_mat =
             ((a11, a12, a13),
              (a21, a22, 0),
              (0, 0, my_round (spline_sum v_spline lambdas / spline_sum s_spline lambdas) mat_dp))"
proof -
  from transform_solver_last_step [OF ret] obtain lambdas' a13 where
    grid': "lambdas_of resolution = Inr lambdas'"
    and sq: "square_sum a13 a21 a22 (a33_of s_spline v_spline lambdas' mat_dp)
             l_spline m_spline s_spline v_spline lambdas' lam cc_ref xyz_signfig mat_dp
           = Inr (err, trans_mat, lam, True)"
    by blast
  from grid grid' have "lambdas' = lambdas" by simp
  with square_sum_matrix [OF sq] show ?thesis
    unfolding a33_of_def by blast
qed

theorem transform_solver_matrix_pattern_witness:
  "\<exists>err. transform_solver example_fmin 1 1 example_l_spline example_unit_spline
       example_unit_spline example_unit_spline 440 example_cc_ref 7 8
     = Some (Inr (err, ((1, - 1, 0), (1, 1, 0), (0, 0, 1)), 500)) \<and>
   lambdas_of 440 = Inr [390, 830] \<and>
   spline_sum example_unit_spline [390, 830] \<noteq> 0 \<and>
   (\<exists>a11 a12 a13.
      ((1, - 1, 0), (1, 1, 0), (0, 0, 1)) =
        ((a11, a12, a13), (1, 1, 0),
         (0, 0, my_round (spline_sum example_unit_spline [390, 830]
                           / spline_sum example_unit_spline [390, 830]) 8)))"
proof -
  from example_transform_solver obtain err where
    ret: "transform_solver example_fmin 1 1 example_l_spline example_unit_spline
       example_unit_spline example_unit_spline 440 example_cc_ref 7 8
     = Some (Inr (err, ((1, - 1, 0), (1, 1, 0), (0, 0, 1)), 500))"
    unfolding example_trans_mat_def by blast
  have sum: "spline_sum example_unit_spline [390, 830] \<noteq> 0"
    by (simp add: example_sums)
  from transform_solver_matrix_pattern [OF ret example_grid sum] ret example_grid sum
  show ?thesis by blast
qed

text \<open>
  C8. When the solver returns, the returned landmark is one of the wavelengths 390, ...,
  830, the modelled \<open>x\<close> of the returned matrix is least there, and it is the first
  wavelength with that least value. The two divisors of the computation are taken to be
  non-zero: the one of the closed forms for \<open>a11\<close> and \<open>a12\<close>, and the sum of the
  tristimulus values at every sampled wavelength.
\<close>

theorem transform_solver_landmark_minimises_x:
  assumes ret: "transform_solver fmin a21 a22 l_spline m_spline s_spline v_spline
             resolution cc_ref xyz_signfig mat_dp = Some (Inr (err, trans_mat, lam))"
    and grid: "lambdas_of resolution = Inr lambdas"
    and den: "a_denominator l_spline m_spline lambdas lam (x_ref_min cc_ref) \<noteq> 0"
    and sums: "\<forall>w \<in> set arange_390_831.
                tristimulus_sum (xyz_at trans_mat l_spline m_spline s_spline xyz_signfig w) \<noteq> 0"
  shows "lam \<in> set arange_390_831 \<and>
         (\<forall>w \<in> set arange_390_831.
            modelled_x trans_mat l_spline m_spline s_spline xyz_signfig lam
              \<le> modelled_x trans_mat l_spline m_spline s_spline xyz_signfig w) \<and>
         (\<forall>w \<in> set arange_390_831. w < lam \<longrightarrow>
            modelled_x trans_mat l_spline m_spline s_spline xyz_signfig lam
              < modelled_x trans_mat l_spline m_spline s_spline xyz_signfig w)"
proof -
  from transform_solver_last_step [OF ret] obtain lambdas' a13 where
    sq: "square_sum a13 a21 a22 (a33_of s_spline v_spline lambdas' mat_dp)
             l_spline m_spline s_spline v_spline lambdas' lam cc_ref xyz_signfig mat_dp
           = Inr (err, trans_mat, lam, True)"
    by blast
  from square_sum_landmark [OF sq] show ?thesis
    by (rule landmark_minimises)
qed

theorem transform_solver_landmark_minimises_x_witness:
  "\<exists>err. transform_solver example_fmin 1 1 example_l_spline example_unit_spline
       example_unit_spline example_unit_spline 440 example_cc_ref 7 8
     = Some (Inr (err, example_trans_mat, 500)) \<and>
   500 \<in> set arange_390_831 \<and>
   modelled_x example_trans_mat example_l_spline example_unit_spline example_unit_spline 7 500
     \<le> modelled_x example_trans_mat example_l_spline example_unit_spline
         example_unit_spline 7 830 \<and>
   modelled_x example_trans_mat example_l_spline example_unit_spline example_unit_spline 7 500
     < modelled_x example_trans_mat example_l_spline example_unit_spline
         example_unit_spline 7 390"
proof -
  from example_transform_solver obtain err where
    ret: "transform_solver example_fmin 1 1 example_l_spline example_unit_spline
       example_unit_spline example_unit_spline 440 example_cc_ref 7 8
     = Some (Inr (err, example_trans_mat, 500))"
    by blast
  have den: "a_denominator example_l_spline example_unit_spline [390, 830] 500
               (x_ref_min example_cc_ref) \<noteq> 0"
    by (simp add: example_denominator)
  have "arange_390_831 ! 0 \<in> set arange_390_831" and "arange_390_831 ! 440 \<in> set arange_390_831"
    by (simp_all add: length_arange_390_831)
  then have mem: "(390::real) \<in> set arange_390_831" "(830::real) \<in> set arange_390_831"
    by (simp_all add: arange_390_831_nth)
  from transform_solver_landmark_minimises_x [OF ret example_grid den example_tristimulus_sums]
    ret mem
  show ?thesis by force
qed

subsection \<open>The purple line\<close>

lemma argmax_less_length: "xs \<noteq> [] \<Longrightarrow> argmax xs < length xs"
  by (induction xs) auto

lemma argmax_ge: "i < length xs \<Longrightarrow> xs ! i \<le> xs ! argmax xs"
proof (induction xs arbitrary: i)
  case Nil
  then show ?case by simp
next
  case (Cons x xs)
  show ?case
  proof (cases "xs = []")
    case True
    with Cons.prems show ?thesis by simp
  next
    case False
    show ?thesis
    proof (cases i)
      case 0
      then show ?thesis by auto
    next
      case (Suc j)
      with Cons.prems have "j < length xs" by simp
      then have "xs ! j \<le> xs ! argmax xs" by (rule Cons.IH)
      with Suc False show ?thesis by auto
    qed
  qed
qed

lemma argmax_first: "i < argmax xs \<Longrightarrow> xs ! i < xs ! argmax xs"
proof (induction xs arbitrary: i)
  case Nil
  then show ?case by simp
next
  case (Cons x xs)
  from Cons.prems have ne: "xs \<noteq> []" and gt: "\<not> xs ! argmax xs \<le> x"
    and am: "argmax (x # xs) = Suc (argmax xs)"
    by (auto split: if_splits)
  show ?case
  proof (cases i)
    case 0
    with gt am show ?thesis by simp
  next
    case (Suc j)
    with Cons.prems am have "j < argmax xs" by simp
    then have "xs ! j < xs ! argmax xs" by (rule Cons.IH)
    with Suc am show ?thesis by simp
  qed
qed

text \<open>
  C5 (as the code has it). The selection returns the rows at the two indices of a hull
  edge, namely of the first edge, in the order in which the hull routine lists the edges,
  whose index distance is the greatest of all: no edge has a greater one, and every edge
  listed before it has a smaller one. So the result depends on the order of the rows.
\<close>

theorem select_purple_line_first_maximal_edge:
  assumes "select_purple_line convex_hull table pick = Inr (p0, p1)"
  shows "\<exists>ind < length convex_hull.
           fst (convex_hull ! ind) < length table \<and> snd (convex_hull ! ind) < length table \<and>
           p0 = pick (table ! fst (convex_hull ! ind)) \<and>
           p1 = pick (table ! snd (convex_hull ! ind)) \<and>
           (\<forall>k < length convex_hull.
              index_distance (convex_hull ! k) \<le> index_distance (convex_hull ! ind)) \<and>
           (\<forall>k < ind. index_distance (convex_hull ! k) < index_distance (convex_hull ! ind))"
proof -
  let ?ds = "map index_distance convex_hull"
  let ?ind = "argmax ?ds"
  let ?e = "convex_hull ! ?ind"
  from assms have ne: "convex_hull \<noteq> []"
    by (auto simp: select_purple_line_def split: if_splits)
  then have ind: "?ind < length convex_hull"
    using argmax_less_length [of ?ds] by simp
  from assms ne have rows: "fst ?e < length table \<and> snd ?e < length table \<and>
      p0 = pick (table ! fst ?e) \<and> p1 = pick (table ! snd ?e)"
    by (auto simp: select_purple_line_def Let_def split: if_splits)
  have greatest: "index_distance (convex_hull ! k) \<le> index_distance ?e"
    if "k < length convex_hull" for k
  proof -
    from that have "?ds ! k \<le> ?ds ! ?ind" using argmax_ge [of k ?ds] by simp
    with that ind show ?thesis by simp
  qed
  have first: "index_distance (convex_hull ! k) < index_distance ?e" if "k < ?ind" for k
  proof -
    from that have "?ds ! k < ?ds ! ?ind" by (rule argmax_first)
    with that ind show ?thesis by simp
  qed
  from ind rows greatest first show ?thesis by blast
qed

theorem select_purple_line_first_maximal_edge_witness:
  "select_purple_line [(0, 1), (0, 2), (1, 3), (2, 3)]
      [(400, 0, 0, 1), (500, 1, 0, 0), (600, 0, 1, 0), (700, 1, 1, - 1)] cols_012
     = Inr ((400, 0, 0), (600, 0, 1)) \<and>
   index_distance (0, 2) = index_distance (1, 3) \<and>
   (\<exists>ind < length [(0::nat, 1::nat), (0, 2), (1, 3), (2, 3)].
      [(0::nat, 1::nat), (0, 2), (1, 3), (2, 3)] ! ind = (0, 2) \<and>
      (\<forall>k < ind. index_distance ([(0, 1), (0, 2), (1, 3), (2, 3)] ! k) < index_distance (0, 2)))"
proof -
  let ?hull = "[(0::nat, 1::nat), (0, 2), (1, 3), (2, 3)]"
  let ?table = "[(400::real, 0::real, 0::real, 1::real), (500, 1, 0, 0), (600, 0, 1, 0),
                 (700, 1, 1, - 1)]"
  have sel: "select_purple_line ?hull ?table cols_012 = Inr ((400, 0, 0), (600, 0, 1))"
    by (simp add: select_purple_line_def index_distance_def cols_012_def)
  from select_purple_line_first_maximal_edge [OF sel]
  obtain ind where ind: "ind < length ?hull"
    and p0: "(400, 0, 0) = cols_012 (?table ! fst (?hull ! ind))"
    and p1: "(600, 0, 1) = cols_012 (?table ! snd (?hull ! ind))"
    and first: "\<forall>k < ind. index_distance (?hull ! k) < index_distance (?hull ! ind)"
    by blast
  from ind have "ind = 0 \<or> ind = 1 \<or> ind = 2 \<or> ind = 3" by auto
  with p0 p1 have e: "?hull ! ind = (0, 2)" by (auto simp: cols_012_def)
  with ind first have "\<exists>ind < length ?hull. ?hull ! ind = (0, 2) \<and>
      (\<forall>k < ind. index_distance (?hull ! k) < index_distance (0, 2))"
    by auto
  moreover have "index_distance (0, 2) = index_distance (1, 3)"
    by (simp add: index_distance_def)
  ultimately show ?thesis using sel by blast
qed

lemma triangle_hull: "hull_edges [(0, 0), (1, 0), (0, 1)] = [(0, 1), (0, 2), (1, 2)]"
  by (simp add: hull_edges_def is_hull_edge_def side_of_line_def upt_rec)

lemma triangle_hull2: "hull_edges [(0, 0), (0, 1), (1, 0)] = [(0, 1), (0, 2), (1, 2)]"
  by (simp add: hull_edges_def is_hull_edge_def side_of_line_def upt_rec)

text \<open>
  C5 (as the spec has it) fails. Three points that are not on a line have a triangle as
  their hull, and the edge of the greatest index distance joins the first and the last
  row. With the rows at 500 nm and at 600 nm exchanged, the second endpoint is another
  row.
\<close>

theorem purple_line_reordering_counterexample:
  "purple_line_of hull_edges [(400, 0, 0, 1), (500, 1, 0, 0), (600, 0, 1, 0)]
     = Inr ((400, 0, 0), (600, 0, 1)) \<and>
   purple_line_of hull_edges [(400, 0, 0, 1), (600, 0, 1, 0), (500, 1, 0, 0)]
     = Inr ((400, 0, 0), (500, 1, 0))"
  by (simp add: purple_line_of_def cols_12_def cols_012_def triangle_hull triangle_hull2
      select_purple_line_def index_distance_def)

text \<open>
  The same holds for every order and orientation in which a hull routine may list the
  edges of a triangle: the selected edge joins the first and the third row.
\<close>

lemma triangle_selection_any_order:
  assumes ne: "(0, 2) \<in> set convex_hull \<or> (2, 0) \<in> set convex_hull"
    and tri: "\<forall>e \<in> set convex_hull. fst e < 3 \<and> snd e < 3"
    and len: "length table = 3"
  shows "select_purple_line convex_hull table pick = Inr (pick (table ! 0), pick (table ! 2)) \<or>
         select_purple_line convex_hull table pick = Inr (pick (table ! 2), pick (table ! 0))"
proof -
  let ?ds = "map index_distance convex_hull"
  let ?e = "convex_hull ! argmax ?ds"
  from ne have nonempty: "convex_hull \<noteq> []" by auto
  then have ind: "argmax ?ds < length convex_hull"
    using argmax_less_length [of ?ds] by simp
  then have mem: "?e \<in> set convex_hull" by simp
  from ne obtain i where i: "i < length convex_hull" and two: "index_distance (convex_hull ! i) = 2"
    by (auto simp: in_set_conv_nth index_distance_def)
  then have "?ds ! i \<le> ?ds ! argmax ?ds" using argmax_ge [of i ?ds] by simp
  with i two ind have ge: "2 \<le> index_distance ?e" by simp
  from tri mem have "fst ?e < 3 \<and> snd ?e < 3" by blast
  with ge have "(fst ?e = 0 \<and> snd ?e = 2) \<or> (fst ?e = 2 \<and> snd ?e = 0)"
    unfolding index_distance_def by linarith
  with nonempty len show ?thesis
    by (auto simp: select_purple_line_def Let_def)
qed

text \<open>
  C10. In the triple of purple lines that \<open>compute_tabulated\<close> returns, the second
  endpoint of the line for \<open>cc\<close> carries the wavelength of the second endpoint of the
  line for \<open>bm\<close>.
\<close>

theorem purple_lines_second_wavelengths_agree:
  assumes "purple_lines delaunay plots_cc plots_bm plots_lm cc_dp bm_dp lm_dp
             = Inr (purple_line_cc, purple_line_bm, purple_line_lm)"
  shows "fst (snd purple_line_cc) = fst (snd purple_line_bm)"
  using assms
  by (auto simp: purple_lines_def report_bm_wavelength_def Let_def
      split: sum.splits prod.splits if_splits)

lemma example_hulls:
  "hull_edges [(0, 0), (4, 0), (4, 4), (0, 5)] = [(0, 1), (0, 3), (1, 2), (2, 3)]"
  "hull_edges [(0, 0), (4, 0), (0, 4), (1, 1)] = [(0, 1), (0, 2), (1, 2)]"
  "hull_edges [(0, 0), (1, 0), (0, 1), (1, 1)] = [(0, 1), (0, 2), (1, 3), (2, 3)]"
  by (simp_all add: hull_edges_def is_hull_edge_def side_of_line_def upt_rec)

lemma example_purple_lines:
  "purple_lines hull_edges
     [(390, 0, 0, 1), (500, 4, 0, - 3), (600, 4, 4, - 7), (830, 0, 5, - 4)]
     [(390, 0, 1, 0), (500, 4, - 3, 0), (600, 0, 1, 4), (830, 1, 0, 1)]
     [(390, 0, 0, 1), (500, 1, 0, 0), (600, 0, 1, 0), (830, 1, 1, - 1)] 5 6 5
   = Inr (((390, 0, 0), (600, 0, 5)), ((390, 0, 0), (600, 0, 4)), ((390, 0, 0), (600, 0, 1)))"
  by (simp add: purple_lines_def purple_line_of_def purple_line_bm_of_def cols_12_def
      cols_13_def cols_012_def cols_013_def example_hulls select_purple_line_def
      index_distance_def round_purple_line_def report_bm_wavelength_def my_round_def)

theorem purple_lines_second_wavelengths_agree_witness:
  "purple_lines hull_edges
     [(390, 0, 0, 1), (500, 4, 0, - 3), (600, 4, 4, - 7), (830, 0, 5, - 4)]
     [(390, 0, 1, 0), (500, 4, - 3, 0), (600, 0, 1, 4), (830, 1, 0, 1)]
     [(390, 0, 0, 1), (500, 1, 0, 0), (600, 0, 1, 0), (830, 1, 1, - 1)] 5 6 5
   = Inr (((390, 0, 0), (600, 0, 5)), ((390, 0, 0), (600, 0, 4)), ((390, 0, 0), (600, 0, 1))) \<and>
   fst (snd ((390::real, 0::real, 0::real), (600::real, 0::real, 5::real)))
     = fst (snd ((390::real, 0::real, 0::real), (600::real, 0::real, 4::real)))"
  using purple_lines_second_wavelengths_agree [OF example_purple_lines] example_purple_lines
  by simp

subsection \<open>The sums of the chromaticity coordinates\<close>

text \<open>
  Three numbers that sum to 1 sum, after rounding, to 1 or to 1 plus or minus one unit of
  the last place kept.
\<close>

lemma rounded_triple_sum:
  fixes a b c :: real
  assumes one: "a + b + c = 1"
  shows "\<bar>my_round a n + my_round b n + my_round c n - 1\<bar> \<le> 1 / 10 ^ n"
proof -
  obtain za zb zc :: int where
    za: "my_round a n = of_int za / 10 ^ n" and
    zb: "my_round b n = of_int zb / 10 ^ n" and
    zc: "my_round c n = of_int zc / 10 ^ n"
    using my_round_on_grid by metis
  let ?K = "za + zb + zc - 10 ^ n"
  have p: "(0::real) < 10 ^ n" by simp
  have K: "my_round a n + my_round b n + my_round c n - 1 = of_int ?K / 10 ^ n"
    using p by (simp add: za zb zc field_simps)
  have "my_round a n + my_round b n + my_round c n - 1
        = (my_round a n - a) + (my_round b n - b) + (my_round c n - c)"
    using one by simp
  then have "\<bar>my_round a n + my_round b n + my_round c n - 1\<bar>
        \<le> \<bar>my_round a n - a\<bar> + \<bar>my_round b n - b\<bar> + \<bar>my_round c n - c\<bar>"
    by linarith
  also have "\<dots> \<le> 3 * (1 / (2 * 10 ^ n))"
    using my_round_error [of a n] my_round_error [of b n] my_round_error [of c n] by linarith
  finally have "\<bar>of_int ?K / 10 ^ n :: real\<bar> \<le> 3 * (1 / (2 * 10 ^ n))"
    by (simp only: K)
  then have "\<bar>of_int ?K :: real\<bar> \<le> 3 / 2"
    using p by (simp add: field_simps)
  then have "\<bar>?K\<bar> \<le> 1" by linarith
  then have "\<bar>of_int ?K :: real\<bar> \<le> 1" by linarith
  then have "\<bar>of_int ?K / 10 ^ n :: real\<bar> \<le> 1 / 10 ^ n"
    using p by (simp add: field_simps)
  then show ?thesis by (simp only: K)
qed

lemma chromaticity_sum:
  assumes "tristimulus_sum u \<noteq> 0"
  shows "(case chromaticity u of (x, y, z) \<Rightarrow> x + y + z) = 1"
proof -
  obtain X Y Z where u: "u = (X, Y, Z)" by (cases u) auto
  with assms have nz: "X + Y + Z \<noteq> 0" by (simp add: tristimulus_sum_def)
  have "X / (X + Y + Z) + Y / (X + Y + Z) + Z / (X + Y + Z) = (X + Y + Z) / (X + Y + Z)"
    by (simp only: add_divide_distrib)
  also have "\<dots> = 1" using nz by (rule divide_self)
  finally show ?thesis by (simp only: u chromaticity_def prod.case)
qed

lemma normalised_row_sum:
  assumes "tristimulus_sum u \<noteq> 0"
  shows "\<bar>coordinate_sum (w, my_round3 (chromaticity u) dp) - 1\<bar> \<le> 1 / 10 ^ dp"
proof -
  obtain x y z where c: "chromaticity u = (x, y, z)" by (cases "chromaticity u") auto
  with chromaticity_sum [OF assms] have "x + y + z = 1" by simp
  then have "\<bar>my_round x dp + my_round y dp + my_round z dp - 1\<bar> \<le> 1 / 10 ^ dp"
    by (rule rounded_triple_sum)
  then show ?thesis by (simp add: c my_round3_def coordinate_sum_def)
qed

text \<open>
  C2 (as the code has it). In every row of \<open>cc\<close> and of \<open>lm\<close> whose normalising sum
  is not zero, the three coordinates sum to 1 within one unit of the last decimal place
  of the table (\<open>cc_dp\<close>, \<open>lm_dp\<close>). Nothing of the kind is said of \<open>bm\<close>.
\<close>

theorem cc_and_lm_rows_sum_to_one:
  "(\<forall>i < length lambdas.
      tristimulus_sum (xyz_at trans_mat l_spline m_spline s_spline xyz_signfig (lambdas ! i)) \<noteq> 0
      \<longrightarrow> \<bar>coordinate_sum
             (cc_table trans_mat l_spline m_spline s_spline lambdas xyz_signfig cc_dp ! i) - 1\<bar>
          \<le> 1 / 10 ^ cc_dp) \<and>
   (\<forall>i < length lambdas.
      tristimulus_sum
        (lms_N_at l_spline m_spline s_spline ls_spline ms_spline ss_spline lambdas lm_dp
           (lambdas ! i)) \<noteq> 0
      \<longrightarrow> \<bar>coordinate_sum
             (lm_table l_spline m_spline s_spline ls_spline ms_spline ss_spline lambdas lm_dp ! i)
            - 1\<bar>
          \<le> 1 / 10 ^ lm_dp)"
  by (simp add: cc_table_def lm_table_def normalised_row_sum)


lemma example_lms_N_at:
  "lms_N_at example_l_spline example_unit_spline example_unit_spline
     example_l_spline example_unit_spline example_unit_spline [390, 830] 5 390
   = (1 / 2, 1 / 2, 1 / 2)"
  by (simp add: lms_N_at_def example_sums example_l_spline_def example_unit_spline_def)

theorem cc_and_lm_rows_sum_to_one_witness:
  "tristimulus_sum (xyz_at example_trans_mat example_l_spline example_unit_spline
      example_unit_spline 7 ([390, 830] ! 0)) \<noteq> 0 \<and>
   \<bar>coordinate_sum
      (cc_table example_trans_mat example_l_spline example_unit_spline example_unit_spline
         [390, 830] 7 5 ! 0) - 1\<bar> \<le> 1 / 10 ^ 5 \<and>
   tristimulus_sum
     (lms_N_at example_l_spline example_unit_spline example_unit_spline
        example_l_spline example_unit_spline example_unit_spline [390, 830] 5 ([390, 830] ! 0))
     \<noteq> 0 \<and>
   \<bar>coordinate_sum
      (lm_table example_l_spline example_unit_spline example_unit_spline
         example_l_spline example_unit_spline example_unit_spline [390, 830] 5 ! 0) - 1\<bar>
     \<le> 1 / 10 ^ 5"
proof -
  have cc: "tristimulus_sum (xyz_at example_trans_mat example_l_spline example_unit_spline
      example_unit_spline 7 ([390, 830] ! 0)) \<noteq> 0"
    by (simp add: example_xyz_at tristimulus_sum_def)
  have lm: "tristimulus_sum
     (lms_N_at example_l_spline example_unit_spline example_unit_spline
        example_l_spline example_unit_spline example_unit_spline [390, 830] 5 ([390, 830] ! 0))
     \<noteq> 0"
    by (simp add: example_lms_N_at tristimulus_sum_def)
  from cc lm
    cc_and_lm_rows_sum_to_one [where lambdas = "[390, 830]" and trans_mat = example_trans_mat
      and l_spline = example_l_spline and m_spline = example_unit_spline
      and s_spline = example_unit_spline and ls_spline = example_l_spline
      and ms_spline = example_unit_spline and ss_spline = example_unit_spline
      and xyz_signfig = 7 and cc_dp = 5 and lm_dp = 5]
  show ?thesis by simp
qed

text \<open>
  C2 (as the spec has it) fails for \<open>bm\<close>. Its first two coordinates are the shares
  of \<open>L\<close> and \<open>M\<close> in \<open>V\<close> and sum to about 1; the third is \<open>S/V\<close> scaled to
  a peak of 1 on its own. With \<open>L = M = S = V = 1\<close> and \<open>a21 = a22 = 0.5\<close> every row
  is \<open>(0.5, 0.5, 1)\<close>, of sum 2.
\<close>

theorem bm_rows_counterexample:
  "bm_table ((1, - 1, 0), (0.5, 0.5, 0), (0, 0, 1))
     example_unit_spline example_unit_spline example_unit_spline example_unit_spline
     [390, 830] (bm_s_max_of [(390, 1, 1, 1), (830, 1, 1, 1)] [(390, 1), (830, 1)]) 6
   = [(390, 0.5, 0.5, 1), (830, 0.5, 0.5, 1)] \<and>
   coordinate_sum (390, 0.5, 0.5, 1) = 2"
  by (simp add: bm_table_def bm_row_def bm_s_max_of_def example_unit_spline_def
      my_round3_def my_round_def coordinate_sum_def)

subsection \<open>Parameters that are not positive\<close>

lemma length_divide_columns: "length (divide_columns rows maxima) = length rows"
  by (cases maxima) (simp add: divide_columns_def)

lemma length_lms_quantal:
  assumes "length (macula vd) = length (absorbance vd)"
    and "length (docul1_fine vd) = length (absorbance vd)"
    and "length (docul2_fine vd) = length (absorbance vd)"
  shows "length (lms_quantal vd field_size age) = length (absorbance vd)"
  using assms
  by (simp add: lms_quantal_def Let_def length_divide_columns absorpt_def ocular_def)

text \<open>
  C3 (as the code has it). \<open>compute_tabulated\<close> does not look at the sign of its
  parameters. With a field size or an age that is not positive its first statement
  synthesises the table of cone fundamentals by the general formulas, one row for every
  tabulated wavelength, with the column maxima. With a negative resolution the grid of
  wavelengths is computed and has at most one entry; with resolution 0 \<open>np.arange\<close>
  raises \<open>ZeroDivisionError\<close>.
\<close>

theorem no_parameter_validation:
  assumes "field_size \<le> 0 \<or> age \<le> 0"
    and "length (macula vd) = length (absorbance vd)"
    and "length (docul1_fine vd) = length (absorbance vd)"
    and "length (docul2_fine vd) = length (absorbance vd)"
  shows "length (fst (lms_energy_base vd field_size age)) = length (absorbance vd) \<and>
         snd (lms_energy_base vd field_size age) \<noteq> None \<and>
         (resolution < 0 \<longrightarrow> (\<exists>g. lambdas_of resolution = Inr g \<and> length g \<le> 1)) \<and>
         lambdas_of 0 = Inl ZeroDivisionError"
proof -
  from assms(1) have general: "\<not> (age = 32 \<and> field_size = 2) \<and> \<not> (age = 32 \<and> field_size = 10)"
    by auto
  have len: "length (fst (lms_energy_base vd field_size age)) = length (absorbance vd)"
    using general length_lms_quantal [OF assms(2-4), of field_size age]
    by (auto simp: lms_energy_base_def Let_def length_divide_columns)
  have mx: "snd (lms_energy_base vd field_size age) \<noteq> None"
  proof -
    from general have "snd (lms_energy_base vd field_size age) =
        Some (column_maxima (map (\<lambda>r. case r of (w, a, b, c) \<Rightarrow> (w, a * w, b * w, c * w))
                    (lms_quantal vd field_size age)))"
      by (simp add: lms_energy_base_def Let_def)
    then show ?thesis by (simp only: option.distinct not_False_eq_True)
  qed
  have grid: "\<exists>g. lambdas_of resolution = Inr g \<and> length g \<le> 1" if neg: "resolution < 0"
  proof -
    from neg have "(830 + resolution - 390) / resolution = 440 / resolution + 1"
      by (simp add: field_simps)
    moreover from neg have "440 / resolution < 0" by (simp add: field_simps)
    ultimately have "(830 + resolution - 390) / resolution < 1" by simp
    then have "\<lceil>(830 + resolution - 390) / resolution\<rceil> \<le> 1" by (simp add: ceiling_le_iff)
    then have "nat \<lceil>(830 + resolution - 390) / resolution\<rceil> \<le> 1" by simp
    with neg show ?thesis by (simp add: lambdas_of_def arange_def)
  qed
  have zero: "lambdas_of 0 = Inl ZeroDivisionError"
    by (simp add: lambdas_of_def arange_def)
  from len mx grid zero show ?thesis by blast
qed

theorem no_parameter_validation_witness:
  "length (fst (lms_energy_base example_data 0 0)) = length (absorbance example_data) \<and>
   snd (lms_energy_base example_data 0 0) \<noteq> None \<and>
   (\<exists>g. lambdas_of (- 1) = Inr g \<and> length g \<le> 1) \<and>
   lambdas_of 0 = Inl ZeroDivisionError"
proof -
  have "length (macula example_data) = length (absorbance example_data)"
    and "length (docul1_fine example_data) = length (absorbance example_data)"
    and "length (docul2_fine example_data) = length (absorbance example_data)"
    by (simp_all add: example_data_def)
  from no_parameter_validation [where field_size = 0 and age = 0 and resolution = "- 1", OF _ this]
  show ?thesis by simp
qed

lemma example_densities:
  "d_mac_max 0 = 0.485" "d_LM_max 0 = 0.92" "d_S_max 0 = 0.75"
  by (simp_all add: d_mac_max_def d_LM_max_def d_S_max_def my_round_def)

lemma example_absorpt:
  "absorpt example_data 0 =
     [(390, 1 - 10 powr (- 0.92), 1 - 10 powr (- 0.92), 1 - 10 powr (- 0.75))]"
  by (simp add: absorpt_def example_data_def example_densities)

lemma example_ocular: "ocular example_data 0 = [(390, 0.86)]"
  by (simp add: ocular_def example_data_def)

lemma example_lms_quantal: "lms_quantal example_data 0 0 = [(390, 1, 1, 1)]"
proof -
  have "macula example_data = [(390, 0)]" by (simp add: example_data_def)
  then show ?thesis
    by (simp add: lms_quantal_def example_absorpt example_ocular example_densities
        column_maxima_def divide_columns_def)
qed

lemma ceiling_log10_390: "\<lceil>log 10 (390::real)\<rceil> = 3"
proof (rule ceiling_unique)
  have "(10::real) powr 2 < 390" by simp
  then show "real_of_int 3 - 1 < log 10 390"
    by (simp add: less_log_iff del: powr_numeral)
  have "(390::real) \<le> 10 powr 3" by simp
  then show "log 10 390 \<le> real_of_int 3"
    by (simp add: log_le_iff del: powr_numeral)
qed

lemma example_lms_energy_base:
  "lms_energy_base example_data 0 0 = ([(390, 1, 1, 1)], Some (390, 390, 390))"
  by (simp add: lms_energy_base_def example_lms_quantal column_maxima_def divide_columns_def
      significant_figures4_def significant_figures_def ceiling_log10_390 my_round_def)

text \<open>
  C3 (as the spec has it) fails: for field size 0 and age 0 the table is synthesised, and
  for resolution -1 the grid is computed (it is empty). Nothing is rejected.
\<close>

theorem no_rejection_counterexample:
  "lms_energy_base example_data 0 0 = ([(390, 1, 1, 1)], Some (390, 390, 390)) \<and>
   lambdas_of (- 1) = Inr []"
  by (simp add: example_lms_energy_base lambdas_of_def arange_def)

subsection \<open>The reference locus at 2 and at 10 degrees\<close>

lemma map_err_nth:
  assumes "length ys = length xs" and "\<forall>i < length xs. f (xs ! i) = Inr (ys ! i)"
  shows "map_err f xs = Inr ys"
  using assms
proof (induction xs arbitrary: ys)
  case Nil
  then show ?case by simp
next
  case (Cons x xs)
  then obtain y ys' where ys: "ys = y # ys'" by (cases ys) auto
  with Cons.prems have len: "length ys' = length xs" by simp
  from Cons.prems(2) ys have hd: "f x = Inr y" by auto
  from Cons.prems(2) ys have "\<forall>i < length xs. f (xs ! i) = Inr (ys' ! i)" by auto
  with len have "map_err f xs = Inr ys'" by (rule Cons.IH)
  with hd ys show ?case by simp
qed

lemma map_err_values:
  assumes "\<forall>x \<in> set xs. \<exists>r. f x = Inr r \<and> P r"
  shows "\<exists>ys. map_err f xs = Inr ys \<and> length ys = length xs \<and> (\<forall>y \<in> set ys. P y)"
  using assms
proof (induction xs)
  case Nil
  then show ?case by simp
next
  case (Cons x xs)
  then obtain ys where "map_err f xs = Inr ys" "length ys = length xs" "\<forall>y \<in> set ys. P y"
    by auto
  moreover from Cons.prems obtain r where "f x = Inr r" "P r" by auto
  ultimately show ?case by auto
qed

lemma searchsorted_sorted:
  fixes xs :: "real list"
  assumes "sorted xs"
  shows "(\<forall>j < length (filter (\<lambda>k. k < v) xs). xs ! j < v) \<and>
         (\<forall>j. length (filter (\<lambda>k. k < v) xs) \<le> j \<and> j < length xs \<longrightarrow> v \<le> xs ! j)"
  using assms
proof (induction xs)
  case Nil
  then show ?case by simp
next
  case (Cons a xs)
  then have IH: "(\<forall>j < length (filter (\<lambda>k. k < v) xs). xs ! j < v) \<and>
         (\<forall>j. length (filter (\<lambda>k. k < v) xs) \<le> j \<and> j < length xs \<longrightarrow> v \<le> xs ! j)"
    and ge: "\<forall>y \<in> set xs. a \<le> y"
    by simp_all
  show ?case
  proof (cases "a < v")
    case True
    with IH show ?thesis by (auto simp: nth_Cons split: nat.split)
  next
    case False
    with ge have all: "\<forall>y \<in> set (a # xs). v \<le> y" by auto
    then have c0: "filter (\<lambda>k. k < v) (a # xs) = []"
      by (auto simp: filter_empty_conv)
    have "v \<le> (a # xs) ! j" if "j < length (a # xs)" for j
      using all that nth_mem by blast
    then show ?thesis by (simp only: c0) simp
  qed
qed

lemma interval_of_searchsorted:
  fixes xs :: "real list"
  assumes srt: "sorted xs" and len: "2 \<le> length xs"
    and lo: "xs ! 0 \<le> v" and hi: "v \<le> xs ! (length xs - 1)"
  defines "h \<equiv> min (max 1 (length (filter (\<lambda>k. k < v) xs))) (length xs - 1)"
  shows "1 \<le> h \<and> h < length xs \<and> xs ! (h - 1) \<le> v \<and> v \<le> xs ! h"
proof -
  let ?c = "length (filter (\<lambda>k. k < v) xs)"
  from searchsorted_sorted [OF srt, of v]
  have below: "\<forall>j < ?c. xs ! j < v"
    and above: "\<forall>j. ?c \<le> j \<and> j < length xs \<longrightarrow> v \<le> xs ! j"
    by blast+
  have c_le: "?c \<le> length xs" by simp
  have c_less: "?c < length xs"
  proof (rule ccontr)
    assume "\<not> ?c < length xs"
    with c_le have "length xs - 1 < ?c" using len by linarith
    with below have "xs ! (length xs - 1) < v" by blast
    with hi show False by simp
  qed
  show ?thesis
  proof (cases "?c = 0")
    case True
    then have h: "h = 1" using len by (simp add: h_def)
    from above True len have "v \<le> xs ! 1" by simp
    with h lo len show ?thesis by simp
  next
    case False
    with c_less have h: "h = ?c" unfolding h_def by linarith
    from False have "?c - 1 < ?c" by simp
    with below have "xs ! (?c - 1) < v" by blast
    moreover from above c_less have "v \<le> xs ! ?c" by blast
    moreover from False have "1 \<le> ?c" by (cases "filter (\<lambda>k. k < v) xs") simp_all
    ultimately show ?thesis using h c_less by simp
  qed
qed

text \<open>
  Between two neighbouring abscissae the linear interpolant is the rounded straight line.
\<close>

lemma interp1d_linear_sorted:
  assumes srt: "sorted_wrt (<) x" and leny: "length y = length x" and len: "2 \<le> length x"
    and lo: "x ! 0 \<le> v" and hi: "v \<le> x ! (length x - 1)"
  shows "\<exists>h. 1 \<le> h \<and> h < length x \<and> x ! (h - 1) \<le> v \<and> v \<le> x ! h \<and> x ! (h - 1) < x ! h \<and>
           interp1d_linear fl x y v =
             Inr (fl (fl (fl (fl (y ! h - y ! (h - 1)) / fl (x ! h - x ! (h - 1)))
                            * fl (v - x ! (h - 1)))
                      + y ! (h - 1)))"
proof -
  from srt have s: "sorted x" by (rule strict_sorted_imp_sorted)
  with leny have pts: "sort_key fst (zip x y) = zip x y"
    by (simp add: sort_key_id_if_sorted)
  from len have ne: "x \<noteq> []" by auto
  then have hd0: "hd x = x ! 0" and lastn: "last x = x ! (length x - 1)"
    by (simp_all add: hd_conv_nth last_conv_nth)
  define h where "h = min (max 1 (length (filter (\<lambda>k. k < v) x))) (length x - 1)"
  from interval_of_searchsorted [OF s len lo hi]
  have iv: "1 \<le> h \<and> h < length x \<and> x ! (h - 1) \<le> v \<and> v \<le> x ! h"
    unfolding h_def by simp
  then have "h - 1 < h" "h < length x" by simp_all
  with srt have strict: "x ! (h - 1) < x ! h" by (rule sorted_wrt_nth_less)
  have "interp1d_linear fl x y v =
      Inr (fl (fl (fl (fl (y ! h - y ! (h - 1)) / fl (x ! h - x ! (h - 1)))
                     * fl (v - x ! (h - 1)))
               + y ! (h - 1)))"
  proof -
    from ne leny have "y \<noteq> []" by auto
    with ne lo hi leny show ?thesis
      by (simp add: interp1d_linear_def pts Let_def hd0 lastn h_def)
  qed
  with iv strict show ?thesis by blast
qed

text \<open>
  If the rounding leaves the whole numbers up to 830 as they are, the interpolant through
  points \<open>(k, k)\<close> with whole \<open>k\<close> returns a whole argument as it is.
\<close>

lemma interp1d_linear_identity:
  assumes ints: "\<And>k::int. 0 \<le> k \<Longrightarrow> k \<le> 830 \<Longrightarrow> fl (of_int k) = of_int k"
    and srt: "sorted_wrt (<) x" and len: "2 \<le> length x"
    and whole: "\<forall>u \<in> set x. \<exists>k::int. u = of_int k \<and> 0 \<le> k \<and> k \<le> 830"
    and v: "v = of_int c"
    and lo: "x ! 0 \<le> v" and hi: "v \<le> x ! (length x - 1)"
  shows "interp1d_linear fl x x v = Inr v"
proof -
  from interp1d_linear_sorted [OF srt refl len lo hi, of fl] obtain h where
    h: "1 \<le> h" "h < length x" and below: "x ! (h - 1) \<le> v" and above: "v \<le> x ! h"
    and strict: "x ! (h - 1) < x ! h"
    and val: "interp1d_linear fl x x v =
      Inr (fl (fl (fl (fl (x ! h - x ! (h - 1)) / fl (x ! h - x ! (h - 1)))
                     * fl (v - x ! (h - 1)))
               + x ! (h - 1)))"
    by blast
  from h have "x ! h \<in> set x" "x ! (h - 1) \<in> set x" by simp_all
  with whole obtain a b :: int where
    a: "x ! h = of_int a" "0 \<le> a" "a \<le> 830" and b: "x ! (h - 1) = of_int b" "0 \<le> b" "b \<le> 830"
    by blast
  from below above strict v a b have order: "b \<le> c" "c \<le> a" "b < a" by simp_all
  have one: "fl 1 = 1" using ints [of 1] by simp
  have "fl (of_int a - of_int b) = of_int (a - b)"
    using ints [of "a - b"] a b order by simp
  moreover have "(of_int (a - b) :: real) / of_int (a - b) = 1"
    using order by simp
  moreover have "fl (of_int c - of_int b) = of_int (c - b)"
    using ints [of "c - b"] a b order by simp
  moreover have "fl (of_int (c - b)) = of_int (c - b)"
    using ints [of "c - b"] a b order by simp
  moreover have "fl (of_int (c - b) + of_int b) = of_int c"
    using ints [of c] a b order by simp
  ultimately have "fl (fl (fl (fl (of_int a - of_int b) / fl (of_int a - of_int b))
                     * fl (of_int c - of_int b)) + of_int b) = of_int c"
    by (simp only: one mult_1)
  with val a b v show ?thesis by (simp only:)
qed

lemma on_segment:
  fixes a b p q t :: real
  assumes "a \<le> p" "p \<le> b" "a \<le> q" "q \<le> b" "0 \<le> t" "t \<le> 1"
  shows "a \<le> p + t * (q - p) \<and> p + t * (q - p) \<le> b"
proof -
  have eq: "p + t * (q - p) = (1 - t) * p + t * q" by (simp add: algebra_simps)
  from assms have "(1 - t) * a \<le> (1 - t) * p" "t * a \<le> t * q"
    by (simp_all add: mult_left_mono)
  then have "a \<le> (1 - t) * p + t * q" by (simp add: algebra_simps)
  moreover from assms have "(1 - t) * p \<le> (1 - t) * b" "t * q \<le> t * b"
    by (simp_all add: mult_left_mono)
  then have "(1 - t) * p + t * q \<le> b" by (simp add: algebra_simps)
  ultimately show ?thesis by (simp only: eq)
qed

text \<open>In exact arithmetic the interpolant stays within the range of the ordinates.\<close>

lemma interp1d_linear_range:
  assumes srt: "sorted_wrt (<) x" and leny: "length y = length x" and len: "2 \<le> length x"
    and lo: "x ! 0 \<le> v" and hi: "v \<le> x ! (length x - 1)"
    and range: "\<forall>i < length y. a \<le> y ! i \<and> y ! i \<le> b"
  shows "\<exists>r. interp1d_linear exact x y v = Inr r \<and> a \<le> r \<and> r \<le> b"
proof -
  from interp1d_linear_sorted [OF srt leny len lo hi, of exact] obtain h where
    h: "1 \<le> h" "h < length x" "x ! (h - 1) \<le> v" "v \<le> x ! h" "x ! (h - 1) < x ! h" and
    val: "interp1d_linear exact x y v =
      Inr ((y ! h - y ! (h - 1)) / (x ! h - x ! (h - 1)) * (v - x ! (h - 1)) + y ! (h - 1))"
    unfolding exact_def by blast
  define t where "t = (v - x ! (h - 1)) / (x ! h - x ! (h - 1))"
  from h have t: "0 \<le> t" "t \<le> 1" by (simp_all add: t_def)
  from h leny range have "a \<le> y ! (h - 1)" "y ! (h - 1) \<le> b" "a \<le> y ! h" "y ! h \<le> b"
    by simp_all
  from on_segment [OF this t]
  have "a \<le> y ! (h - 1) + t * (y ! h - y ! (h - 1)) \<and> y ! (h - 1) + t * (y ! h - y ! (h - 1)) \<le> b" .
  moreover have "(y ! h - y ! (h - 1)) / (x ! h - x ! (h - 1)) * (v - x ! (h - 1)) + y ! (h - 1)
      = y ! (h - 1) + t * (y ! h - y ! (h - 1))"
    by (simp add: t_def)
  ultimately show ?thesis using val by simp
qed

lemma length_arange_360_831: "length arange_360_831 = 471"
  by (simp add: arange_360_831_def)

lemma arange_360_831_nth: "i < 471 \<Longrightarrow> arange_360_831 ! i = 360 + real i"
  by (simp add: arange_360_831_def)

lemma arange_360_831_bounds: "v \<in> set arange_360_831 \<Longrightarrow> 360 \<le> v \<and> v \<le> 830"
  by (auto simp: arange_360_831_def)

lemma arange_360_831_whole: "v \<in> set arange_360_831 \<Longrightarrow> \<exists>c::int. v = of_int c"
proof -
  assume "v \<in> set arange_360_831"
  then obtain i where "v = 360 + real i" by (auto simp: arange_360_831_def)
  then have "v = of_int (360 + int i)" by simp
  then show ?thesis by blast
qed

lemma standard_table_length: "standard_table fl xyz \<Longrightarrow> length xyz = 471"
  using length_arange_360_831 by (metis length_map standard_table_def)

lemma standard_table_wavelengths:
  "standard_table fl xyz \<Longrightarrow> map fst (cc_of_xyz fl xyz) = arange_360_831"
  by (simp add: standard_table_def cc_of_xyz_def comp_def)

text \<open>The knots of a standard table are wavelengths of the table, so whole numbers.\<close>

lemma standard_table_knots:
  assumes "standard_table fl xyz"
  shows "\<exists>j1 j2. knots_of (cc_of_xyz fl xyz) = [360, 360 + real j1, 360 + real j2, 700, 830] \<and>
           0 < j1 \<and> j1 < j2 \<and> j2 < 340"
proof -
  let ?cc = "cc_of_xyz fl xyz"
  have len: "length ?cc = 471"
    using standard_table_length [OF assms] by (simp add: cc_of_xyz_def)
  then have ne: "?cc \<noteq> []" by auto
  have w: "fst (?cc ! i) = 360 + real i" if "i < 471" for i
  proof -
    from standard_table_wavelengths [OF assms] that len
    have "fst (?cc ! i) = arange_360_831 ! i" by (metis nth_map)
    with that show ?thesis by (simp add: arange_360_831_nth)
  qed
  have first: "fst (?cc ! 0) = 360" using w [of 0] by simp
  have "last ?cc = ?cc ! 470" using ne len by (simp add: last_conv_nth)
  then have last: "fst (last ?cc) = 830" using w [of 470] by simp
  define j1 where "j1 = argmin (map col1 ?cc)"
  define j2 where "j2 = argmax (map col2 ?cc)"
  have "j1 < length (map col1 ?cc)" unfolding j1_def using ne
    by (intro argmin_less_length) simp
  then have j1: "j1 < 471" using len by simp
  have "j2 < length (map col2 ?cc)" unfolding j2_def using ne
    by (intro argmax_less_length) simp
  then have j2: "j2 < 471" using len by simp
  have K: "knots_of ?cc = [360, 360 + real j1, 360 + real j2, 700, 830]"
    using first last w [OF j1] w [OF j2] by (simp add: knots_of_def j1_def j2_def)
  from assms have "sorted_wrt (<) (knots_of ?cc)" by (simp add: standard_table_def)
  with K have "0 < j1 \<and> j1 < j2 \<and> j2 < 340" by simp
  with K show ?thesis by blast
qed

lemma knot_identity:
  assumes ints: "\<And>k::int. 0 \<le> k \<Longrightarrow> k \<le> 830 \<Longrightarrow> fl (of_int k) = of_int k"
    and KA: "KA = [360, 360 + real j1, 360 + real j2, 700, 830]"
    and sa: "0 < j1" "j1 < j2" "j2 < 340"
  shows "map_err (interp1d_linear fl KA KA) arange_360_831 = Inr arange_360_831"
proof -
  have srt: "sorted_wrt (<) KA" using sa by (simp add: KA)
  have len: "2 \<le> length KA" by (simp add: KA)
  have "\<exists>k::int. (360::real) = of_int k \<and> 0 \<le> k \<and> k \<le> 830"
    by (rule exI [of _ 360]) simp
  moreover have "\<exists>k::int. 360 + real j1 = of_int k \<and> 0 \<le> k \<and> k \<le> 830"
    using sa by (intro exI [of _ "360 + int j1"]) simp
  moreover have "\<exists>k::int. 360 + real j2 = of_int k \<and> 0 \<le> k \<and> k \<le> 830"
    using sa by (intro exI [of _ "360 + int j2"]) simp
  moreover have "\<exists>k::int. (700::real) = of_int k \<and> 0 \<le> k \<and> k \<le> 830"
    by (rule exI [of _ 700]) simp
  moreover have "\<exists>k::int. (830::real) = of_int k \<and> 0 \<le> k \<and> k \<le> 830"
    by (rule exI [of _ 830]) simp
  ultimately have whole: "\<forall>u \<in> set KA. \<exists>k::int. u = of_int k \<and> 0 \<le> k \<and> k \<le> 830"
    by (simp only: KA list.set ball_simps insert_iff empty_iff simp_thms)
  have id: "interp1d_linear fl KA KA v = Inr v" if "v \<in> set arange_360_831" for v
  proof -
    from arange_360_831_whole [OF that] obtain c :: int where c: "v = of_int c" by blast
    from arange_360_831_bounds [OF that] have "KA ! 0 \<le> v" "v \<le> KA ! (length KA - 1)"
      by (simp_all add: KA)
    with ints srt len whole c show ?thesis by (rule interp1d_linear_identity)
  qed
  show ?thesis by (rule map_err_nth) (simp_all add: id)
qed

lemma knot_range:
  assumes KA: "KA = [360, 360 + real a1, 360 + real a2, 700, 830]"
    and sa: "0 < a1" "a1 < a2" "a2 < 340"
    and KB: "KB = [360, 360 + real b1, 360 + real b2, 700, 830]"
    and sb: "0 < b1" "b1 < b2" "b2 < 340"
  shows "\<exists>lb. map_err (interp1d_linear exact KA KB) arange_360_831 = Inr lb \<and> length lb = 471 \<and>
              (\<forall>v \<in> set lb. 360 \<le> v \<and> v \<le> 830)"
proof -
  have srt: "sorted_wrt (<) KA" using sa by (simp add: KA)
  have len: "2 \<le> length KA" by (simp add: KA)
  have lo: "KA ! 0 \<le> v" and hi: "v \<le> KA ! (length KA - 1)"
    if "v \<in> set arange_360_831" for v
    using arange_360_831_bounds [OF that] by (simp_all add: KA)
  have lenB: "length KB = length KA" by (simp add: KA KB)
  have rangeB: "\<forall>i < length KB. 360 \<le> KB ! i \<and> KB ! i \<le> 830"
    using sb by (simp add: KB nth_Cons split: nat.split)
  have "\<exists>r. interp1d_linear exact KA KB v = Inr r \<and> 360 \<le> r \<and> r \<le> 830"
    if "v \<in> set arange_360_831" for v
    using srt lenB len lo [OF that] hi [OF that] rangeB by (rule interp1d_linear_range)
  then have "\<forall>v \<in> set arange_360_831.
      \<exists>r. interp1d_linear exact KA KB v = Inr r \<and> (360 \<le> r \<and> r \<le> 830)"
    by blast
  from map_err_values [OF this] show ?thesis
    by (simp add: length_arange_360_831)
qed

lemma cubic_at_nodes:
  assumes nodes: "\<And>ys i. length ys = 471 \<Longrightarrow> i < 471 \<Longrightarrow>
            cubic arange_360_831 ys (arange_360_831 ! i) = Inr (ys ! i)"
    and "length ys = 471"
  shows "map_err (cubic arange_360_831 ys) arange_360_831 = Inr ys"
  using assms by (intro map_err_nth) (simp_all add: length_arange_360_831)

lemma cubic_inside:
  assumes inside: "\<And>ys v. length ys = 471 \<Longrightarrow> 360 \<le> v \<Longrightarrow> v \<le> 830 \<Longrightarrow>
            \<exists>r. cubic arange_360_831 ys v = Inr r"
    and "length ys = 471" and "length lb = 471" and "\<forall>v \<in> set lb. 360 \<le> v \<and> v \<le> 830"
  shows "\<exists>zs. map_err (cubic arange_360_831 ys) lb = Inr zs"
proof -
  from assms have "\<forall>v \<in> set lb. \<exists>r. cubic arange_360_831 ys v = Inr r \<and> True" by simp
  from map_err_values [OF this] show ?thesis by blast
qed

text \<open>
  With weight 0 or 1 the blend hands on one of its two arguments, if that is a number
  that the rounding leaves as it is.
\<close>

lemma blended_rows_0:
  fixes fl :: rounding
  assumes "fl 0 = 0" and "fl 1 = 1"
    and "\<forall>i < 471. fl (ax ! i) = ax ! i \<and> fl (ay ! i) = ay ! i"
  shows "blended_rows fl 0 lambd ax bx ay by' =
     map (\<lambda>i. (lambd ! i, ax ! i, ay ! i, fl (fl (1 - ax ! i) - ay ! i))) [0..<471]"
  unfolding blended_rows_def Let_def
  by (rule map_cong [OF refl]) (simp add: assms)

lemma blended_rows_1:
  fixes fl :: rounding
  assumes "fl 0 = 0" and "fl 1 = 1"
    and "\<forall>i < 471. fl (bx ! i) = bx ! i \<and> fl (by' ! i) = by' ! i"
  shows "blended_rows fl 1 lambd ax bx ay by' =
     map (\<lambda>i. (lambd ! i, bx ! i, by' ! i, fl (fl (1 - bx ! i) - by' ! i))) [0..<471]"
  unfolding blended_rows_def Let_def
  by (rule map_cong [OF refl]) (simp add: assms)

lemma blended_knots_0:
  assumes ints: "\<And>k::int. 0 \<le> k \<Longrightarrow> k \<le> 830 \<Longrightarrow> fl (of_int k) = of_int k"
    and KA: "KA = [360, 360 + real a1, 360 + real a2, 700, 830]" and a: "a1 < 340" "a2 < 340"
    and KB: "KB = [360, b1, b2, 700, 830]"
  shows "(map2 (\<lambda>k31 k64. fl (fl (fl (1 - 0) * k31) + fl (0 * k64))) KA KB)
           [0 := 360,
            length (map2 (\<lambda>k31 k64. fl (fl (fl (1 - 0) * k31) + fl (0 * k64))) KA KB) - 1 := 830]
         = KA"
proof -
  have z: "fl 0 = 0" and o: "fl 1 = 1" using ints [of 0] ints [of 1] by simp_all
  have "fl (360 + real a1) = 360 + real a1" "fl (360 + real a2) = 360 + real a2"
    using ints [of "360 + int a1"] ints [of "360 + int a2"] a by simp_all
  moreover have "fl 700 = 700" using ints [of 700] by simp
  ultimately show ?thesis
    by (simp add: KA KB z o)
qed

lemma blended_knots_1:
  assumes ints: "\<And>k::int. 0 \<le> k \<Longrightarrow> k \<le> 830 \<Longrightarrow> fl (of_int k) = of_int k"
    and KA: "KA = [360, a1, a2, 700, 830]"
    and KB: "KB = [360, 360 + real b1, 360 + real b2, 700, 830]" and b: "b1 < 340" "b2 < 340"
  shows "(map2 (\<lambda>k31 k64. fl (fl (fl (1 - 1) * k31) + fl (1 * k64))) KA KB)
           [0 := 360,
            length (map2 (\<lambda>k31 k64. fl (fl (fl (1 - 1) * k31) + fl (1 * k64))) KA KB) - 1 := 830]
         = KB"
proof -
  have z: "fl 0 = 0" and o: "fl 1 = 1" using ints [of 0] ints [of 1] by simp_all
  have "fl (360 + real b1) = 360 + real b1" "fl (360 + real b2) = 360 + real b2"
    using ints [of "360 + int b1"] ints [of "360 + int b2"] b by simp_all
  moreover have "fl 700 = 700" using ints [of 700] by simp
  ultimately show ?thesis
    by (simp add: KA KB z o)
qed

lemma table_rows:
  assumes "map fst cc = arange_360_831"
  shows "map (\<lambda>i. (arange_360_831 ! i, map col1 cc ! i, map col2 cc ! i,
                   g (map col1 cc ! i) (map col2 cc ! i))) [0..<471]
         = map (\<lambda>r. (fst r, col1 r, col2 r, g (col1 r) (col2 r))) cc"
proof (rule nth_equalityI)
  from assms have len: "length cc = 471"
    using length_arange_360_831 by (metis length_map)
  then show "length (map (\<lambda>i. (arange_360_831 ! i, map col1 cc ! i, map col2 cc ! i,
                   g (map col1 cc ! i) (map col2 cc ! i))) [0..<471])
      = length (map (\<lambda>r. (fst r, col1 r, col2 r, g (col1 r) (col2 r))) cc)"
    by simp
  fix i
  assume "i < length (map (\<lambda>i. (arange_360_831 ! i, map col1 cc ! i, map col2 cc ! i,
                   g (map col1 cc ! i) (map col2 cc ! i))) [0..<471])"
  then have i: "i < 471" by simp
  with assms len have "fst (cc ! i) = arange_360_831 ! i" by (metis nth_map)
  with i len show "map (\<lambda>i. (arange_360_831 ! i, map col1 cc ! i, map col2 cc ! i,
                   g (map col1 cc ! i) (map col2 cc ! i))) [0..<471] ! i
      = map (\<lambda>r. (fst r, col1 r, col2 r, g (col1 r) (col2 r))) cc ! i"
    by simp
qed

text \<open>
  The two ends of the blend, for any rounding that leaves the whole numbers up to 830 and
  the chromaticities of the table as they are, and a cubic interpolant that returns the
  tabulated values at its nodes: the first two coordinates are those of the table, the
  third is computed from them. The other locus has weight 0, but its interpolants are
  evaluated, so they must have values.
\<close>

lemma chromaticity_interpolated_at_2:
  assumes ints: "\<And>k::int. 0 \<le> k \<Longrightarrow> k \<le> 830 \<Longrightarrow> fl (of_int k) = of_int k"
    and nodes: "\<And>ys i. length ys = 471 \<Longrightarrow> i < 471 \<Longrightarrow>
            cubic arange_360_831 ys (arange_360_831 ! i) = Inr (ys ! i)"
    and t31: "standard_table fl (xyz31 vd)"
    and t64: "standard_table fl (xyz64 vd)"
    and fixed: "\<forall>r \<in> set (cc_of_xyz fl (xyz31 vd)). fl (col1 r) = col1 r \<and> fl (col2 r) = col2 r"
    and l64: "map_err (interp1d_linear fl (knots_of (cc_of_xyz fl (xyz31 vd)))
                         (knots_of (cc_of_xyz fl (xyz64 vd)))) arange_360_831 = Inr lb"
    and bx: "map_err (cubic arange_360_831 (map col1 (cc_of_xyz fl (xyz64 vd)))) lb = Inr bx"
    and by': "map_err (cubic arange_360_831 (map col2 (cc_of_xyz fl (xyz64 vd)))) lb = Inr by'"
  shows "chromaticity_interpolated fl cubic vd 2
           = Inr (map (\<lambda>r. (fst r, col1 r, col2 r, fl (fl (1 - col1 r) - col2 r)))
                    (cc_of_xyz fl (xyz31 vd)))"
proof -
  let ?cc31 = "cc_of_xyz fl (xyz31 vd)" and ?cc64 = "cc_of_xyz fl (xyz64 vd)"
  have parts: "chromaticities_from_XYZ fl (xyz31 vd) (xyz64 vd)
      = (?cc31, ?cc64, knots_of ?cc31, knots_of ?cc64)"
    by (simp add: chromaticities_from_XYZ_def Let_def)
  from standard_table_length [OF t31] standard_table_length [OF t64]
  have ne: "xyz31 vd \<noteq> []" "xyz64 vd \<noteq> []" by auto
  have len: "length ?cc31 = 471" "length ?cc64 = 471"
    using standard_table_length [OF t31] standard_table_length [OF t64]
    by (simp_all add: cc_of_xyz_def)
  note w31 = standard_table_wavelengths [OF t31] and w64 = standard_table_wavelengths [OF t64]
  from standard_table_knots [OF t31] obtain a1 a2 where
    K31: "knots_of ?cc31 = [360, 360 + real a1, 360 + real a2, 700, 830]"
    and s31: "0 < a1" "a1 < a2" "a2 < 340"
    by blast
  from standard_table_knots [OF t64] obtain b1 b2 where
    K64: "knots_of ?cc64 = [360, 360 + real b1, 360 + real b2, 700, 830]"
    by blast
  have z: "fl 0 = 0" and o: "fl 1 = 1" using ints [of 0] ints [of 1] by simp_all
  have x31: "map_err (cubic arange_360_831 (map col1 ?cc31)) arange_360_831 = Inr (map col1 ?cc31)"
    and y31: "map_err (cubic arange_360_831 (map col2 ?cc31)) arange_360_831 = Inr (map col2 ?cc31)"
    using len by (simp_all add: cubic_at_nodes [where cubic = cubic, OF nodes])
  have cond: "(xyz31 vd = [] \<or> xyz64 vd = []) = False" using ne by simp
  have alpha: "fl (fl ((2::real) - 2) / 8) = 0" using z by simp
  from s31 have a1: "a1 < 340" by simp
  have knots: "(map2 (\<lambda>k31 k64. fl (fl (fl (1 - 0) * k31) + fl (0 * k64)))
                  (knots_of ?cc31) (knots_of ?cc64))
        [0 := 360, length (map2 (\<lambda>k31 k64. fl (fl (fl (1 - 0) * k31) + fl (0 * k64)))
                     (knots_of ?cc31) (knots_of ?cc64)) - 1 := 830] = knots_of ?cc31"
    using ints K31 a1 s31(3) K64 by (rule blended_knots_0)
  have l31: "map_err (interp1d_linear fl (knots_of ?cc31) (knots_of ?cc31)) arange_360_831
              = Inr arange_360_831"
    using ints K31 s31 by (rule knot_identity)
  have "chromaticity_interpolated fl cubic vd 2 =
      Inr (blended_rows fl 0 arange_360_831 (map col1 ?cc31) bx (map col2 ?cc31) by')"
    by (simp only: chromaticity_interpolated_def cond if_False parts fst_conv snd_conv
        Let_def alpha knots l31 l64 then_err_def sum.case w31 w64 x31 y31 bx by')
  moreover have "\<forall>i < 471. fl (map col1 ?cc31 ! i) = map col1 ?cc31 ! i \<and>
                          fl (map col2 ?cc31 ! i) = map col2 ?cc31 ! i"
    using fixed len by simp
  ultimately have "chromaticity_interpolated fl cubic vd 2 =
      Inr (map (\<lambda>i. (arange_360_831 ! i, map col1 ?cc31 ! i, map col2 ?cc31 ! i,
                      fl (fl (1 - map col1 ?cc31 ! i) - map col2 ?cc31 ! i))) [0..<471])"
    using blended_rows_0 [OF z o] by simp
  then show ?thesis
    using table_rows [OF w31, of "\<lambda>x y. fl (fl (1 - x) - y)"] by simp
qed

lemma chromaticity_interpolated_at_10:
  assumes ints: "\<And>k::int. 0 \<le> k \<Longrightarrow> k \<le> 830 \<Longrightarrow> fl (of_int k) = of_int k"
    and nodes: "\<And>ys i. length ys = 471 \<Longrightarrow> i < 471 \<Longrightarrow>
            cubic arange_360_831 ys (arange_360_831 ! i) = Inr (ys ! i)"
    and t31: "standard_table fl (xyz31 vd)"
    and t64: "standard_table fl (xyz64 vd)"
    and fixed: "\<forall>r \<in> set (cc_of_xyz fl (xyz64 vd)). fl (col1 r) = col1 r \<and> fl (col2 r) = col2 r"
    and l31: "map_err (interp1d_linear fl (knots_of (cc_of_xyz fl (xyz64 vd)))
                         (knots_of (cc_of_xyz fl (xyz31 vd)))) arange_360_831 = Inr la"
    and ax: "map_err (cubic arange_360_831 (map col1 (cc_of_xyz fl (xyz31 vd)))) la = Inr ax"
    and ay: "map_err (cubic arange_360_831 (map col2 (cc_of_xyz fl (xyz31 vd)))) la = Inr ay"
  shows "chromaticity_interpolated fl cubic vd 10
           = Inr (map (\<lambda>r. (fst r, col1 r, col2 r, fl (fl (1 - col1 r) - col2 r)))
                    (cc_of_xyz fl (xyz64 vd)))"
proof -
  let ?cc31 = "cc_of_xyz fl (xyz31 vd)" and ?cc64 = "cc_of_xyz fl (xyz64 vd)"
  have parts: "chromaticities_from_XYZ fl (xyz31 vd) (xyz64 vd)
      = (?cc31, ?cc64, knots_of ?cc31, knots_of ?cc64)"
    by (simp add: chromaticities_from_XYZ_def Let_def)
  from standard_table_length [OF t31] standard_table_length [OF t64]
  have ne: "xyz31 vd \<noteq> []" "xyz64 vd \<noteq> []" by auto
  have len: "length ?cc31 = 471" "length ?cc64 = 471"
    using standard_table_length [OF t31] standard_table_length [OF t64]
    by (simp_all add: cc_of_xyz_def)
  note w31 = standard_table_wavelengths [OF t31] and w64 = standard_table_wavelengths [OF t64]
  from standard_table_knots [OF t31] obtain a1 a2 where
    K31: "knots_of ?cc31 = [360, 360 + real a1, 360 + real a2, 700, 830]"
    by blast
  from standard_table_knots [OF t64] obtain b1 b2 where
    K64: "knots_of ?cc64 = [360, 360 + real b1, 360 + real b2, 700, 830]"
    and s64: "0 < b1" "b1 < b2" "b2 < 340"
    by blast
  have z: "fl 0 = 0" and o: "fl 1 = 1" and e: "fl 8 = 8"
    using ints [of 0] ints [of 1] ints [of 8] by simp_all
  have x64: "map_err (cubic arange_360_831 (map col1 ?cc64)) arange_360_831 = Inr (map col1 ?cc64)"
    and y64: "map_err (cubic arange_360_831 (map col2 ?cc64)) arange_360_831 = Inr (map col2 ?cc64)"
    using len by (simp_all add: cubic_at_nodes [where cubic = cubic, OF nodes])
  have cond: "(xyz31 vd = [] \<or> xyz64 vd = []) = False" using ne by simp
  have alpha: "fl (fl ((10::real) - 2) / 8) = 1" using o e by simp
  from s64 have b1: "b1 < 340" by simp
  have knots: "(map2 (\<lambda>k31 k64. fl (fl (fl (1 - 1) * k31) + fl (1 * k64)))
                  (knots_of ?cc31) (knots_of ?cc64))
        [0 := 360, length (map2 (\<lambda>k31 k64. fl (fl (fl (1 - 1) * k31) + fl (1 * k64)))
                     (knots_of ?cc31) (knots_of ?cc64)) - 1 := 830] = knots_of ?cc64"
    using ints K31 K64 b1 s64(3) by (rule blended_knots_1)
  have l64: "map_err (interp1d_linear fl (knots_of ?cc64) (knots_of ?cc64)) arange_360_831
              = Inr arange_360_831"
    using ints K64 s64 by (rule knot_identity)
  have "chromaticity_interpolated fl cubic vd 10 =
      Inr (blended_rows fl 1 arange_360_831 ax (map col1 ?cc64) ay (map col2 ?cc64))"
    by (simp only: chromaticity_interpolated_def cond if_False parts fst_conv snd_conv
        Let_def alpha knots l31 l64 then_err_def sum.case w31 w64 x64 y64 ax ay)
  moreover have "\<forall>i < 471. fl (map col1 ?cc64 ! i) = map col1 ?cc64 ! i \<and>
                          fl (map col2 ?cc64 ! i) = map col2 ?cc64 ! i"
    using fixed len by simp
  ultimately have "chromaticity_interpolated fl cubic vd 10 =
      Inr (map (\<lambda>i. (arange_360_831 ! i, map col1 ?cc64 ! i, map col2 ?cc64 ! i,
                      fl (fl (1 - map col1 ?cc64 ! i) - map col2 ?cc64 ! i))) [0..<471])"
    using blended_rows_1 [OF z o] by simp
  then show ?thesis
    using table_rows [OF w64, of "\<lambda>x y. fl (fl (1 - x) - y)"] by simp
qed

text \<open>In exact arithmetic the third coordinate of the table is one minus the other two.\<close>

lemma chromaticity_fl_exact: "chromaticity_fl exact u = chromaticity u"
  by (simp add: chromaticity_fl_def chromaticity_def exact_def Let_def split: prod.split)

lemma exact_rows:
  assumes "standard_table exact xyz"
  shows "map (\<lambda>r. (fst r, col1 r, col2 r, exact (exact (1 - col1 r) - col2 r)))
           (cc_of_xyz exact xyz) = cc_of_xyz exact xyz"
proof -
  have "(fst r, col1 r, col2 r, exact (exact (1 - col1 r) - col2 r)) = r"
    if "r \<in> set (cc_of_xyz exact xyz)" for r
  proof -
    from that obtain u where u: "u \<in> set xyz" and r: "r = (fst u, chromaticity (snd u))"
      by (auto simp: cc_of_xyz_def chromaticity_fl_exact)
    from assms u have nz: "tristimulus_sum (snd u) \<noteq> 0"
      by (simp add: standard_table_def list_all_iff)
    obtain x y z where c: "chromaticity (snd u) = (x, y, z)"
      by (cases "chromaticity (snd u)") auto
    with chromaticity_sum [OF nz] have "z = 1 - x - y" by simp
    with r c show ?thesis by (simp add: exact_def)
  qed
  then show ?thesis by (simp add: map_idI)
qed

text \<open>
  C7 (in exact arithmetic). For standard tables and a cubic interpolant that goes through
  its nodes and has a value everywhere between 360 and 830 nm, \<open>chromaticity_interpolated\<close>
  computed with real numbers returns the chromaticities \<open>cc31\<close> at field size 2 and
  \<open>cc64\<close> at field size 10.
\<close>

theorem chromaticity_interpolated_endpoints_exact:
  assumes nodes: "\<And>ys i. length ys = 471 \<Longrightarrow> i < 471 \<Longrightarrow>
            cubic arange_360_831 ys (arange_360_831 ! i) = Inr (ys ! i)"
    and inside: "\<And>ys v. length ys = 471 \<Longrightarrow> 360 \<le> v \<Longrightarrow> v \<le> 830 \<Longrightarrow>
            \<exists>r. cubic arange_360_831 ys v = Inr r"
    and t31: "standard_table exact (xyz31 vd)"
    and t64: "standard_table exact (xyz64 vd)"
  shows "chromaticity_interpolated exact cubic vd 2
           = Inr (fst (chromaticities_from_XYZ exact (xyz31 vd) (xyz64 vd))) \<and>
         chromaticity_interpolated exact cubic vd 10
           = Inr (fst (snd (chromaticities_from_XYZ exact (xyz31 vd) (xyz64 vd))))"
proof -
  let ?cc31 = "cc_of_xyz exact (xyz31 vd)" and ?cc64 = "cc_of_xyz exact (xyz64 vd)"
  have parts: "chromaticities_from_XYZ exact (xyz31 vd) (xyz64 vd)
      = (?cc31, ?cc64, knots_of ?cc31, knots_of ?cc64)"
    by (simp add: chromaticities_from_XYZ_def Let_def)
  have ints: "\<And>k::int. 0 \<le> k \<Longrightarrow> k \<le> 830 \<Longrightarrow> exact (of_int k) = of_int k"
    by (simp add: exact_def)
  have fixed31: "\<forall>r \<in> set ?cc31. exact (col1 r) = col1 r \<and> exact (col2 r) = col2 r"
    and fixed64: "\<forall>r \<in> set ?cc64. exact (col1 r) = col1 r \<and> exact (col2 r) = col2 r"
    by (simp_all add: exact_def)
  have len: "length ?cc31 = 471" "length ?cc64 = 471"
    using standard_table_length [OF t31] standard_table_length [OF t64]
    by (simp_all add: cc_of_xyz_def)
  from standard_table_knots [OF t31] obtain a1 a2 where
    K31: "knots_of ?cc31 = [360, 360 + real a1, 360 + real a2, 700, 830]"
    and s31: "0 < a1" "a1 < a2" "a2 < 340"
    by blast
  from standard_table_knots [OF t64] obtain b1 b2 where
    K64: "knots_of ?cc64 = [360, 360 + real b1, 360 + real b2, 700, 830]"
    and s64: "0 < b1" "b1 < b2" "b2 < 340"
    by blast
  have at2: "chromaticity_interpolated exact cubic vd 2 = Inr ?cc31"
  proof -
    from knot_range [OF K31 s31 K64 s64] obtain lb where
      l64: "map_err (interp1d_linear exact (knots_of ?cc31) (knots_of ?cc64)) arange_360_831
              = Inr lb"
      and lb: "length lb = 471" "\<forall>v \<in> set lb. 360 \<le> v \<and> v \<le> 830"
      by blast
    from cubic_inside [where cubic = cubic, OF inside _ lb] len obtain bx where
      bx: "map_err (cubic arange_360_831 (map col1 ?cc64)) lb = Inr bx"
      by fastforce
    from cubic_inside [where cubic = cubic, OF inside _ lb] len obtain by' where
      by': "map_err (cubic arange_360_831 (map col2 ?cc64)) lb = Inr by'"
      by fastforce
    have "chromaticity_interpolated exact cubic vd 2
        = Inr (map (\<lambda>r. (fst r, col1 r, col2 r, exact (exact (1 - col1 r) - col2 r))) ?cc31)"
      using ints nodes t31 t64 fixed31 l64 bx by'
      by (rule chromaticity_interpolated_at_2)
    then show ?thesis by (simp only: exact_rows [OF t31])
  qed
  have at10: "chromaticity_interpolated exact cubic vd 10 = Inr ?cc64"
  proof -
    from knot_range [OF K64 s64 K31 s31] obtain la where
      l31: "map_err (interp1d_linear exact (knots_of ?cc64) (knots_of ?cc31)) arange_360_831
              = Inr la"
      and la: "length la = 471" "\<forall>v \<in> set la. 360 \<le> v \<and> v \<le> 830"
      by blast
    from cubic_inside [where cubic = cubic, OF inside _ la] len obtain ax where
      ax: "map_err (cubic arange_360_831 (map col1 ?cc31)) la = Inr ax"
      by fastforce
    from cubic_inside [where cubic = cubic, OF inside _ la] len obtain ay where
      ay: "map_err (cubic arange_360_831 (map col2 ?cc31)) la = Inr ay"
      by fastforce
    have "chromaticity_interpolated exact cubic vd 10
        = Inr (map (\<lambda>r. (fst r, col1 r, col2 r, exact (exact (1 - col1 r) - col2 r))) ?cc64)"
      using ints nodes t31 t64 fixed64 l31 ax ay
      by (rule chromaticity_interpolated_at_10)
    then show ?thesis by (simp only: exact_rows [OF t64])
  qed
  from at2 at10 show ?thesis by (simp add: parts)
qed


lemma argmax_unique:
  assumes "k < length xs" and "\<forall>i<length xs. i \<noteq> k \<longrightarrow> xs ! i < xs ! k"
  shows "argmax xs = k"
proof (rule ccontr)
  assume ne: "argmax xs \<noteq> k"
  from assms(1) have "xs \<noteq> []" by auto
  then have "argmax xs < length xs" by (rule argmax_less_length)
  with assms(2) ne have "xs ! argmax xs < xs ! k" by simp
  moreover from assms(1) have "xs ! k \<le> xs ! argmax xs" by (rule argmax_ge)
  ultimately show False by simp
qed

lemma example_cc_nth:
  assumes "i < 471"
  shows "cc_of_xyz fl (example_xyz p q) ! i =
     (360 + real i,
      if i = p then chromaticity_fl fl (1, 2, 3)
      else if i = q then chromaticity_fl fl (2, 3, 1) else chromaticity_fl fl (2, 2, 2))"
  using assms by (simp add: cc_of_xyz_def example_xyz_def)

lemma length_example_cc: "length (cc_of_xyz fl (example_xyz p q)) = 471"
  by (simp add: cc_of_xyz_def example_xyz_def)

lemma example_knots:
  assumes "p < 471" and "q < 471" and "p \<noteq> q"
    and c: "chromaticity_fl fl (1, 2, 3) = (x1, y1, z1)"
      "chromaticity_fl fl (2, 3, 1) = (x2, y2, z2)"
      "chromaticity_fl fl (2, 2, 2) = (x3, y3, z3)"
    and less: "x1 < x2" "x1 < x3" "y1 < y2" "y3 < y2"
  shows "knots_of (cc_of_xyz fl (example_xyz p q)) = [360, 360 + real p, 360 + real q, 700, 830]"
proof -
  let ?cc = "cc_of_xyz fl (example_xyz p q)"
  have amin: "argmin (map col1 ?cc) = p"
    using assms by (intro argmin_unique) (simp_all add: length_example_cc example_cc_nth)
  have amax: "argmax (map col2 ?cc) = q"
    using assms by (intro argmax_unique) (simp_all add: length_example_cc example_cc_nth)
  have "?cc \<noteq> []" using length_example_cc [of fl p q] by auto
  then have "last ?cc = ?cc ! 470" by (simp add: last_conv_nth length_example_cc)
  then have last: "fst (last ?cc) = 830" by (simp add: example_cc_nth)
  show ?thesis
    using assms(1,2) by (simp add: knots_of_def amin amax last example_cc_nth)
qed

lemma example_standard_table:
  assumes "0 < p" and "p < q" and "q < 340"
    and c: "chromaticity_fl fl (1, 2, 3) = (x1, y1, z1)"
      "chromaticity_fl fl (2, 3, 1) = (x2, y2, z2)"
      "chromaticity_fl fl (2, 2, 2) = (x3, y3, z3)"
    and less: "x1 < x2" "x1 < x3" "y1 < y2" "y3 < y2"
  shows "standard_table fl (example_xyz p q)"
proof -
  have "map fst (example_xyz p q) = arange_360_831"
    by (simp add: example_xyz_def arange_360_831_def)
  moreover have "list_all (\<lambda>r. tristimulus_sum (snd r) \<noteq> 0) (example_xyz p q)"
    by (simp add: example_xyz_def list_all_iff tristimulus_sum_def)
  moreover have "knots_of (cc_of_xyz fl (example_xyz p q))
      = [360, 360 + real p, 360 + real q, 700, 830]"
    using assms(1-3) by (intro example_knots [OF _ _ _ c less]) simp_all
  then have "sorted_wrt (<) (knots_of (cc_of_xyz fl (example_xyz p q)))"
    using assms(1-3) by simp
  ultimately show ?thesis by (simp add: standard_table_def)
qed

lemma example_cubic_nodes:
  assumes "length ys = 471" and "i < 471"
  shows "example_cubic arange_360_831 ys (arange_360_831 ! i) = Inr (ys ! i)"
  using assms by (simp add: example_cubic_def arange_360_831_nth)

lemma example_cubic_inside:
  assumes "length ys = 471" and "360 \<le> v" and "v \<le> 830"
  shows "\<exists>r. example_cubic arange_360_831 ys v = Inr r"
  using assms by (simp add: example_cubic_def)

lemma example_chromaticities_exact:
  "chromaticity_fl exact (1, 2, 3) = (1 / 6, 1 / 3, 1 / 2)"
  "chromaticity_fl exact (2, 3, 1) = (1 / 3, 1 / 2, 1 / 6)"
  "chromaticity_fl exact (2, 2, 2) = (1 / 3, 1 / 3, 1 / 3)"
  by (simp_all add: chromaticity_fl_def exact_def)

lemma example_standard_table_exact:
  assumes "0 < p" and "p < q" and "q < 340"
  shows "standard_table exact (example_xyz p q)"
  using assms by (rule example_standard_table [OF _ _ _ example_chromaticities_exact]) simp_all

theorem chromaticity_interpolated_endpoints_exact_witness:
  "chromaticity_interpolated exact example_cubic example_cie 2
     = Inr (cc_of_xyz exact (example_xyz 144 160)) \<and>
   chromaticity_interpolated exact example_cubic example_cie 10
     = Inr (cc_of_xyz exact (example_xyz 140 170))"
proof -
  have t31: "standard_table exact (xyz31 example_cie)"
    by (simp add: example_cie_def example_standard_table_exact)
  have t64: "standard_table exact (xyz64 example_cie)"
    by (simp add: example_cie_def example_standard_table_exact)
  from chromaticity_interpolated_endpoints_exact
    [of example_cubic example_cie, OF example_cubic_nodes example_cubic_inside t31 t64]
  show ?thesis
    by (simp add: chromaticities_from_XYZ_def example_cie_def Let_def)
qed

text \<open>
  The rounding to binary64: a positive number between two neighbouring powers of two is
  rounded to a multiple of the lower power divided by \<open>2 ^ 52\<close>, and whole numbers up
  to 830 are left as they are.
\<close>

lemma two_powr: "2 powr of_int k = (2::real) powi k"
  by (rule powr_real_of_int') simp_all

lemma binary64_eval:
  assumes "0 < x" and "2 powi e \<le> x" and "x < 2 powi (e + 1)"
  shows "binary64 x = of_int (round_half_even (x / 2 powi (e - 52))) * 2 powi (e - 52)"
proof -
  have "\<lfloor>log 2 x\<rfloor> = e"
  proof (rule floor_unique)
    from assms(2) have "2 powr of_int e \<le> x" by (simp only: two_powr)
    with assms(1) show "of_int e \<le> log 2 x"
      by (simp add: le_log_iff)
    from assms(3) have "x < 2 powr of_int (e + 1)" by (simp only: two_powr)
    with assms(1) have "log 2 x < of_int (e + 1)"
      by (simp only: log_less_iff [of 2 x "of_int (e + 1)"]) 
    then show "log 2 x < of_int e + 1" by simp
  qed
  with assms(1) show ?thesis by (simp add: binary64_def Let_def)
qed

lemma round_half_even_of_int: "round_half_even (of_int m) = m"
  by (simp add: round_half_even_def)

lemma binary64_whole:
  assumes "0 \<le> k" and "k \<le> 830"
  shows "binary64 (of_int k) = of_int k"
proof (cases "k = 0")
  case True
  then show ?thesis by (simp add: binary64_def)
next
  case False
  with assms have pos: "0 < k" by simp
  define e where "e = \<lfloor>log 2 (of_int k)\<rfloor>"
  from pos assms have "log 2 (of_int k) \<le> log 2 1024" by simp
  moreover have "log 2 ((2::real) ^ 10) = real 10 * log 2 2"
    by (rule log_nat_power) simp
  then have "log 2 (1024::real) = 10" by simp
  ultimately have "log 2 (of_int k) < 11" by simp
  then have e: "e \<le> 52" unfolding e_def by (simp add: floor_le_iff)
  define n where "n = nat (52 - e)"
  have "e - 52 = - int n" using e by (simp add: n_def)
  then have "2 powi (e - 52) = (2::real) powi (- int n)" by (simp only:)
  also have "\<dots> = inverse (2 powi int n)" by (rule power_int_minus)
  also have "\<dots> = 1 / 2 ^ n" by (simp add: inverse_eq_divide)
  finally have ulp: "2 powi (e - 52) = 1 / (2::real) ^ n" .
  then have "real_of_int k / 2 powi (e - 52) = real_of_int (k * 2 ^ n)"
    by simp
  then have "round_half_even (real_of_int k / 2 powi (e - 52)) = k * 2 ^ n"
    by (simp only: round_half_even_of_int)
  with pos show ?thesis
    by (simp add: binary64_def Let_def e_def [symmetric] ulp)
qed

lemma binary64_values:
  "binary64 (1 / 3) = 6004799503160661 / 2 ^ 54"
  "binary64 (1 / 6) = 6004799503160661 / 2 ^ 55"
  "binary64 (1 / 2) = 1 / 2"
  "binary64 (6004799503160661 / 2 ^ 54) = 6004799503160661 / 2 ^ 54"
  "binary64 (6004799503160661 / 2 ^ 55) = 6004799503160661 / 2 ^ 55"
  "binary64 (1 - 6004799503160661 / 2 ^ 54) = 6004799503160662 / 2 ^ 53"
  "binary64 (6004799503160662 / 2 ^ 53 - 1 / 2) = 6004799503160664 / 2 ^ 55"
proof -
  show "binary64 (1 / 3) = 6004799503160661 / 2 ^ 54"
    by (subst binary64_eval [of _ "- 2"]) (simp_all add: round_half_even_def)
  show "binary64 (1 / 6) = 6004799503160661 / 2 ^ 55"
    by (subst binary64_eval [of _ "- 3"]) (simp_all add: round_half_even_def)
  show "binary64 (1 / 2) = 1 / 2"
    by (subst binary64_eval [of _ "- 1"]) (simp_all add: round_half_even_def)
  show "binary64 (6004799503160661 / 2 ^ 54) = 6004799503160661 / 2 ^ 54"
    by (subst binary64_eval [of _ "- 2"]) (simp_all add: round_half_even_def)
  show "binary64 (6004799503160661 / 2 ^ 55) = 6004799503160661 / 2 ^ 55"
    by (subst binary64_eval [of _ "- 3"]) (simp_all add: round_half_even_def)
  show "binary64 (1 - 6004799503160661 / 2 ^ 54) = 6004799503160662 / 2 ^ 53"
    by (subst binary64_eval [of _ "- 1"]) (simp_all add: round_half_even_def)
  show "binary64 (6004799503160662 / 2 ^ 53 - 1 / 2) = 6004799503160664 / 2 ^ 55"
    by (subst binary64_eval [of _ "- 3"]) (simp_all add: round_half_even_def)
qed


lemma example_chromaticities_binary64:
  "chromaticity_fl binary64 (1, 2, 3)
     = (6004799503160661 / 2 ^ 55, 6004799503160661 / 2 ^ 54, 1 / 2)"
  "chromaticity_fl binary64 (2, 3, 1)
     = (6004799503160661 / 2 ^ 54, 1 / 2, 6004799503160661 / 2 ^ 55)"
  "chromaticity_fl binary64 (2, 2, 2)
     = (6004799503160661 / 2 ^ 54, 6004799503160661 / 2 ^ 54, 6004799503160661 / 2 ^ 54)"
  using binary64_whole [of 3] binary64_whole [of 4] binary64_whole [of 5] binary64_whole [of 6]
  by (simp_all add: chromaticity_fl_def binary64_values)

lemma example_standard_table_binary64: "standard_table binary64 (example_xyz 144 160)"
  by (rule example_standard_table [OF _ _ _ example_chromaticities_binary64]) simp_all

lemma example_table_binary64:
  "chromaticity_interpolated binary64 example_cubic example_cie_alike 2
     = Inr (map (\<lambda>r. (fst r, col1 r, col2 r, binary64 (binary64 (1 - col1 r) - col2 r)))
              (cc_of_xyz binary64 (example_xyz 144 160)))"
proof -
  let ?cc = "cc_of_xyz binary64 (example_xyz 144 160)"
  have tables: "xyz31 example_cie_alike = example_xyz 144 160"
    "xyz64 example_cie_alike = example_xyz 144 160"
    by (simp_all add: example_cie_alike_def)
  note t = example_standard_table_binary64
  have len: "length ?cc = 471" by (rule length_example_cc)
  have fixed: "\<forall>r \<in> set ?cc. binary64 (col1 r) = col1 r \<and> binary64 (col2 r) = col2 r"
  proof
    fix r
    assume "r \<in> set ?cc"
    then obtain i where "i < 471" and "r = ?cc ! i"
      using len by (auto simp: in_set_conv_nth)
    then show "binary64 (col1 r) = col1 r \<and> binary64 (col2 r) = col2 r"
      by (simp add: example_cc_nth example_chromaticities_binary64
          binary64_values [simplified])
  qed
  have K: "knots_of ?cc = [360, 360 + real 144, 360 + real 160, 700, 830]"
    by (rule example_knots [OF _ _ _ example_chromaticities_binary64]) simp_all
  have l64: "map_err (interp1d_linear binary64 (knots_of ?cc) (knots_of ?cc)) arange_360_831
      = Inr arange_360_831"
    using binary64_whole K by (rule knot_identity) simp_all
  have bx: "map_err (example_cubic arange_360_831 (map col1 ?cc)) arange_360_831
      = Inr (map col1 ?cc)"
    and by': "map_err (example_cubic arange_360_831 (map col2 ?cc)) arange_360_831
      = Inr (map col2 ?cc)"
    using len by (simp_all add: cubic_at_nodes [where cubic = example_cubic, OF example_cubic_nodes])
  from chromaticity_interpolated_at_2
    [of binary64 example_cubic example_cie_alike, OF binary64_whole example_cubic_nodes]
    t fixed l64 bx by'
  show ?thesis by (simp only: tables)
qed

text \<open>
  C7 (as the spec has it) fails in the floating-point arithmetic of the program. For the
  table with the values \<open>(2, 3, 1)\<close> at 520 nm, and an interpolant that returns the
  tabulated values at its nodes, the row of \<open>cc31\<close> at 520 nm has
  \<open>z = 6004799503160661 / 2 ^ 55\<close> (0.16666666666666666), the quotient 1/6 rounded,
  and the row returned for field size 2 has the same \<open>x\<close> and \<open>y\<close> but
  \<open>z = 6004799503160664 / 2 ^ 55\<close> (0.16666666666666674), from the two subtractions.
\<close>

theorem chromaticity_interpolated_binary64_counterexample:
  "chromaticity_interpolated binary64 example_cubic example_cie_alike 2
     \<noteq> Inr (fst (chromaticities_from_XYZ binary64 (xyz31 example_cie_alike)
                     (xyz64 example_cie_alike))) \<and>
   chromaticity_interpolated binary64 example_cubic example_cie_alike 2
     = Inr (map (\<lambda>r. (fst r, col1 r, col2 r, binary64 (binary64 (1 - col1 r) - col2 r)))
              (fst (chromaticities_from_XYZ binary64 (xyz31 example_cie_alike)
                      (xyz64 example_cie_alike)))) \<and>
   fst (chromaticities_from_XYZ binary64 (xyz31 example_cie_alike) (xyz64 example_cie_alike)) ! 160
     = (520, 6004799503160661 / 2 ^ 54, 1 / 2, 6004799503160661 / 2 ^ 55) \<and>
   binary64 (binary64 (1 - 6004799503160661 / 2 ^ 54) - 1 / 2) = 6004799503160664 / 2 ^ 55"
proof -
  let ?cc = "cc_of_xyz binary64 (example_xyz 144 160)"
  let ?rows = "map (\<lambda>r. (fst r, col1 r, col2 r, binary64 (binary64 (1 - col1 r) - col2 r))) ?cc"
  have parts: "fst (chromaticities_from_XYZ binary64 (xyz31 example_cie_alike)
                      (xyz64 example_cie_alike)) = ?cc"
    by (simp add: chromaticities_from_XYZ_def example_cie_alike_def Let_def)
  have row: "?cc ! 160 = (520, 6004799503160661 / 2 ^ 54, 1 / 2, 6004799503160661 / 2 ^ 55)"
    by (simp add: example_cc_nth example_chromaticities_binary64)
  have z: "binary64 (binary64 (1 - 6004799503160661 / 2 ^ 54) - 1 / 2)
             = 6004799503160664 / 2 ^ 55"
    by (simp only: binary64_values)
  have "?rows ! 160 = (520, 6004799503160661 / 2 ^ 54, 1 / 2, 6004799503160664 / 2 ^ 55)"
    using row z by (simp add: length_example_cc)
  with row have "?rows ! 160 \<noteq> ?cc ! 160" by simp
  then have "?rows \<noteq> ?cc" by metis
  with example_table_binary64 row z show ?thesis
    by (simp only: parts) simp
qed

subsection \<open>The ocular media\<close>

lemma ocular_nth:
  assumes "i < length (docul1_fine vd)" and "i < length (docul2_fine vd)"
  shows "snd (ocular vd age ! i) =
     (if age < 60
      then (1 + 0.02 * (age - 32)) * snd (docul1_fine vd ! i) + snd (docul2_fine vd ! i)
      else (1.56 + 0.0667 * (age - 60)) * snd (docul1_fine vd ! i) + snd (docul2_fine vd ! i))"
  using assms by (simp add: ocular_def)

text \<open>Both branches are one expression with a kink, not a step, at 60.\<close>

lemma ocular_kink_form:
  "(if age < 60 then (1 + 0.02 * (age - 32)) * a + b
      else (1.56 + 0.0667 * (age - 60)) * a + b) =
   (1.56 + 0.02 * min (age - 60) 0 + 0.0667 * max (age - 60) 0) * a + (b::real)"
proof (cases "age < 60")
  case True
  then have "min (age - 60) 0 = age - 60" and "max (age - 60) 0 = 0"
    by simp_all
  with True show ?thesis
    by (simp add: field_simps)
next
  case False
  then have "min (age - 60) 0 = 0" and "max (age - 60) 0 = age - 60"
    by simp_all
  with False show ?thesis
    by simp
qed

lemma ocular_isCont:
  assumes "i < length (docul1_fine vd)" and "i < length (docul2_fine vd)"
  shows "isCont (\<lambda>age. snd (ocular vd age ! i)) 60"
proof -
  have "isCont (\<lambda>age::real. (1.56 + 0.02 * min (age - 60) 0 + 0.0667 * max (age - 60) 0)
          * snd (docul1_fine vd ! i) + snd (docul2_fine vd ! i)) 60"
    by (intro continuous_intros)
  then show ?thesis
    using assms by (simp only: ocular_nth ocular_kink_form)
qed

text \<open>
  C6 (as the code has it). At every tabulated wavelength the density is
  \<open>(1 + 0.02 (age - 32)) d1 + d2\<close> below 60 years and
  \<open>(1.56 + 0.0667 (age - 60)) d1 + d2\<close> from 60 years on, and as a function of age it
  is continuous at 60: the two coefficients agree there (both are 1.56), only the slope
  changes.
\<close>

theorem ocular_piecewise_continuous:
  assumes "i < length (docul1_fine vd)" and "i < length (docul2_fine vd)"
  shows "(age < 60 \<longrightarrow> snd (ocular vd age ! i) =
            (1 + 0.02 * (age - 32)) * snd (docul1_fine vd ! i) + snd (docul2_fine vd ! i)) \<and>
         (60 \<le> age \<longrightarrow> snd (ocular vd age ! i) =
            (1.56 + 0.0667 * (age - 60)) * snd (docul1_fine vd ! i) + snd (docul2_fine vd ! i)) \<and>
         isCont (\<lambda>a. snd (ocular vd a ! i)) 60"
  using assms ocular_isCont [OF assms] by (simp add: ocular_nth)

theorem ocular_piecewise_continuous_witness:
  "snd (ocular example_data 50 ! 0) = 1.86 \<and>
   snd (ocular example_data 60 ! 0) = 2.06 \<and>
   isCont (\<lambda>a. snd (ocular example_data a ! 0)) 60"
  using ocular_piecewise_continuous [of 0 example_data 50]
    ocular_piecewise_continuous [of 0 example_data 60]
  by (simp add: example_data_def)

text \<open>
  C6 (as the spec has it) asks for a jump at 60. There is none: for the one-row tables
  \<open>docul1_fine = [(390, 1)]\<close> and \<open>docul2_fine = [(390, 0.5)]\<close> the density tends to
  its value at 60 as the age tends to 60.
\<close>

theorem ocular_jump_counterexample:
  "((\<lambda>age. snd (ocular example_data age ! 0)) \<longlongrightarrow> snd (ocular example_data 60 ! 0)) (at 60)"
  using ocular_isCont [of 0 example_data] by (simp add: isCont_def example_data_def)

end
